(* ===== verification/Prelude.thy ===== *)
theory Prelude
  imports Main "HOL-Library.Word"
begin

unbundle bit_operations_syntax

text \<open>
  What the component theories share: machine integers and addresses, the faults a Rust
  function can end in, results that carry a fault, the cursor loop over a range of
  addresses, and the alignment facts.

  The model is of the release profile on 64-bit little-endian Linux, the one platform the
  README supports: \<open>usize\<close>, \<open>Address\<close> and \<open>ObjectReference\<close> are 64-bit words, arithmetic
  wraps around and \<open>debug_assert!\<close> is compiled out. Where a debug build is of interest, the
  definition takes the build as an argument.
\<close>

section \<open>Machine integers\<close>

type_synonym u8 = "8 word"
type_synonym u16 = "16 word"
type_synonym u32 = "32 word"
type_synonym u64 = "64 word"
type_synonym usize = "64 word"
type_synonym addr = "64 word"

named_theorems size_simps
  "facts that evaluate sizes, offsets and tags of the Julia object layout"
named_theorems mem_simps
  "loads after stores"
named_theorems scan_simps
  "equations of the object scanner, branch by branch"

section \<open>Faults and results\<close>

text \<open>
  \<open>GcCorruption\<close> carries the three arguments of the "GC error (probable corruption)" message,
  \<open>Diverges\<close> stands for a loop that does not end.
\<close>

datatype fault =
    GcCorruption bool bool addr
  | Panic string
  | Unimplemented
  | Unreachable
  | UnwrapNone
  | IndexOutOfBounds
  | AssertFailed string
  | DebugAssert
  | Diverges

type_synonym 'a res = "fault + 'a"

definition rbind :: "'e + 'a \<Rightarrow> ('a \<Rightarrow> 'e + 'b) \<Rightarrow> 'e + 'b" where
  "rbind m f = (case m of Inl e \<Rightarrow> Inl e | Inr x \<Rightarrow> f x)"

definition returns :: "'a option \<Rightarrow> 'a res" where
  "returns v = (case v of None \<Rightarrow> Inl Diverges | Some x \<Rightarrow> Inr x)"

lemma rbind_simps [simp]:
  "rbind (Inl e) f = Inl e"
  "rbind (Inr x) f = f x"
  by (simp_all add: rbind_def)

lemma rbind_eq_Inr: "rbind m f = Inr y \<longleftrightarrow> (\<exists>x. m = Inr x \<and> f x = Inr y)"
  by (cases m) simp_all

lemma rbind_eq_Inl: "rbind m f = Inl e \<longleftrightarrow> m = Inl e \<or> (\<exists>x. m = Inr x \<and> f x = Inl e)"
  by (cases m) simp_all

lemma rbind_assoc: "rbind (rbind m f) g = rbind m (\<lambda>x. rbind (f x) g)"
  by (cases m) simp_all

lemma returns_simps [simp]:
  "returns None = Inl Diverges"
  "returns (Some x) = Inr x"
  by (simp_all add: returns_def)

lemma returns_eq_Inr: "returns v = Inr x \<longleftrightarrow> v = Some x"
  by (cases v) simp_all

section \<open>Words\<close>

lemma word_max_64: "unat (w :: 64 word) < 2 ^ 64"
  using unsigned_less [of w] by simp

lemma unat_add_no_wrap:
  "unat (a :: 64 word) + unat b < 2 ^ 64 \<Longrightarrow> unat (a + b) = unat a + unat b"
  by (simp add: unat_word_ariths)

lemma unat_of_nat_64: "n < 2 ^ 64 \<Longrightarrow> unat (of_nat n :: 64 word) = n"
  by (simp add: unat_of_nat take_bit_nat_eq_self)

lemma unat_of_nat_mult:
  assumes "n * unat (s :: 64 word) < 2 ^ 64"
  shows "unat (of_nat n * s) = n * unat s"
proof -
  have "of_nat n * s = of_nat (n * unat s)"
    by simp
  then show ?thesis
    using assms unat_of_nat_64 by metis
qed

lemma unat_offset_no_wrap:
  assumes "unat (a :: 64 word) + n * unat s < 2 ^ 64"
  shows "unat (a + of_nat n * s) = unat a + n * unat s"
  using assms by (subst unat_add_no_wrap) (simp_all add: unat_of_nat_mult)

section \<open>Cursor loops\<close>

text \<open>
  The scanners walk a range with \<^verbatim>\<open>while cursor < end { ...; cursor = cursor.shift(k) }\<close>. The
  cursors such a loop visits, in order; \<open>None\<close> is a loop that does not end.
\<close>

partial_function (option) addr_range :: "addr \<Rightarrow> addr \<Rightarrow> addr \<Rightarrow> addr list option" where
  "addr_range b e st =
     (if b < e then Option.bind (addr_range (b + st) e st) (\<lambda>r. Some (b # r)) else Some [])"

lemma addr_range_empty: "\<not> b < e \<Longrightarrow> addr_range b e st = Some []"
  by (subst addr_range.simps) simp

lemma addr_range_step:
  "b < e \<Longrightarrow> addr_range (b + st) e st = Some r \<Longrightarrow> addr_range b e st = Some (b # r)"
  by (subst addr_range.simps) simp

definition range_count :: "nat \<Rightarrow> nat \<Rightarrow> nat \<Rightarrow> nat" where
  "range_count b e st = (e - b + st - 1) div st"

lemma range_count_0: "e \<le> b \<Longrightarrow> range_count b e st = 0"
  by (cases "st = 0") (simp_all add: range_count_def)

lemma range_count_Suc:
  assumes "b < e" and "0 < st"
  shows "range_count b e st = Suc (range_count (b + st) e st)"
proof (cases "b + st \<le> e")
  case True
  then have "e - b + st - 1 = (e - (b + st) + st - 1) + st"
    using assms by linarith
  then show ?thesis
    using assms div_add_self2 [of st "e - (b + st) + st - 1"] by (simp only: range_count_def)
next
  case False
  then have "range_count (b + st) e st = 0"
    by (simp add: range_count_0)
  moreover have "(e - b + st - 1) div st = 1"
    by (rule div_nat_eqI) (use False assms in simp_all)
  ultimately show ?thesis
    by (simp only: range_count_def)
qed

lemma range_count_exact: "0 < st \<Longrightarrow> range_count b (b + n * st) st = n"
  unfolding range_count_def by (rule div_nat_eqI) (auto simp: mult.commute)

text \<open>
  With a step and no wrap-around past the end, the loop ends and visits the multiples of the
  step.
\<close>

lemma addr_range_total:
  assumes "0 < st" and "unat e + unat st < 2 ^ 64"
  shows "addr_range b e st =
    Some (map (\<lambda>i. b + of_nat i * st) [0..<range_count (unat b) (unat e) (unat st)])"
  using assms
proof (induction "unat e - unat b" arbitrary: b rule: less_induct)
  case less
  show ?case
  proof (cases "b < e")
    case False
    then have "unat e \<le> unat b"
      by (simp add: word_less_nat_alt)
    with False show ?thesis
      by (simp add: addr_range_empty range_count_0)
  next
    case True
    have st: "0 < unat st"
      using less.prems by (simp add: unat_gt_0)
    have u: "unat (b + st) = unat b + unat st"
      using True less.prems by (intro unat_add_no_wrap) (simp add: word_less_nat_alt)
    have "unat b < unat e"
      using True by (simp add: word_less_nat_alt)
    then have "unat e - unat (b + st) < unat e - unat b"
      using u st by simp
    from less.hyps [OF this less.prems] have
      "addr_range (b + st) e st = Some (map (\<lambda>i. b + st + of_nat i * st)
         [0..<range_count (unat b + unat st) (unat e) (unat st)])"
      by (simp add: u)
    from addr_range_step [OF True this] show ?thesis
      using range_count_Suc [OF \<open>unat b < unat e\<close> st]
      by (simp add: upt_conv_Cons map_Suc_upt [symmetric] comp_def algebra_simps
          del: upt_Suc)
  qed
qed

lemma addr_range_count:
  assumes "0 < st" and "unat b + n * unat st + unat st < 2 ^ 64"
  shows "addr_range b (b + of_nat n * st) st = Some (map (\<lambda>i. b + of_nat i * st) [0..<n])"
proof -
  have u: "unat (b + of_nat n * st) = unat b + n * unat st"
    using assms(2) by (intro unat_offset_no_wrap) simp
  have "0 < unat st"
    using assms(1) by (simp add: unat_gt_0)
  then show ?thesis
    using assms u by (simp add: addr_range_total range_count_exact)
qed

text \<open>A loop with step 0 that is entered never ends.\<close>

lemma addr_range_diverges:
  assumes "b < e"
  shows "addr_range b e 0 = None"
proof (cases "addr_range b e 0")
  case (Some r)
  have "addr_range b e st = Some r \<Longrightarrow> st = 0 \<longrightarrow> \<not> b < e" for b e st r
    by (rule addr_range.raw_induct [where P = "\<lambda>b e st r. st = 0 \<longrightarrow> \<not> b < e"])
      (auto simp: Option.bind_eq_Some_conv split: if_splits)
  with Some assms show ?thesis
    by blast
qed simp

section \<open>Alignment\<close>

text \<open>\<open>(size + align - 1) AND NOT (align - 1)\<close> rounds up to a power of two.\<close>

lemma and_not_mask_mult:
  "w AND NOT (mask n) = push_bit n (drop_bit n (w :: 64 word))"
  by (rule bit_word_eqI) (auto simp: bit_simps)

lemma unat_and_not_mask:
  "unat ((w :: 64 word) AND NOT (mask n)) = unat w div 2 ^ n * 2 ^ n"
proof -
  have "unat w div 2 ^ n * 2 ^ n < 2 ^ 64"
    by (rule le_less_trans [OF div_times_less_eq_dividend word_max_64])
  moreover have "unat (w AND NOT (mask n)) = take_bit 64 (push_bit n (drop_bit n (unat w)))"
    by (simp add: and_not_mask_mult unsigned_push_bit_eq unsigned_drop_bit_eq
        take_bit_nat_eq_self [OF word_max_64])
  ultimately show ?thesis
    by (simp add: push_bit_eq_mult drop_bit_eq_div take_bit_nat_eq_self)
qed

end
