(* ===== verification/Memory.thy ===== *)
theory Memory
  imports Prelude
begin

text \<open>
  The memory the binding reads and writes through raw pointers: a byte for every 64-bit
  address, with little-endian loads and stores of 1, 2, 4 and 8 bytes, the block copy of
  \<^verbatim>\<open>std::ptr::copy_nonoverlapping::<u8>\<close> and the fill of \<^verbatim>\<open>libc::memset\<close>.

  The locale \<open>word_store\<close> is the interface the clients rely on: what a load returns after a
  store to the same place and after a store elsewhere. Copy loops are proved against it and
  it is interpreted here on the 8-byte loads and stores.
\<close>

section \<open>Bytes, loads and stores\<close>

type_synonym memory = "addr \<Rightarrow> u8"

fun load_le :: "nat \<Rightarrow> memory \<Rightarrow> addr \<Rightarrow> 'a::len word" where
  "load_le 0 m a = 0"
| "load_le (Suc n) m a = (ucast (m a) OR push_bit 8 (load_le n m (a + 1)))"

fun store_le :: "nat \<Rightarrow> memory \<Rightarrow> addr \<Rightarrow> 'a::len word \<Rightarrow> memory" where
  "store_le 0 m a v = m"
| "store_le (Suc n) m a v = store_le n (m(a := ucast v)) (a + 1) (drop_bit 8 v)"

definition load8 :: "memory \<Rightarrow> addr \<Rightarrow> u8" where
  "load8 m a = load_le 1 m a"

definition load16 :: "memory \<Rightarrow> addr \<Rightarrow> u16" where
  "load16 m a = load_le 2 m a"

definition load32 :: "memory \<Rightarrow> addr \<Rightarrow> u32" where
  "load32 m a = load_le 4 m a"

definition load64 :: "memory \<Rightarrow> addr \<Rightarrow> u64" where
  "load64 m a = load_le 8 m a"

definition store64 :: "memory \<Rightarrow> addr \<Rightarrow> u64 \<Rightarrow> memory" where
  "store64 m a v = store_le 8 m a v"

definition copy_bytes :: "memory \<Rightarrow> addr \<Rightarrow> addr \<Rightarrow> usize \<Rightarrow> memory" where
  "copy_bytes m src dst n = (\<lambda>x. if x - dst < n then m (src + (x - dst)) else m x)"

definition fill_bytes :: "memory \<Rightarrow> addr \<Rightarrow> u8 \<Rightarrow> usize \<Rightarrow> memory" where
  "fill_bytes m dst v n = (\<lambda>x. if x - dst < n then v else m x)"

section \<open>Places that do not overlap\<close>

text \<open>
  The \<open>k\<close> bytes from \<open>a\<close> and the \<open>n\<close> bytes from \<open>b\<close> are disjoint, also when one of them
  wraps around the end of the address space.
\<close>

definition apart :: "nat \<Rightarrow> addr \<Rightarrow> nat \<Rightarrow> addr \<Rightarrow> bool" where
  "apart k a n b \<longleftrightarrow> k \<le> unat (b - a) \<and> n \<le> unat (a - b)"

lemma apart_sym: "apart k a n b = apart n b k a"
  by (auto simp: apart_def)

lemma apart_neq:
  assumes "apart k a n b" "i < k" "j < n"
  shows "a + of_nat i \<noteq> b + of_nat j"
proof
  assume eq: "a + of_nat i = b + of_nat j"
  have small: "k < 2 ^ 64" "n < 2 ^ 64"
    using assms(1) word_max_64 [of "b - a"] word_max_64 [of "a - b"] by (auto simp: apart_def)
  show False
  proof (cases "j \<le> i")
    case True
    with eq have "b - a = of_nat (i - j)"
      by (simp add: algebra_simps of_nat_diff)
    then have "unat (b - a) = i - j"
      using small assms(2) by (simp add: unat_of_nat_64)
    with assms show False
      unfolding apart_def by arith
  next
    case False
    with eq have "a - b = of_nat (j - i)"
      by (simp add: algebra_simps of_nat_diff)
    then have "unat (a - b) = j - i"
      using small assms(3) by (simp add: unat_of_nat_64)
    with assms show False
      unfolding apart_def by arith
  qed
qed

lemma unat_sub_if_le: "a \<le> b \<Longrightarrow> unat (b - a :: 64 word) = unat b - unat a"
  by (simp add: unat_sub)

lemma unat_sub_wrap: "a < b \<Longrightarrow> unat (a - b :: 64 word) = 2 ^ 64 + unat a - unat b"
  by (simp add: unat_sub_if' word_less_nat_alt)

text \<open>Two ranges in order, neither of which wraps.\<close>

lemma apart_before:
  assumes "unat a + k \<le> unat b" and "unat b + n \<le> 2 ^ 64" and "0 < k"
  shows "apart k a n b"
proof -
  have "a < b"
    using assms by (simp add: word_less_nat_alt)
  then have "unat (b - a) = unat b - unat a" "unat (a - b) = 2 ^ 64 + unat a - unat b"
    by (simp_all add: unat_sub_if_le unat_sub_wrap)
  then show ?thesis
    using assms unfolding apart_def by arith
qed

lemma apart_after:
  "unat b + n \<le> unat a \<Longrightarrow> unat a + k \<le> 2 ^ 64 \<Longrightarrow> 0 < n \<Longrightarrow> apart k a n b"
  by (subst apart_sym) (rule apart_before)

section \<open>Loads after stores\<close>

lemma store_le_other:
  "(\<And>i. i < n \<Longrightarrow> b \<noteq> a + of_nat i) \<Longrightarrow> store_le n m a v b = m b"
proof (induction n arbitrary: m a v)
  case (Suc n)
  have "b \<noteq> a + 1 + of_nat i" if "i < n" for i
    using Suc.prems [of "Suc i"] that by (simp add: algebra_simps)
  then have "store_le (Suc n) m a v b = (m(a := ucast v)) b"
    using Suc.IH by simp
  then show ?case
    using Suc.prems [of 0] by simp
qed simp

lemma load_le_cong:
  "(\<And>i. i < n \<Longrightarrow> m (a + of_nat i) = m' (a' + of_nat i)) \<Longrightarrow> load_le n m a = load_le n m' a'"
proof (induction n arbitrary: a a')
  case (Suc n)
  have "m (a + 1 + of_nat i) = m' (a' + 1 + of_nat i)" if "i < n" for i
    using Suc.prems [of "Suc i"] that by (simp add: algebra_simps)
  note Suc.IH [OF this]
  then show ?case
    using Suc.prems [of 0] by simp
qed simp

lemma load_le_store_le_apart:
  "apart k a n b \<Longrightarrow> load_le k (store_le n m b v) a = load_le k m a"
  by (intro load_le_cong store_le_other) (auto dest: apart_neq)

lemma load_le_store_le_same:
  assumes "n < 2 ^ 64"
  shows "load_le n (store_le n m a v) a = take_bit (8 * n) v"
  using assms
proof (induction n arbitrary: m a v)
  case (Suc n)
  have "a \<noteq> a + 1 + of_nat i" if "i < n" for i
  proof
    assume "a = a + 1 + of_nat i"
    then have "of_nat (Suc i) = (0 :: addr)"
      by (simp add: algebra_simps)
    moreover have "unat (of_nat (Suc i) :: addr) = Suc i"
      using Suc.prems that by (intro unat_of_nat_64) simp
    ultimately show False
      by simp
  qed
  then have "store_le n (m(a := ucast v)) (a + 1) (drop_bit 8 v) a = ucast v"
    by (subst store_le_other) simp_all
  moreover have "load_le n (store_le n (m(a := ucast v)) (a + 1) (drop_bit 8 v)) (a + 1)
      = take_bit (8 * n) (drop_bit 8 v)"
    using Suc by simp
  ultimately show ?case
    by (auto intro!: bit_word_eqI simp: bit_simps)
qed simp

lemma load64_store64_same [mem_simps]: "load64 (store64 m a v) a = v"
  by (simp add: load64_def store64_def load_le_store_le_same take_bit_word_eq_self)

lemma load64_store64_apart [mem_simps]:
  "apart 8 a 8 b \<Longrightarrow> load64 (store64 m b v) a = load64 m a"
  by (simp add: load64_def store64_def load_le_store_le_apart)

lemma load32_store64_apart [mem_simps]:
  "apart 4 a 8 b \<Longrightarrow> load32 (store64 m b v) a = load32 m a"
  by (simp add: load32_def store64_def load_le_store_le_apart)

lemma load16_store64_apart [mem_simps]:
  "apart 2 a 8 b \<Longrightarrow> load16 (store64 m b v) a = load16 m a"
  by (simp add: load16_def store64_def load_le_store_le_apart)

lemma load8_store64_apart [mem_simps]:
  "apart 1 a 8 b \<Longrightarrow> load8 (store64 m b v) a = load8 m a"
  unfolding load8_def store64_def by (rule load_le_store_le_apart)

lemma store64_other:
  "apart 1 b 8 a \<Longrightarrow> store64 m a v b = m b"
  unfolding store64_def by (rule store_le_other) (use apart_neq [of 1 b 8 a 0] in auto)

lemma load8_eq [simp]: "load8 m a = m a"
  by (simp add: load8_def)

lemmas load_unfold = load8_def load16_def load32_def load64_def eval_nat_numeral

lemma load_zero [simp]:
  "load16 (\<lambda>_. 0) a = 0" "load32 (\<lambda>_. 0) a = 0" "load64 (\<lambda>_. 0) a = 0"
  by (simp_all add: load_unfold)

text \<open>A load of eight bytes is determined by those bytes.\<close>

lemma load64_cong:
  "(\<And>i. i < 8 \<Longrightarrow> m (a + of_nat i) = m' (a' + of_nat i)) \<Longrightarrow> load64 m a = load64 m' a'"
  unfolding load64_def by (rule load_le_cong)

section \<open>Memories for examples\<close>

text \<open>Words stored one after the other, the first of the list last, over zeros.\<close>

fun poke :: "(addr \<times> u64) list \<Rightarrow> memory" where
  "poke [] = (\<lambda>_. 0)"
| "poke ((a, v) # xs) = store64 (poke xs) a v"

lemma store_le_byte:
  "n < 2 ^ 64 \<Longrightarrow> store_le n m a v x =
    (if unat (x - a) < n then ucast (drop_bit (8 * unat (x - a)) v) else m x)"
proof (induction n arbitrary: m a v)
  case (Suc n)
  show ?case
  proof (cases "x = a")
    case True
    then have "unat (x - (a + 1)) = 2 ^ 64 - 1"
      by (simp add: unsigned_minus_1_eq_mask mask_eq_exp_minus_1)
    with Suc True show ?thesis
      by simp
  next
    case False
    then have "unat (x - (a + 1)) = unat (x - a) - 1" "0 < unat (x - a)"
      using unat_minus_one [of "x - a"] by (simp_all add: diff_diff_add unat_gt_0)
    moreover from this obtain k where "unat (x - a) = Suc k"
      by (metis Suc_pred)
    ultimately show ?thesis
      using Suc False by (simp add: add.commute)
  qed
qed simp

lemma load16_bytes: "load16 m a = ucast (m a) OR push_bit 8 (ucast (m (a + 1)))"
  by (simp add: load_unfold)

lemma load32_bytes: "load32 m a = ucast (m a) OR push_bit 8 (ucast (m (a + 1))
    OR push_bit 8 (ucast (m (a + 2)) OR push_bit 8 (ucast (m (a + 3)))))"
  by (simp add: load_unfold add.assoc)

lemma poke_byte:
  "poke ((a, v) # xs) x = (if x - a < 8 then ucast (drop_bit (8 * unat (x - a)) v) else poke xs x)"
  by (simp add: poke.simps(2) store64_def store_le_byte word_less_nat_alt)

declare poke.simps(2) [simp del]

lemma load64_poke [mem_simps]:
  "load64 (poke []) a = 0"
  "load64 (poke ((a, v) # xs)) a = v"
  "apart 8 b 8 a \<Longrightarrow> load64 (poke ((a, v) # xs)) b = load64 (poke xs) b"
  by (simp_all add: poke.simps(2) mem_simps)

section \<open>Block copy\<close>

lemma copy_bytes_target:
  "i < unat n \<Longrightarrow> copy_bytes m src dst n (dst + of_nat i) = m (src + of_nat i)"
  using word_max_64 [of n]
  by (simp add: copy_bytes_def word_less_nat_alt unat_of_nat_64)

lemma copy_bytes_other: "\<not> x - dst < n \<Longrightarrow> copy_bytes m src dst n x = m x"
  by (simp add: copy_bytes_def)

lemma load64_copy_bytes:
  assumes "i + 8 \<le> unat n"
  shows "load64 (copy_bytes m src dst n) (dst + of_nat i) = load64 m (src + of_nat i)"
proof (rule load64_cong)
  fix j :: nat
  assume "j < 8"
  then show "copy_bytes m src dst n (dst + of_nat i + of_nat j) = m (src + of_nat i + of_nat j)"
    using copy_bytes_target [of "i + j" n m src dst] assms by (simp add: add.assoc)
qed

section \<open>The interface of a store of words\<close>

text \<open>
  What a client of loads and stores relies on. \<open>sep a b\<close>: the places \<open>a\<close> and \<open>b\<close> do not
  overlap.
\<close>

locale word_store =
  fixes ld :: "'m \<Rightarrow> 'a \<Rightarrow> 'v"
    and st :: "'m \<Rightarrow> 'a \<Rightarrow> 'v \<Rightarrow> 'm"
    and sep :: "'a \<Rightarrow> 'a \<Rightarrow> bool"
  assumes ld_st_same: "ld (st m a v) a = v"
    and ld_st_sep: "sep a b \<Longrightarrow> ld (st m b v) a = ld m a"
begin

text \<open>A loop that copies place \<open>s i\<close> to place \<open>t i\<close> for each index of a list.\<close>

lemma ld_copies_other:
  "(\<And>i. i \<in> set is \<Longrightarrow> sep a (t i)) \<Longrightarrow>
    ld (foldl (\<lambda>m i. st m (t i) (ld m (s i))) m is) a = ld m a"
proof (induction "is" rule: rev_induct)
  case (snoc i "is")
  then show ?case
    by (simp add: ld_st_sep)
qed simp

text \<open>
  If no write hits a source that is read later, and no write hits an earlier target, every
  target ends with what its source held at the start.
\<close>

lemma ld_copies:
  assumes "i \<in> set is" and "distinct is"
    and src: "sorted_wrt (\<lambda>i j. sep (s j) (t i)) is"
    and tgt: "sorted_wrt (\<lambda>i j. sep (t i) (t j)) is"
  shows "ld (foldl (\<lambda>m i. st m (t i) (ld m (s i))) m is) (t i) = ld m (s i)"
  using assms
proof (induction "is" rule: rev_induct)
  case (snoc j "is")
  show ?case
  proof (cases "i = j")
    case True
    have "\<And>k. k \<in> set is \<Longrightarrow> sep (s j) (t k)"
      using snoc.prems(3) by (simp add: sorted_wrt_append)
    then show ?thesis
      using True by (simp add: ld_st_same ld_copies_other)
  next
    case False
    then have "i \<in> set is"
      using snoc.prems(1) by simp
    moreover from this have "sep (t i) (t j)"
      using snoc.prems(4) by (simp add: sorted_wrt_append)
    ultimately show ?thesis
      using snoc by (simp add: ld_st_sep sorted_wrt_append)
  qed
qed simp

end

interpretation mem64: word_store load64 store64 "\<lambda>a b. apart 8 a 8 b"
  by unfold_locales (simp_all add: mem_simps)

end
