(* ===== verification/Bitfields.thy ===== *)
theory Bitfields
  imports Memory
begin

text \<open>
  The bit fields of the FFI types: \<^verbatim>\<open>__BindgenBitfieldUnit\<close> of \<^verbatim>\<open>julia_types.rs\<close>, its accessors on the
  storage bytes and the \<^verbatim>\<open>raw_\<close> ones through a pointer, the fields the collector reads, and
  the loop-free accessors of \<^verbatim>\<open>util.rs\<close>.

  Both families of accessors are instances of the locale \<open>bit_unit\<close>, an array of bits, where
  the loops of \<^verbatim>\<open>get\<close> and \<^verbatim>\<open>set\<close> are proved once. The binding is built for a little-endian
  target, so the \<^verbatim>\<open>target_endian = "big"\<close> arms are not taken.
\<close>

section \<open>An array of bits\<close>

locale bit_unit =
  fixes getb :: "'s \<Rightarrow> nat \<Rightarrow> bool"
    and setb :: "'s \<Rightarrow> nat \<Rightarrow> bool \<Rightarrow> 's"
    and nbits :: "'s \<Rightarrow> nat"
  assumes getb_setb: "i < nbits s \<Longrightarrow> j < nbits s \<Longrightarrow>
      getb (setb s i v) j = (if j = i then v else getb s j)"
    and nbits_setb: "nbits (setb s i v) = nbits s"
begin

lemma bit_get_loop:
  fixes acc :: "64 word"
  assumes "w \<le> 64"
  shows "bit (foldl (\<lambda>v i. if getb s (i + off) then v OR push_bit i 1 else v) acc [0..<w]) k
    \<longleftrightarrow> bit acc k \<or> (k < w \<and> getb s (k + off))"
  using assms
proof (induction w)
  case (Suc w)
  then show ?case
    by (auto simp: bit_simps less_Suc_eq)
qed simp

lemma nbits_set_loop:
  "nbits (foldl (\<lambda>s i. setb s (i + off) (f i)) s is) = nbits s"
  by (induction "is" rule: rev_induct) (simp_all add: nbits_setb)

lemma getb_set_loop:
  assumes "off + w \<le> nbits s" and "j < nbits s"
  shows "getb (foldl (\<lambda>s i. setb s (i + off) (f i)) s [0..<w]) j
    = (if off \<le> j \<and> j < off + w then f (j - off) else getb s j)"
  using assms
proof (induction w)
  case (Suc w)
  then show ?case
    by (auto simp: getb_setb nbits_set_loop)
qed auto

text \<open>What is written is read back, cut to the width of the field.\<close>

lemma get_set_loop:
  fixes val :: "64 word"
  assumes "off + w \<le> nbits s" and "w \<le> 64"
  shows "foldl (\<lambda>v i. if getb (foldl (\<lambda>s i. setb s (i + off) (bit val i)) s [0..<w]) (i + off)
      then v OR push_bit i 1 else v) 0 [0..<w] = take_bit w val"
  by (rule bit_word_eqI)
    (use assms in \<open>auto simp: bit_get_loop getb_set_loop bit_simps\<close>)

text \<open>A field next to the written one is not touched.\<close>

lemma get_set_loop_other:
  fixes acc :: "64 word"
  assumes "off + w \<le> nbits s" and "off' + w' \<le> nbits s" and "w' \<le> 64"
    and "off + w \<le> off' \<or> off' + w' \<le> off"
  shows "foldl (\<lambda>v i. if getb (foldl (\<lambda>s i. setb s (i + off) (f i)) s [0..<w]) (i + off')
      then v OR push_bit i 1 else v) acc [0..<w']
    = foldl (\<lambda>v i. if getb s (i + off') then v OR push_bit i 1 else v) acc [0..<w']"
  by (rule bit_word_eqI)
    (use assms in \<open>auto simp: bit_get_loop getb_set_loop\<close>)

end

section \<open>Accessors on the storage\<close>

type_synonym bitfield = "u8 list"

definition extract_bit :: "u8 \<Rightarrow> nat \<Rightarrow> bool" where
  "extract_bit byte index =
     (let bit_index = index mod 8; mask = push_bit bit_index 1 in byte AND mask = mask)"

definition change_bit :: "u8 \<Rightarrow> nat \<Rightarrow> bool \<Rightarrow> u8" where
  "change_bit byte index val =
     (let bit_index = index mod 8; mask = push_bit bit_index 1
      in if val then byte OR mask else byte AND NOT mask)"

definition get_bit :: "bitfield \<Rightarrow> nat \<Rightarrow> bool res" where
  "get_bit storage index =
     (let byte_index = index div 8
      in if byte_index < length storage then Inr (extract_bit (storage ! byte_index) index)
         else Inl IndexOutOfBounds)"

definition set_bit_at :: "bitfield \<Rightarrow> nat \<Rightarrow> bool \<Rightarrow> bitfield res" where
  "set_bit_at storage index val =
     (let byte_index = index div 8
      in if byte_index < length storage
         then Inr (storage[byte_index := change_bit (storage ! byte_index) index val])
         else Inl IndexOutOfBounds)"

definition bf_get :: "bitfield \<Rightarrow> nat \<Rightarrow> nat \<Rightarrow> u64 res" where
  "bf_get storage bit_offset bit_width =
     foldl (\<lambda>r i. rbind r (\<lambda>val. rbind (get_bit storage (i + bit_offset))
         (\<lambda>b. Inr (if b then val OR push_bit i 1 else val)))) (Inr 0) [0..<bit_width]"

definition bf_set :: "bitfield \<Rightarrow> nat \<Rightarrow> nat \<Rightarrow> u64 \<Rightarrow> bitfield res" where
  "bf_set storage bit_offset bit_width val =
     foldl (\<lambda>r i. rbind r (\<lambda>st.
         let mask = push_bit i 1; val_bit_is_set = (val AND mask = mask)
         in set_bit_at st (i + bit_offset) val_bit_is_set)) (Inr storage) [0..<bit_width]"

lemma and_exp_bit:
  fixes v :: "'a::len word"
  assumes "i < LENGTH('a)"
  shows "v AND 2 ^ i = 2 ^ i \<longleftrightarrow> bit v i"
proof -
  have "v AND 2 ^ i = (if bit v i then 2 ^ i else 0)"
    by (rule bit_word_eqI) (auto simp: bit_simps)
  moreover have "bit (2 ^ i :: 'a word) i"
    using assms by (simp add: bit_simps)
  then have "(2 :: 'a word) ^ i \<noteq> 0"
    by (metis bit_0_eq bot_bool_def bot_apply)
  ultimately show ?thesis
    by simp
qed

lemma extract_bit_eq: "extract_bit byte i = bit byte (i mod 8)"
  by (simp add: extract_bit_def Let_def and_exp_bit)

lemma bit_change_bit:
  "k < 8 \<Longrightarrow> bit (change_bit byte i v) k = (if k = i mod 8 then v else bit byte k)"
  by (auto simp: change_bit_def Let_def bit_simps)

text \<open>The bits of the storage, as an instance of the interface.\<close>

definition st_bit :: "bitfield \<Rightarrow> nat \<Rightarrow> bool" where
  "st_bit storage i = extract_bit (storage ! (i div 8)) i"

definition st_set :: "bitfield \<Rightarrow> nat \<Rightarrow> bool \<Rightarrow> bitfield" where
  "st_set storage i v = storage[i div 8 := change_bit (storage ! (i div 8)) i v]"

lemma div_mod_8_eq: "(i :: nat) div 8 = j div 8 \<Longrightarrow> i mod 8 = j mod 8 \<Longrightarrow> i = j"
  by (metis div_mult_mod_eq)

interpretation storage: bit_unit st_bit st_set "\<lambda>s. 8 * length s"
proof unfold_locales
  fix i j v and s :: bitfield
  assume "i < 8 * length s" "j < 8 * length s"
  then have "i div 8 < length s" "j div 8 < length s"
    by (simp_all add: less_mult_imp_div_less mult.commute)
  then show "st_bit (st_set s i v) j = (if j = i then v else st_bit s j)"
    by (auto simp: st_bit_def st_set_def extract_bit_eq bit_change_bit nth_list_update
        dest: div_mod_8_eq)
qed (simp add: st_set_def)

lemma bf_get_in_bounds:
  assumes "bit_offset + bit_width \<le> 8 * length storage"
  shows "bf_get storage bit_offset bit_width =
    Inr (foldl (\<lambda>v i. if st_bit storage (i + bit_offset) then v OR push_bit i 1 else v) 0
      [0..<bit_width])"
  using assms
proof (induction bit_width)
  case (Suc w)
  then have "(w + bit_offset) div 8 < length storage"
    by (intro less_mult_imp_div_less) simp
  with Suc show ?case
    by (simp add: bf_get_def get_bit_def st_bit_def)
qed (simp add: bf_get_def)

lemma bf_set_in_bounds:
  assumes "bit_offset + bit_width \<le> 8 * length storage" and "bit_width \<le> 64"
  shows "bf_set storage bit_offset bit_width val =
    Inr (foldl (\<lambda>s i. st_set s (i + bit_offset) (bit val i)) storage [0..<bit_width])"
  using assms
proof (induction bit_width)
  case (Suc w)
  then have "(w + bit_offset) div 8 < length storage"
    by (intro less_mult_imp_div_less) simp
  moreover have "length (foldl (\<lambda>s i. st_set s (i + bit_offset) (bit val i)) storage is)
      = length storage" for "is"
    using storage.nbits_set_loop [of bit_offset "bit val" storage "is"] by simp
  ultimately show ?case
    using Suc by (simp add: bf_set_def set_bit_at_def st_set_def Let_def and_exp_bit)
qed (simp add: bf_set_def)

section \<open>Accessors through a pointer\<close>

definition raw_get_bit :: "memory \<Rightarrow> addr \<Rightarrow> nat \<Rightarrow> bool" where
  "raw_get_bit m this index =
     (let byte_index = index div 8; byte = m (this + of_nat byte_index) in extract_bit byte index)"

definition raw_set_bit :: "memory \<Rightarrow> addr \<Rightarrow> nat \<Rightarrow> bool \<Rightarrow> memory" where
  "raw_set_bit m this index val =
     (let byte_index = index div 8; byte = this + of_nat byte_index
      in m(byte := change_bit (m byte) index val))"

definition raw_get :: "memory \<Rightarrow> addr \<Rightarrow> nat \<Rightarrow> nat \<Rightarrow> u64" where
  "raw_get m this bit_offset bit_width =
     foldl (\<lambda>val i. if raw_get_bit m this (i + bit_offset) then val OR push_bit i 1 else val) 0
       [0..<bit_width]"

definition raw_set :: "memory \<Rightarrow> addr \<Rightarrow> nat \<Rightarrow> nat \<Rightarrow> u64 \<Rightarrow> memory" where
  "raw_set m this bit_offset bit_width val =
     foldl (\<lambda>m i. let mask = push_bit i 1; val_bit_is_set = (val AND mask = mask)
                  in raw_set_bit m this (i + bit_offset) val_bit_is_set) m [0..<bit_width]"

text \<open>
  A pointer addresses as many bits as the address space has; the units of the FFI types are at
  most 8 bytes.
\<close>

interpretation raw: bit_unit "\<lambda>m. raw_get_bit m this" "\<lambda>m. raw_set_bit m this" "\<lambda>_. 8 * 2 ^ 64"
  for this
proof unfold_locales
  fix i j :: nat and v and m :: memory
  assume "i < 8 * 2 ^ 64" "j < 8 * 2 ^ 64"
  then have "i div 8 < 2 ^ 64" "j div 8 < 2 ^ 64"
    by (simp_all add: less_mult_imp_div_less mult.commute)
  then have "of_nat (j div 8) = (of_nat (i div 8) :: addr) \<longleftrightarrow> j div 8 = i div 8"
    by (metis unat_of_nat_64)
  then show "raw_get_bit (raw_set_bit m this i v) this j = (if j = i then v else raw_get_bit m this j)"
    by (auto simp: raw_get_bit_def raw_set_bit_def Let_def extract_bit_eq bit_change_bit
        dest: div_mod_8_eq)
qed simp

lemma raw_set_eq:
  "bit_width \<le> 64 \<Longrightarrow> raw_set m this bit_offset bit_width val =
    foldl (\<lambda>m i. raw_set_bit m this (i + bit_offset) (bit val i)) m [0..<bit_width]"
  unfolding raw_set_def by (rule foldl_cong) (simp_all add: Let_def and_exp_bit)

section \<open>Several fields of one unit\<close>

text \<open>
  The \<^verbatim>\<open>new_bitfield_1\<close> constructors start from zero bytes and set one field after the other. A
  table of (offset, width, value) is well formed when every field fits and no two overlap.
\<close>

fun set_fields :: "(nat \<times> nat \<times> u64) list \<Rightarrow> bitfield \<Rightarrow> bitfield res" where
  "set_fields [] st = Inr st"
| "set_fields ((off, w, v) # fs) st = rbind (bf_set st off w v) (set_fields fs)"

definition fields_ok :: "nat \<Rightarrow> (nat \<times> nat \<times> u64) list \<Rightarrow> bool" where
  "fields_ok n fs \<longleftrightarrow> list_all (\<lambda>(off, w, v). off + w \<le> 8 * n \<and> w \<le> 64) fs
     \<and> sorted_wrt (\<lambda>(off, w, v) (off', w', v'). off + w \<le> off' \<or> off' + w' \<le> off) fs"

lemma bf_get_set_same:
  assumes "off + w \<le> 8 * length st" "w \<le> 64"
  shows "\<exists>st'. bf_set st off w v = Inr st' \<and> length st' = length st
    \<and> bf_get st' off w = Inr (take_bit w v)
    \<and> (\<forall>off' w'. off' + w' \<le> 8 * length st \<longrightarrow> w' \<le> 64 \<longrightarrow>
         off + w \<le> off' \<or> off' + w' \<le> off \<longrightarrow> bf_get st' off' w' = bf_get st off' w')"
proof -
  let ?st' = "foldl (\<lambda>s i. st_set s (i + off) (bit v i)) st [0..<w]"
  have len: "length ?st' = length st"
    using storage.nbits_set_loop [of off "bit v" st "[0..<w]"] by simp
  have "bf_get ?st' off w = Inr (take_bit w v)"
    using assms by (simp add: bf_get_in_bounds len storage.get_set_loop)
  moreover have "bf_get ?st' off' w' = bf_get st off' w'"
    if "off' + w' \<le> 8 * length st" "w' \<le> 64" "off + w \<le> off' \<or> off' + w' \<le> off" for off' w'
    using assms that by (simp add: bf_get_in_bounds len storage.get_set_loop_other)
  ultimately show ?thesis
    using assms len by (auto simp: bf_set_in_bounds)
qed

definition clear_of :: "(nat \<times> nat \<times> u64) list \<Rightarrow> nat \<Rightarrow> nat \<Rightarrow> bool" where
  "clear_of fs off' w' \<longleftrightarrow> (\<forall>(off, w, v) \<in> set fs. off + w \<le> off' \<or> off' + w' \<le> off)"

lemma clear_of_Cons [simp]:
  "clear_of ((off, w, v) # fs) off' w' \<longleftrightarrow>
    (off + w \<le> off' \<or> off' + w' \<le> off) \<and> clear_of fs off' w'"
  by (simp add: clear_of_def)

lemma set_fields_get:
  assumes "fields_ok (length st) fs"
  shows "\<exists>st'. set_fields fs st = Inr st' \<and> length st' = length st
    \<and> (\<forall>(off, w, v) \<in> set fs. bf_get st' off w = Inr (take_bit w v))
    \<and> (\<forall>off' w'. off' + w' \<le> 8 * length st \<longrightarrow> w' \<le> 64 \<longrightarrow> clear_of fs off' w' \<longrightarrow>
         bf_get st' off' w' = bf_get st off' w')"
  using assms
proof (induction fs arbitrary: st)
  case (Cons f fs)
  obtain off w v where f: "f = (off, w, v)"
    by (cases f)
  from Cons.prems have w: "off + w \<le> 8 * length st" "w \<le> 64"
    by (simp_all add: f fields_ok_def)
  obtain s1 where s1: "bf_set st off w v = Inr s1" "length s1 = length st"
    "bf_get s1 off w = Inr (take_bit w v)"
    "\<forall>off' w'. off' + w' \<le> 8 * length st \<longrightarrow> w' \<le> 64 \<longrightarrow>
       off + w \<le> off' \<or> off' + w' \<le> off \<longrightarrow> bf_get s1 off' w' = bf_get st off' w'"
    using bf_get_set_same [OF w, of v] by blast
  have "fields_ok (length s1) fs"
    using Cons.prems s1(2) by (simp add: fields_ok_def)
  from Cons.IH [OF this] obtain s2 where s2: "set_fields fs s1 = Inr s2" "length s2 = length s1"
    "\<forall>(off, w, v) \<in> set fs. bf_get s2 off w = Inr (take_bit w v)"
    "\<forall>off' w'. off' + w' \<le> 8 * length s1 \<longrightarrow> w' \<le> 64 \<longrightarrow> clear_of fs off' w' \<longrightarrow>
       bf_get s2 off' w' = bf_get s1 off' w'"
    by blast
  have "clear_of fs off w"
    using Cons.prems by (auto simp: f fields_ok_def clear_of_def)
  then have "bf_get s2 off w = Inr (take_bit w v)"
    using s2(4) w s1(2,3) by simp
  then show ?case
    using s1 s2 by (intro exI [of _ s2]) (auto simp: f)
qed simp

corollary set_fields_getD:
  assumes "fields_ok (length st) fs"
  shows "\<exists>st'. set_fields fs st = Inr st' \<and> length st' = length st
    \<and> (\<forall>off w v. (off, w, v) \<in> set fs \<longrightarrow> bf_get st' off w = Inr (take_bit w v))"
  using set_fields_get [OF assms] by blast

section \<open>The fields of the FFI types\<close>

subsection \<open>Flags of a layout\<close>

definition layout_haspadding :: "bitfield \<Rightarrow> u16 res" where
  "layout_haspadding st = rbind (bf_get st 0 1) (\<lambda>v. Inr (ucast v))"

definition fielddesc_type :: "bitfield \<Rightarrow> u16 res" where
  "fielddesc_type st = rbind (bf_get st 1 2) (\<lambda>v. Inr (ucast v))"

definition arrayelem_isboxed :: "bitfield \<Rightarrow> u16 res" where
  "arrayelem_isboxed st = rbind (bf_get st 3 1) (\<lambda>v. Inr (ucast v))"

definition arrayelem_isunion :: "bitfield \<Rightarrow> u16 res" where
  "arrayelem_isunion st = rbind (bf_get st 4 1) (\<lambda>v. Inr (ucast v))"

definition arrayelem_isatomic :: "bitfield \<Rightarrow> u16 res" where
  "arrayelem_isatomic st = rbind (bf_get st 5 1) (\<lambda>v. Inr (ucast v))"

definition arrayelem_islocked :: "bitfield \<Rightarrow> u16 res" where
  "arrayelem_islocked st = rbind (bf_get st 6 1) (\<lambda>v. Inr (ucast v))"

definition layout_isbitsegal :: "bitfield \<Rightarrow> u16 res" where
  "layout_isbitsegal st = rbind (bf_get st 7 1) (\<lambda>v. Inr (ucast v))"

definition layout_padding :: "bitfield \<Rightarrow> u16 res" where
  "layout_padding st = rbind (bf_get st 8 8) (\<lambda>v. Inr (ucast v))"

definition layout_new_bitfield ::
    "u16 \<Rightarrow> u16 \<Rightarrow> u16 \<Rightarrow> u16 \<Rightarrow> u16 \<Rightarrow> u16 \<Rightarrow> u16 \<Rightarrow> u16 \<Rightarrow> bitfield res" where
  "layout_new_bitfield haspadding desctype isboxed isunion isatomic islocked isbitsegal padding =
     set_fields [(0, 1, ucast haspadding), (1, 2, ucast desctype), (3, 1, ucast isboxed),
       (4, 1, ucast isunion), (5, 1, ucast isatomic), (6, 1, ucast islocked),
       (7, 1, ucast isbitsegal), (8, 8, ucast padding)] [0, 0]"

subsection \<open>Small tag of a datatype, copy-stack length of a task context\<close>

definition smalltag :: "bitfield \<Rightarrow> u16 res" where
  "smalltag st = rbind (bf_get st 10 6) (\<lambda>v. Inr (ucast v))"

definition copy_stack :: "bitfield \<Rightarrow> u32 res" where
  "copy_stack st = rbind (bf_get st 0 31) (\<lambda>v. Inr (ucast v))"

definition started :: "bitfield \<Rightarrow> u32 res" where
  "started st = rbind (bf_get st 31 1) (\<lambda>v. Inr (ucast v))"

definition ucontext_new_bitfield :: "u32 \<Rightarrow> u32 \<Rightarrow> bitfield res" where
  "ucontext_new_bitfield copied start =
     set_fields [(0, 31, ucast copied), (31, 1, ucast start)] [0, 0, 0, 0]"

definition datatype_new_bitfield ::
    "u16 \<Rightarrow> u16 \<Rightarrow> u16 \<Rightarrow> u16 \<Rightarrow> u16 \<Rightarrow> u16 \<Rightarrow> u16 \<Rightarrow> u16 \<Rightarrow> u16 \<Rightarrow> u16 \<Rightarrow> u16 \<Rightarrow> bitfield res" where
  "datatype_new_bitfield hasfreetypevars isconcretetype isdispatchtuple isbitstype zeroinit
     has_concrete_subtype maybe_subtype_of_cache isprimitivetype ismutationfree isidentityfree
     tag =
     set_fields [(0, 1, ucast hasfreetypevars), (1, 1, ucast isconcretetype),
       (2, 1, ucast isdispatchtuple), (3, 1, ucast isbitstype), (4, 1, ucast zeroinit),
       (5, 1, ucast has_concrete_subtype), (6, 1, ucast maybe_subtype_of_cache),
       (7, 1, ucast isprimitivetype), (8, 1, ucast ismutationfree),
       (9, 1, ucast isidentityfree), (10, 6, ucast tag)] [0, 0]"

subsection \<open>The loop-free accessors\<close>

text \<open>\<^verbatim>\<open>transmute\<close> of the storage bytes to an integer, little-endian.\<close>

fun transmute_le :: "bitfield \<Rightarrow> 'a::len word" where
  "transmute_le [] = 0"
| "transmute_le (b # bs) = (ucast b OR push_bit 8 (transmute_le bs))"

definition fielddesc_type_custom :: "bitfield \<Rightarrow> u16" where
  "fielddesc_type_custom st =
     (let fielddesc_type_raw = transmute_le st in drop_bit 1 fielddesc_type_raw AND 3)"

definition copy_stack_custom :: "bitfield \<Rightarrow> u32" where
  "copy_stack_custom st = (let copy_stack_raw = transmute_le st in copy_stack_raw AND 2147483647)"

lemma bit_transmute_le:
  "bit (transmute_le bs :: 'a::len word) k \<longleftrightarrow>
    k < LENGTH('a) \<and> k < 8 * length bs \<and> bit (bs ! (k div 8)) (k mod 8)"
proof (induction bs arbitrary: k)
  case (Cons b bs)
  show ?case
  proof (cases "k < 8")
    case True
    then show ?thesis
      by (auto simp: bit_simps)
  next
    case False
    then have "k div 8 = Suc ((k - 8) div 8)" "k mod 8 = (k - 8) mod 8"
      by (simp_all add: le_div_geq le_mod_geq)
    with False show ?thesis
      by (auto simp: bit_simps Cons dest: bit_imp_le_length)
  qed
qed simp

lemma bf_get_bits:
  assumes "off + w \<le> 8 * length st" "w \<le> 64"
  shows "\<exists>v. bf_get st off w = Inr v \<and>
    (\<forall>k. bit v k \<longleftrightarrow> k < w \<and> bit (st ! ((k + off) div 8)) ((k + off) mod 8))"
  using storage.bit_get_loop [OF assms(2), of st off 0] assms(1)
  by (simp add: bf_get_in_bounds st_bit_def extract_bit_eq)

lemma mask2: "(3 :: 'a::len word) = mask 2"
  by (simp add: mask_eq_exp_minus_1)

lemma mask31: "(2147483647 :: 'a::len word) = mask 31"
  by (simp add: mask_eq_exp_minus_1)

section \<open>Properties\<close>

lemma getter_u16:
  assumes "bf_get st off w = Inr (take_bit w (ucast (v :: u16)))"
  shows "rbind (bf_get st off w) (\<lambda>v. Inr (ucast v)) = Inr (take_bit w v)"
proof -
  have "ucast (take_bit w (ucast v :: u64)) = take_bit w v"
    by (rule bit_word_eqI) (auto simp: bit_simps)
  with assms show ?thesis
    by simp
qed

lemmas layout_getter_defs = layout_haspadding_def fielddesc_type_def arrayelem_isboxed_def
  arrayelem_isunion_def arrayelem_isatomic_def arrayelem_islocked_def layout_isbitsegal_def
  layout_padding_def

text \<open>
  The loop-free \<open>fielddesc_type_custom\<close> and \<open>copy_stack_custom\<close> of \<^verbatim>\<open>util.rs\<close> return, on every
  storage, what the bit-by-bit accessors generated by bindgen return.
\<close>

theorem custom_accessors_agree:
  "fielddesc_type [b0, b1] = Inr (fielddesc_type_custom [b0, b1])
   \<and> copy_stack [b0, b1, b2, b3] = Inr (copy_stack_custom [b0, b1, b2, b3])"
proof
  obtain v where v: "bf_get [b0, b1] 1 2 = Inr v"
    "\<forall>k. bit v k \<longleftrightarrow> k < 2 \<and> bit ([b0, b1] ! ((k + 1) div 8)) ((k + 1) mod 8)"
    using bf_get_bits [of 1 2 "[b0, b1]"] by auto
  have "ucast v = fielddesc_type_custom [b0, b1]"
    by (rule bit_word_eqI)
      (auto simp: fielddesc_type_custom_def mask2 bit_simps bit_transmute_le v(2)
        simp del: transmute_le.simps)
  with v(1) show "fielddesc_type [b0, b1] = Inr (fielddesc_type_custom [b0, b1])"
    by (simp add: fielddesc_type_def)
next
  obtain v where v: "bf_get [b0, b1, b2, b3] 0 31 = Inr v"
    "\<forall>k. bit v k \<longleftrightarrow> k < 31 \<and> bit ([b0, b1, b2, b3] ! (k div 8)) (k mod 8)"
    using bf_get_bits [of 0 31 "[b0, b1, b2, b3]"] by auto
  have "ucast v = copy_stack_custom [b0, b1, b2, b3]"
    by (rule bit_word_eqI)
      (auto simp: copy_stack_custom_def mask31 bit_simps bit_transmute_le v(2)
        simp del: transmute_le.simps)
  with v(1) show "copy_stack [b0, b1, b2, b3] = Inr (copy_stack_custom [b0, b1, b2, b3])"
    by (simp add: copy_stack_def)
qed

text \<open>
  The layout flags built by \<^verbatim>\<open>new_bitfield_1\<close> occupy two bytes, and each of the eight getters
  reads back the value its field was built from, cut to the width of the field.
\<close>

theorem layout_flags_roundtrip:
  "\<exists>st. layout_new_bitfield hp ft bx un at lk be pd = Inr st \<and> length st = 2
    \<and> layout_haspadding st = Inr (take_bit 1 hp) \<and> fielddesc_type st = Inr (take_bit 2 ft)
    \<and> arrayelem_isboxed st = Inr (take_bit 1 bx) \<and> arrayelem_isunion st = Inr (take_bit 1 un)
    \<and> arrayelem_isatomic st = Inr (take_bit 1 at) \<and> arrayelem_islocked st = Inr (take_bit 1 lk)
    \<and> layout_isbitsegal st = Inr (take_bit 1 be) \<and> layout_padding st = Inr (take_bit 8 pd)"
proof -
  let ?fs = "[(0, 1, ucast hp), (1, 2, ucast ft), (3, 1, ucast bx), (4, 1, ucast un),
    (5, 1, ucast at), (6, 1, ucast lk), (7, 1, ucast be), (8, 8, ucast pd)]"
  have "fields_ok (length [0, 0 :: u8]) ?fs"
    by (simp add: fields_ok_def)
  from set_fields_getD [OF this] obtain st where st: "set_fields ?fs [0, 0] = Inr st"
    "length st = length [0, 0 :: u8]"
    "\<forall>off w v. (off, w, v) \<in> set ?fs \<longrightarrow> bf_get st off w = Inr (take_bit w v)"
    by blast
  have "layout_new_bitfield hp ft bx un at lk be pd = Inr st"
    using st(1) by (simp only: layout_new_bitfield_def)
  moreover have "length st = 2"
    using st(2) by simp
  ultimately show ?thesis
    unfolding layout_getter_defs
    by (intro exI [of _ st] conjI) (assumption | rule getter_u16, rule st(3) [rule_format], simp)+
qed

end
