(* ===== verification/Julia_Layout.thy ===== *)
theory Julia_Layout
  imports Bitfields
begin

text \<open>
  The \<^verbatim>\<open>#[repr(C)]\<close> types of \<^verbatim>\<open>julia_types.rs\<close>, the part of the Julia runtime's data the collector
  reads. A C type is its size and alignment; a struct is the list of its fields, and its size,
  its alignment and the offset of each field follow from the C layout rule. \<open>X_fields\<close> is the
  declaration of \<open>X\<close>, \<open>X_t\<close> its size and alignment, and \<open>X_asserts\<close> the compile-time assertions
  bindgen writes after it. \<open>ffi_layouts_hold\<close> checks every assertion against the layout
  computed from the declaration; the accessors of the other theories take their offsets from
  the declarations (\<open>offset_of\<close>, \<open>size_of\<close>).
\<close>

section \<open>The C layout rule\<close>

type_synonym ctype = "nat \<times> nat"
type_synonym asserts = "nat \<times> nat \<times> (string \<times> nat) list"

abbreviation b1 :: ctype where "b1 \<equiv> (1, 1)"
abbreviation b2 :: ctype where "b2 \<equiv> (2, 2)"
abbreviation b4 :: ctype where "b4 \<equiv> (4, 4)"
abbreviation b8 :: ctype where "b8 \<equiv> (8, 8)"
abbreviation ptr :: ctype where "ptr \<equiv> (8, 8)"

definition arr :: "nat \<Rightarrow> ctype \<Rightarrow> ctype" where
  "arr n t = (n * fst t, snd t)"

definition round_up :: "nat \<Rightarrow> nat \<Rightarrow> nat" where
  "round_up n a = (n + a - 1) div a * a"

fun place_fields :: "nat \<Rightarrow> (string \<times> ctype) list \<Rightarrow> (string \<times> nat) list" where
  "place_fields pos [] = []"
| "place_fields pos ((f, sz, al) # fs) =
     (f, round_up pos al) # place_fields (round_up pos al + sz) fs"

fun fields_end :: "nat \<Rightarrow> (string \<times> ctype) list \<Rightarrow> nat" where
  "fields_end pos [] = pos"
| "fields_end pos ((f, sz, al) # fs) = fields_end (round_up pos al + sz) fs"

fun fields_align :: "(string \<times> ctype) list \<Rightarrow> nat" where
  "fields_align [] = 1"
| "fields_align ((f, sz, al) # fs) = max al (fields_align fs)"

fun fields_max_size :: "(string \<times> ctype) list \<Rightarrow> nat" where
  "fields_max_size [] = 0"
| "fields_max_size ((f, sz, al) # fs) = max sz (fields_max_size fs)"

definition struct_of :: "(string \<times> ctype) list \<Rightarrow> ctype" where
  "struct_of fs = (round_up (fields_end 0 fs) (fields_align fs), fields_align fs)"

definition union_of :: "(string \<times> ctype) list \<Rightarrow> ctype" where
  "union_of fs = (round_up (fields_max_size fs) (fields_align fs), fields_align fs)"

definition aligned :: "nat \<Rightarrow> ctype \<Rightarrow> ctype" where
  "aligned a t = (round_up (fst t) (max a (snd t)), max a (snd t))"

definition struct_offsets :: "(string \<times> ctype) list \<Rightarrow> (string \<times> nat) list" where
  "struct_offsets fs = place_fields 0 fs"

definition union_offsets :: "(string \<times> ctype) list \<Rightarrow> (string \<times> nat) list" where
  "union_offsets fs = map (\<lambda>(f, t). (f, 0)) fs"

definition offset_of :: "(string \<times> ctype) list \<Rightarrow> string \<Rightarrow> usize" where
  "offset_of fs f = of_nat (the (map_of (struct_offsets fs) f))"

definition size_of :: "ctype \<Rightarrow> usize" where
  "size_of t = of_nat (fst t)"

definition asserts_hold :: "ctype \<Rightarrow> (string \<times> nat) list \<Rightarrow> asserts \<Rightarrow> bool" where
  "asserts_hold t offs as =
     (case as of (sz, al, fos) \<Rightarrow>
        fst t = sz \<and> snd t = al \<and> list_all (\<lambda>(f, o1). map_of offs f = Some o1) fos)"

section \<open>The types\<close>

definition sigset_fields :: "(string \<times> ctype) list" where
  "sigset_fields = [(''__val'', arr 16 b8)]"

definition sigset_t :: ctype where
  "sigset_t = struct_of sigset_fields"

definition sigset_asserts :: asserts where
  "sigset_asserts = (128, 8, [(''__val'', 0)])"

definition arraylist_fields :: "(string \<times> ctype) list" where
  "arraylist_fields = [(''len'', b8), (''max'', b8), (''items'', ptr), (''_space'', arr 29 ptr)]"

definition arraylist_t :: ctype where
  "arraylist_t = struct_of arraylist_fields"

definition arraylist_asserts :: asserts where
  "arraylist_asserts = (256, 8, [(''len'', 0), (''max'', 8), (''items'', 16), (''_space'', 24)])"

definition small_arraylist_fields :: "(string \<times> ctype) list" where
  "small_arraylist_fields = [(''len'', b8), (''max'', b8), (''items'', ptr),
     (''_space'', arr 5 ptr)]"

definition small_arraylist_t :: ctype where
  "small_arraylist_t = struct_of small_arraylist_fields"

definition small_arraylist_asserts :: asserts where
  "small_arraylist_asserts = (64, 8, [(''len'', 0), (''max'', 8), (''items'', 16),
     (''_space'', 24)])"

definition jmp_buf_tag_fields :: "(string \<times> ctype) list" where
  "jmp_buf_tag_fields = [(''__jmpbuf'', arr 8 b8), (''__mask_was_saved'', b4),
     (''__saved_mask'', sigset_t)]"

definition jmp_buf_tag_t :: ctype where
  "jmp_buf_tag_t = struct_of jmp_buf_tag_fields"

definition jmp_buf_tag_asserts :: asserts where
  "jmp_buf_tag_asserts = (200, 8, [(''__jmpbuf'', 0), (''__mask_was_saved'', 64),
     (''__saved_mask'', 72)])"

definition MMTkMutatorContext_fields :: "(string \<times> ctype) list" where
  "MMTkMutatorContext_fields = [(''_bindgen_opaque_blob'', arr 98 b8)]"

definition MMTkMutatorContext_t :: ctype where
  "MMTkMutatorContext_t = aligned 8 (struct_of MMTkMutatorContext_fields)"

definition MMTkMutatorContext_asserts :: asserts where
  "MMTkMutatorContext_asserts = (784, 8, [])"

definition jl_gc_tls_states_fields :: "(string \<times> ctype) list" where
  "jl_gc_tls_states_fields = [(''mmtk_mutator'', MMTkMutatorContext_t),
     (''malloc_sz_since_last_poll'', b8)]"

definition jl_gc_tls_states_t :: ctype where
  "jl_gc_tls_states_t = struct_of jl_gc_tls_states_fields"

definition jl_gc_tls_states_asserts :: asserts where
  "jl_gc_tls_states_asserts = (792, 8, [(''mmtk_mutator'', 0),
     (''malloc_sz_since_last_poll'', 784)])"

definition jl_thread_heap_common_fields :: "(string \<times> ctype) list" where
  "jl_thread_heap_common_fields = [(''weak_refs'', small_arraylist_t),
     (''live_tasks'', small_arraylist_t), (''mallocarrays'', small_arraylist_t),
     (''free_stacks'', arr 16 small_arraylist_t)]"

definition jl_thread_heap_common_t :: ctype where
  "jl_thread_heap_common_t = struct_of jl_thread_heap_common_fields"

definition jl_thread_heap_common_asserts :: asserts where
  "jl_thread_heap_common_asserts = (1216, 8, [(''weak_refs'', 0), (''live_tasks'', 64),
     (''mallocarrays'', 128), (''free_stacks'', 192)])"

definition jl_thread_gc_num_common_fields :: "(string \<times> ctype) list" where
  "jl_thread_gc_num_common_fields = [(''allocd'', b8), (''pool_live_bytes'', b8),
     (''malloc'', b8), (''realloc'', b8), (''poolalloc'', b8), (''bigalloc'', b8),
     (''free_acc'', b8), (''alloc_acc'', b8)]"

definition jl_thread_gc_num_common_t :: ctype where
  "jl_thread_gc_num_common_t = struct_of jl_thread_gc_num_common_fields"

definition jl_thread_gc_num_common_asserts :: asserts where
  "jl_thread_gc_num_common_asserts = (64, 8, [(''allocd'', 0), (''pool_live_bytes'', 8),
     (''malloc'', 16), (''realloc'', 24), (''poolalloc'', 32), (''bigalloc'', 40),
     (''free_acc'', 48), (''alloc_acc'', 56)])"

definition jl_gc_tls_states_common_fields :: "(string \<times> ctype) list" where
  "jl_gc_tls_states_common_fields = [(''heap'', jl_thread_heap_common_t),
     (''gc_num'', jl_thread_gc_num_common_t)]"

definition jl_gc_tls_states_common_t :: ctype where
  "jl_gc_tls_states_common_t = struct_of jl_gc_tls_states_common_fields"

definition jl_gc_tls_states_common_asserts :: asserts where
  "jl_gc_tls_states_common_asserts = (1280, 8, [(''heap'', 0), (''gc_num'', 1216)])"

definition jl_stack_context_fields :: "(string \<times> ctype) list" where
  "jl_stack_context_fields = [(''uc_mcontext'', arr 1 jmp_buf_tag_t)]"

definition jl_stack_context_t :: ctype where
  "jl_stack_context_t = struct_of jl_stack_context_fields"

definition jl_stack_context_asserts :: asserts where
  "jl_stack_context_asserts = (200, 8, [(''uc_mcontext'', 0)])"

definition jl_ucontext_anon_fields :: "(string \<times> ctype) list" where
  "jl_ucontext_anon_fields = [(''ctx'', ptr), (''copy_ctx'', ptr)]"

definition jl_ucontext_anon_t :: ctype where
  "jl_ucontext_anon_t = union_of jl_ucontext_anon_fields"

definition jl_ucontext_anon_asserts :: asserts where
  "jl_ucontext_anon_asserts = (8, 8, [(''ctx'', 0), (''copy_ctx'', 0)])"

definition jl_ucontext_fields :: "(string \<times> ctype) list" where
  "jl_ucontext_fields = [(''__bindgen_anon_1'', jl_ucontext_anon_t), (''stkbuf'', ptr),
     (''bufsz'', b8), (''_bitfield_align_1'', arr 0 b4), (''_bitfield_1'', arr 4 b1),
     (''__bindgen_padding_0'', b4)]"

definition jl_ucontext_t :: ctype where
  "jl_ucontext_t = struct_of jl_ucontext_fields"

definition jl_ucontext_asserts :: asserts where
  "jl_ucontext_asserts = (32, 8, [(''stkbuf'', 8), (''bufsz'', 16)])"

definition jl_mutex_fields :: "(string \<times> ctype) list" where
  "jl_mutex_fields = [(''owner'', b8), (''count'', b4)]"

definition jl_mutex_t :: ctype where
  "jl_mutex_t = struct_of jl_mutex_fields"

definition jl_mutex_asserts :: asserts where
  "jl_mutex_asserts = (16, 8, [(''owner'', 0), (''count'', 8)])"

definition jl_tls_states_fields :: "(string \<times> ctype) list" where
  "jl_tls_states_fields = [(''tid'', b2), (''threadpoolid'', b1), (''rngseed'', b8),
     (''safepoint'', b8), (''sleep_check_state'', b1), (''gc_state'', b1),
     (''in_pure_callback'', b2), (''in_finalizer'', b2), (''disable_gc'', b2),
     (''finalizers_inhibited'', b4), (''gc_tls'', jl_gc_tls_states_t),
     (''gc_tls_common'', jl_gc_tls_states_common_t),
     (''lazily_freed_mtarraylist_buffers'', small_arraylist_t), (''defer_signal'', b4),
     (''current_task'', b8), (''next_task'', ptr), (''previous_task'', ptr), (''root_task'', ptr),
     (''timing_stack'', ptr), (''stackbase'', ptr), (''stacksize'', b8), (''sig_exception'', ptr),
     (''bt_data'', ptr), (''bt_size'', b8), (''profiling_bt_buffer'', ptr),
     (''signal_request'', b4), (''io_wait'', b4), (''signal_stack'', ptr),
     (''signal_stack_size'', b8), (''signal_ctx_pc'', b8), (''signal_ctx_sp'', b8),
     (''signal_ctx_fptr'', ptr), (''signal_ctx_arg'', b8), (''system_id'', b8),
     (''suspend_count'', b2), (''finalizers'', arraylist_t), (''previous_exception'', ptr),
     (''locks'', small_arraylist_t), (''engine_nqueued'', b8)]"

definition jl_tls_states_t :: ctype where
  "jl_tls_states_t = struct_of jl_tls_states_fields"

definition jl_tls_states_asserts :: asserts where
  "jl_tls_states_asserts = (2680, 8, [(''tid'', 0), (''threadpoolid'', 2), (''rngseed'', 8),
     (''safepoint'', 16), (''sleep_check_state'', 24), (''gc_state'', 25),
     (''in_pure_callback'', 26), (''in_finalizer'', 28), (''disable_gc'', 30),
     (''finalizers_inhibited'', 32), (''gc_tls'', 40), (''gc_tls_common'', 832),
     (''lazily_freed_mtarraylist_buffers'', 2112), (''defer_signal'', 2176),
     (''current_task'', 2184), (''next_task'', 2192), (''previous_task'', 2200),
     (''root_task'', 2208), (''timing_stack'', 2216), (''stackbase'', 2224),
     (''stacksize'', 2232), (''sig_exception'', 2240), (''bt_data'', 2248), (''bt_size'', 2256),
     (''profiling_bt_buffer'', 2264), (''signal_request'', 2272), (''io_wait'', 2276),
     (''signal_stack'', 2280), (''signal_stack_size'', 2288), (''signal_ctx_pc'', 2296),
     (''signal_ctx_sp'', 2304), (''signal_ctx_fptr'', 2312), (''signal_ctx_arg'', 2320),
     (''system_id'', 2328), (''suspend_count'', 2336), (''finalizers'', 2344),
     (''previous_exception'', 2600), (''locks'', 2608), (''engine_nqueued'', 2672)])"

definition jl_task_fields :: "(string \<times> ctype) list" where
  "jl_task_fields = [(''next'', ptr), (''queue'', ptr), (''tls'', ptr), (''donenotify'', ptr),
     (''result'', ptr), (''scope'', ptr), (''start'', ptr), (''_state'', b1), (''sticky'', b1),
     (''priority'', b2), (''_isexception'', b1), (''pad0'', arr 3 b1), (''rngState'', arr 5 b8),
     (''metrics_enabled'', b1), (''pad1'', arr 3 b1), (''first_enqueued_at'', b8),
     (''last_started_running_at'', b8), (''running_time_ns'', b8), (''finished_at'', b8),
     (''tid'', b2), (''threadpoolid'', b1), (''reentrant_timing'', b1), (''gcstack'', ptr),
     (''world_age'', b8), (''ptls'', ptr), (''excstack'', ptr), (''eh'', ptr),
     (''ctx'', jl_ucontext_t)]"

definition jl_task_t :: ctype where
  "jl_task_t = struct_of jl_task_fields"

definition jl_task_asserts :: asserts where
  "jl_task_asserts = (224, 8, [(''next'', 0), (''queue'', 8), (''tls'', 16), (''donenotify'', 24),
     (''result'', 32), (''scope'', 40), (''start'', 48), (''_state'', 56), (''sticky'', 57),
     (''priority'', 58), (''_isexception'', 60), (''pad0'', 61), (''rngState'', 64),
     (''metrics_enabled'', 104), (''pad1'', 105), (''first_enqueued_at'', 112),
     (''last_started_running_at'', 120), (''running_time_ns'', 128), (''finished_at'', 136),
     (''tid'', 144), (''threadpoolid'', 146), (''reentrant_timing'', 147), (''gcstack'', 152),
     (''world_age'', 160), (''ptls'', 168), (''excstack'', 176), (''eh'', 184), (''ctx'', 192)])"

definition jl_taggedvalue_bits_fields :: "(string \<times> ctype) list" where
  "jl_taggedvalue_bits_fields = [(''_bitfield_align_1'', arr 0 b8), (''_bitfield_1'', arr 8 b1)]"

definition jl_taggedvalue_bits_t :: ctype where
  "jl_taggedvalue_bits_t = struct_of jl_taggedvalue_bits_fields"

definition jl_taggedvalue_bits_asserts :: asserts where
  "jl_taggedvalue_bits_asserts = (8, 8, [])"

definition jl_taggedvalue_anon_fields :: "(string \<times> ctype) list" where
  "jl_taggedvalue_anon_fields = [(''header'', b8), (''next'', ptr), (''type_'', ptr),
     (''bits'', jl_taggedvalue_bits_t)]"

definition jl_taggedvalue_anon_t :: ctype where
  "jl_taggedvalue_anon_t = union_of jl_taggedvalue_anon_fields"

definition jl_taggedvalue_anon_asserts :: asserts where
  "jl_taggedvalue_anon_asserts = (8, 8, [(''header'', 0), (''next'', 0), (''type_'', 0),
     (''bits'', 0)])"

definition jl_taggedvalue_fields :: "(string \<times> ctype) list" where
  "jl_taggedvalue_fields = [(''__bindgen_anon_1'', jl_taggedvalue_anon_t)]"

definition jl_taggedvalue_t :: ctype where
  "jl_taggedvalue_t = struct_of jl_taggedvalue_fields"

definition jl_taggedvalue_asserts :: asserts where
  "jl_taggedvalue_asserts = (8, 8, [])"

definition jl_sym_fields :: "(string \<times> ctype) list" where
  "jl_sym_fields = [(''left'', b8), (''right'', b8), (''hash'', b8)]"

definition jl_sym_t :: ctype where
  "jl_sym_t = struct_of jl_sym_fields"

definition jl_sym_asserts :: asserts where
  "jl_sym_asserts = (24, 8, [(''left'', 0), (''right'', 8), (''hash'', 16)])"

definition jl_svec_fields :: "(string \<times> ctype) list" where
  "jl_svec_fields = [(''length'', b8)]"

definition jl_svec_t :: ctype where
  "jl_svec_t = struct_of jl_svec_fields"

definition jl_svec_asserts :: asserts where
  "jl_svec_asserts = (8, 8, [(''length'', 0)])"

definition jl_genericmemory_fields :: "(string \<times> ctype) list" where
  "jl_genericmemory_fields = [(''length'', b8), (''ptr'', ptr)]"

definition jl_genericmemory_t :: ctype where
  "jl_genericmemory_t = struct_of jl_genericmemory_fields"

definition jl_genericmemory_asserts :: asserts where
  "jl_genericmemory_asserts = (16, 8, [(''length'', 0), (''ptr'', 8)])"

definition jl_genericmemoryref_fields :: "(string \<times> ctype) list" where
  "jl_genericmemoryref_fields = [(''ptr_or_offset'', ptr), (''mem'', ptr)]"

definition jl_genericmemoryref_t :: ctype where
  "jl_genericmemoryref_t = struct_of jl_genericmemoryref_fields"

definition jl_genericmemoryref_asserts :: asserts where
  "jl_genericmemoryref_asserts = (16, 8, [(''ptr_or_offset'', 0), (''mem'', 8)])"

definition jl_array_fields :: "(string \<times> ctype) list" where
  "jl_array_fields = [(''ref_'', jl_genericmemoryref_t), (''dimsize'', arr 0 b8)]"

definition jl_array_t :: ctype where
  "jl_array_t = struct_of jl_array_fields"

definition jl_array_asserts :: asserts where
  "jl_array_asserts = (16, 8, [(''ref_'', 0), (''dimsize'', 16)])"

definition jl_typename_fields :: "(string \<times> ctype) list" where
  "jl_typename_fields = [(''name'', ptr), (''module'', ptr), (''singletonname'', ptr),
     (''names'', ptr), (''atomicfields'', ptr), (''constfields'', ptr), (''wrapper'', ptr),
     (''Typeofwrapper'', b8), (''cache'', b8), (''linearcache'', b8), (''partial'', ptr),
     (''hash'', b8), (''max_args'', b4), (''n_uninitialized'', b4),
     (''_bitfield_align_1'', arr 0 b1), (''_bitfield_1'', arr 1 b1), (''cache_entry_count'', b1),
     (''max_methods'', b1), (''constprop_heustic'', b1)]"

definition jl_typename_t :: ctype where
  "jl_typename_t = struct_of jl_typename_fields"

definition jl_typename_asserts :: asserts where
  "jl_typename_asserts = (112, 8, [(''name'', 0), (''module'', 8), (''singletonname'', 16),
     (''names'', 24), (''atomicfields'', 32), (''constfields'', 40), (''wrapper'', 48),
     (''Typeofwrapper'', 56), (''cache'', 64), (''linearcache'', 72), (''partial'', 80),
     (''hash'', 88), (''max_args'', 96), (''n_uninitialized'', 100), (''cache_entry_count'', 105),
     (''max_methods'', 106), (''constprop_heustic'', 107)])"

definition jl_datatype_layout_anon_fields :: "(string \<times> ctype) list" where
  "jl_datatype_layout_anon_fields = [(''_bitfield_align_1'', arr 0 b1),
     (''_bitfield_1'', arr 2 b1)]"

definition jl_datatype_layout_anon_t :: ctype where
  "jl_datatype_layout_anon_t = aligned 2 (struct_of jl_datatype_layout_anon_fields)"

definition jl_datatype_layout_anon_asserts :: asserts where
  "jl_datatype_layout_anon_asserts = (2, 2, [])"

definition jl_datatype_layout_fields :: "(string \<times> ctype) list" where
  "jl_datatype_layout_fields = [(''size'', b4), (''nfields'', b4), (''npointers'', b4),
     (''first_ptr'', b4), (''alignment'', b2), (''flags'', jl_datatype_layout_anon_t)]"

definition jl_datatype_layout_t :: ctype where
  "jl_datatype_layout_t = struct_of jl_datatype_layout_fields"

definition jl_datatype_layout_asserts :: asserts where
  "jl_datatype_layout_asserts = (20, 4, [(''size'', 0), (''nfields'', 4), (''npointers'', 8),
     (''first_ptr'', 12), (''alignment'', 16), (''flags'', 18)])"

definition jl_datatype_fields :: "(string \<times> ctype) list" where
  "jl_datatype_fields = [(''name'', ptr), (''super_'', ptr), (''parameters'', ptr),
     (''types'', ptr), (''instance'', ptr), (''layout'', ptr), (''hash'', b4),
     (''_bitfield_align_1'', arr 0 b1), (''_bitfield_1'', arr 2 b1), (''__bindgen_padding_0'', b2)]"

definition jl_datatype_t :: ctype where
  "jl_datatype_t = struct_of jl_datatype_fields"

definition jl_datatype_asserts :: asserts where
  "jl_datatype_asserts = (56, 8, [(''name'', 0), (''super_'', 8), (''parameters'', 16),
     (''types'', 24), (''instance'', 32), (''layout'', 40), (''hash'', 48)])"

definition jl_weakref_fields :: "(string \<times> ctype) list" where
  "jl_weakref_fields = [(''value'', ptr)]"

definition jl_weakref_t :: ctype where
  "jl_weakref_t = struct_of jl_weakref_fields"

definition jl_weakref_asserts :: asserts where
  "jl_weakref_asserts = (8, 8, [(''value'', 0)])"

definition jl_binding_partition_fields :: "(string \<times> ctype) list" where
  "jl_binding_partition_fields = [(''restriction'', ptr), (''min_world'', b8),
     (''max_world'', b8), (''next'', b8), (''kind'', b8)]"

definition jl_binding_partition_t :: ctype where
  "jl_binding_partition_t = struct_of jl_binding_partition_fields"

definition jl_binding_partition_asserts :: asserts where
  "jl_binding_partition_asserts = (40, 8, [(''restriction'', 0), (''min_world'', 8),
     (''max_world'', 16), (''next'', 24), (''kind'', 32)])"

definition jl_uuid_fields :: "(string \<times> ctype) list" where
  "jl_uuid_fields = [(''hi'', b8), (''lo'', b8)]"

definition jl_uuid_t :: ctype where
  "jl_uuid_t = struct_of jl_uuid_fields"

definition jl_uuid_asserts :: asserts where
  "jl_uuid_asserts = (16, 8, [(''hi'', 0), (''lo'', 8)])"

definition jl_module_fields :: "(string \<times> ctype) list" where
  "jl_module_fields = [(''name'', ptr), (''parent'', ptr), (''bindings'', b8),
     (''bindingkeyset'', b8), (''file'', ptr), (''line'', b4), (''usings_backedges'', ptr),
     (''scanned_methods'', ptr), (''usings'', arraylist_t), (''build_id'', jl_uuid_t),
     (''uuid'', jl_uuid_t), (''counter'', b4), (''nospecialize'', b4), (''optlevel'', b1),
     (''compile'', b1), (''infer'', b1), (''istopmod'', b1), (''max_methods'', b1),
     (''export_set_changed_since_require_world'', b1), (''has_reexports'', b1),
     (''lock'', jl_mutex_t), (''hash'', b8)]"

definition jl_module_t :: ctype where
  "jl_module_t = struct_of jl_module_fields"

definition jl_module_asserts :: asserts where
  "jl_module_asserts = (392, 8, [(''name'', 0), (''parent'', 8), (''bindings'', 16),
     (''bindingkeyset'', 24), (''file'', 32), (''line'', 40), (''usings_backedges'', 48),
     (''scanned_methods'', 56), (''usings'', 64), (''build_id'', 320), (''uuid'', 336),
     (''counter'', 352), (''nospecialize'', 356), (''optlevel'', 360), (''compile'', 361),
     (''infer'', 362), (''istopmod'', 363), (''max_methods'', 364),
     (''export_set_changed_since_require_world'', 365), (''has_reexports'', 366), (''lock'', 368),
     (''hash'', 384)])"

definition jl_gcframe_fields :: "(string \<times> ctype) list" where
  "jl_gcframe_fields = [(''nroots'', b8), (''prev'', ptr)]"

definition jl_gcframe_t :: ctype where
  "jl_gcframe_t = struct_of jl_gcframe_fields"

definition jl_gcframe_asserts :: asserts where
  "jl_gcframe_asserts = (16, 8, [(''nroots'', 0), (''prev'', 8)])"

definition jl_handler_fields :: "(string \<times> ctype) list" where
  "jl_handler_fields = [(''eh_ctx'', arr 1 jmp_buf_tag_t), (''gcstack'', ptr), (''scope'', ptr),
     (''prev'', ptr), (''locks_len'', b8), (''timing_stack'', ptr), (''world_age'', b8),
     (''defer_signal'', b4), (''gc_state'', b1)]"

definition jl_handler_t :: ctype where
  "jl_handler_t = struct_of jl_handler_fields"

definition jl_handler_asserts :: asserts where
  "jl_handler_asserts = (256, 8, [(''eh_ctx'', 0), (''gcstack'', 200), (''scope'', 208),
     (''prev'', 216), (''locks_len'', 224), (''timing_stack'', 232), (''world_age'', 240),
     (''defer_signal'', 248), (''gc_state'', 252)])"

definition jl_bt_element_anon_fields :: "(string \<times> ctype) list" where
  "jl_bt_element_anon_fields = [(''uintptr'', b8), (''jlvalue'', ptr)]"

definition jl_bt_element_anon_t :: ctype where
  "jl_bt_element_anon_t = union_of jl_bt_element_anon_fields"

definition jl_bt_element_anon_asserts :: asserts where
  "jl_bt_element_anon_asserts = (8, 8, [(''uintptr'', 0), (''jlvalue'', 0)])"

definition jl_bt_element_fields :: "(string \<times> ctype) list" where
  "jl_bt_element_fields = [(''__bindgen_anon_1'', jl_bt_element_anon_t)]"

definition jl_bt_element_t :: ctype where
  "jl_bt_element_t = struct_of jl_bt_element_fields"

definition jl_bt_element_asserts :: asserts where
  "jl_bt_element_asserts = (8, 8, [])"

definition jl_excstack_fields :: "(string \<times> ctype) list" where
  "jl_excstack_fields = [(''top'', b8), (''reserved_size'', b8)]"

definition jl_excstack_t :: ctype where
  "jl_excstack_t = struct_of jl_excstack_fields"

definition jl_excstack_asserts :: asserts where
  "jl_excstack_asserts = (16, 8, [(''top'', 0), (''reserved_size'', 8)])"

section \<open>The computed layouts\<close>

text \<open>Evaluation of the layout rule on each declaration, in the order of dependency.\<close>

named_theorems layout_eval "the layout computed for each type"

lemmas layout_rule = struct_of_def union_of_def aligned_def struct_offsets_def
  union_offsets_def arr_def round_up_def

lemma sigset_layout [layout_eval]:
  "sigset_t = (128, 8)"
  "struct_offsets sigset_fields = [(''__val'', 0)]"
  by (simp_all add: sigset_t_def sigset_fields_def layout_rule layout_eval
      del: One_nat_def)

lemma arraylist_layout [layout_eval]:
  "arraylist_t = (256, 8)"
  "struct_offsets arraylist_fields = [(''len'', 0), (''max'', 8), (''items'', 16),
     (''_space'', 24)]"
  by (simp_all add: arraylist_t_def arraylist_fields_def layout_rule layout_eval
      del: One_nat_def)

lemma small_arraylist_layout [layout_eval]:
  "small_arraylist_t = (64, 8)"
  "struct_offsets small_arraylist_fields = [(''len'', 0), (''max'', 8), (''items'', 16),
     (''_space'', 24)]"
  by (simp_all add: small_arraylist_t_def small_arraylist_fields_def layout_rule layout_eval
      del: One_nat_def)

lemma jmp_buf_tag_layout [layout_eval]:
  "jmp_buf_tag_t = (200, 8)"
  "struct_offsets jmp_buf_tag_fields = [(''__jmpbuf'', 0), (''__mask_was_saved'', 64),
     (''__saved_mask'', 72)]"
  by (simp_all add: jmp_buf_tag_t_def jmp_buf_tag_fields_def layout_rule layout_eval
      del: One_nat_def)

lemma MMTkMutatorContext_layout [layout_eval]:
  "MMTkMutatorContext_t = (784, 8)"
  "struct_offsets MMTkMutatorContext_fields = [(''_bindgen_opaque_blob'', 0)]"
  by (simp_all add: MMTkMutatorContext_t_def MMTkMutatorContext_fields_def layout_rule layout_eval
      del: One_nat_def)

lemma jl_gc_tls_states_layout [layout_eval]:
  "jl_gc_tls_states_t = (792, 8)"
  "struct_offsets jl_gc_tls_states_fields = [(''mmtk_mutator'', 0),
     (''malloc_sz_since_last_poll'', 784)]"
  by (simp_all add: jl_gc_tls_states_t_def jl_gc_tls_states_fields_def layout_rule layout_eval
      del: One_nat_def)

lemma jl_thread_heap_common_layout [layout_eval]:
  "jl_thread_heap_common_t = (1216, 8)"
  "struct_offsets jl_thread_heap_common_fields = [(''weak_refs'', 0), (''live_tasks'', 64),
     (''mallocarrays'', 128), (''free_stacks'', 192)]"
  by (simp_all add: jl_thread_heap_common_t_def jl_thread_heap_common_fields_def layout_rule layout_eval
      del: One_nat_def)

lemma jl_thread_gc_num_common_layout [layout_eval]:
  "jl_thread_gc_num_common_t = (64, 8)"
  "struct_offsets jl_thread_gc_num_common_fields = [(''allocd'', 0), (''pool_live_bytes'', 8),
     (''malloc'', 16), (''realloc'', 24), (''poolalloc'', 32), (''bigalloc'', 40),
     (''free_acc'', 48), (''alloc_acc'', 56)]"
  by (simp_all add: jl_thread_gc_num_common_t_def jl_thread_gc_num_common_fields_def layout_rule layout_eval
      del: One_nat_def)

lemma jl_gc_tls_states_common_layout [layout_eval]:
  "jl_gc_tls_states_common_t = (1280, 8)"
  "struct_offsets jl_gc_tls_states_common_fields = [(''heap'', 0), (''gc_num'', 1216)]"
  by (simp_all add: jl_gc_tls_states_common_t_def jl_gc_tls_states_common_fields_def layout_rule layout_eval
      del: One_nat_def)

lemma jl_stack_context_layout [layout_eval]:
  "jl_stack_context_t = (200, 8)"
  "struct_offsets jl_stack_context_fields = [(''uc_mcontext'', 0)]"
  by (simp_all add: jl_stack_context_t_def jl_stack_context_fields_def layout_rule layout_eval
      del: One_nat_def)

lemma jl_ucontext_anon_layout [layout_eval]:
  "jl_ucontext_anon_t = (8, 8)"
  "union_offsets jl_ucontext_anon_fields = [(''ctx'', 0), (''copy_ctx'', 0)]"
  by (simp_all add: jl_ucontext_anon_t_def jl_ucontext_anon_fields_def layout_rule layout_eval
      del: One_nat_def)

lemma jl_ucontext_layout [layout_eval]:
  "jl_ucontext_t = (32, 8)"
  "struct_offsets jl_ucontext_fields = [(''__bindgen_anon_1'', 0), (''stkbuf'', 8),
     (''bufsz'', 16), (''_bitfield_align_1'', 24), (''_bitfield_1'', 24),
     (''__bindgen_padding_0'', 28)]"
  by (simp_all add: jl_ucontext_t_def jl_ucontext_fields_def layout_rule layout_eval
      del: One_nat_def)

lemma jl_mutex_layout [layout_eval]:
  "jl_mutex_t = (16, 8)"
  "struct_offsets jl_mutex_fields = [(''owner'', 0), (''count'', 8)]"
  by (simp_all add: jl_mutex_t_def jl_mutex_fields_def layout_rule layout_eval
      del: One_nat_def)

lemma jl_tls_states_layout [layout_eval]:
  "jl_tls_states_t = (2680, 8)"
  "struct_offsets jl_tls_states_fields = [(''tid'', 0), (''threadpoolid'', 2), (''rngseed'', 8),
     (''safepoint'', 16), (''sleep_check_state'', 24), (''gc_state'', 25),
     (''in_pure_callback'', 26), (''in_finalizer'', 28), (''disable_gc'', 30),
     (''finalizers_inhibited'', 32), (''gc_tls'', 40), (''gc_tls_common'', 832),
     (''lazily_freed_mtarraylist_buffers'', 2112), (''defer_signal'', 2176),
     (''current_task'', 2184), (''next_task'', 2192), (''previous_task'', 2200),
     (''root_task'', 2208), (''timing_stack'', 2216), (''stackbase'', 2224),
     (''stacksize'', 2232), (''sig_exception'', 2240), (''bt_data'', 2248), (''bt_size'', 2256),
     (''profiling_bt_buffer'', 2264), (''signal_request'', 2272), (''io_wait'', 2276),
     (''signal_stack'', 2280), (''signal_stack_size'', 2288), (''signal_ctx_pc'', 2296),
     (''signal_ctx_sp'', 2304), (''signal_ctx_fptr'', 2312), (''signal_ctx_arg'', 2320),
     (''system_id'', 2328), (''suspend_count'', 2336), (''finalizers'', 2344),
     (''previous_exception'', 2600), (''locks'', 2608), (''engine_nqueued'', 2672)]"
  by (simp_all add: jl_tls_states_t_def jl_tls_states_fields_def layout_rule layout_eval
      del: One_nat_def)

lemma jl_task_layout [layout_eval]:
  "jl_task_t = (224, 8)"
  "struct_offsets jl_task_fields = [(''next'', 0), (''queue'', 8), (''tls'', 16),
     (''donenotify'', 24), (''result'', 32), (''scope'', 40), (''start'', 48), (''_state'', 56),
     (''sticky'', 57), (''priority'', 58), (''_isexception'', 60), (''pad0'', 61),
     (''rngState'', 64), (''metrics_enabled'', 104), (''pad1'', 105),
     (''first_enqueued_at'', 112), (''last_started_running_at'', 120), (''running_time_ns'', 128),
     (''finished_at'', 136), (''tid'', 144), (''threadpoolid'', 146), (''reentrant_timing'', 147),
     (''gcstack'', 152), (''world_age'', 160), (''ptls'', 168), (''excstack'', 176),
     (''eh'', 184), (''ctx'', 192)]"
  by (simp_all add: jl_task_t_def jl_task_fields_def layout_rule layout_eval
      del: One_nat_def)

lemma jl_taggedvalue_bits_layout [layout_eval]:
  "jl_taggedvalue_bits_t = (8, 8)"
  "struct_offsets jl_taggedvalue_bits_fields = [(''_bitfield_align_1'', 0), (''_bitfield_1'', 0)]"
  by (simp_all add: jl_taggedvalue_bits_t_def jl_taggedvalue_bits_fields_def layout_rule layout_eval
      del: One_nat_def)

lemma jl_taggedvalue_anon_layout [layout_eval]:
  "jl_taggedvalue_anon_t = (8, 8)"
  "union_offsets jl_taggedvalue_anon_fields = [(''header'', 0), (''next'', 0), (''type_'', 0),
     (''bits'', 0)]"
  by (simp_all add: jl_taggedvalue_anon_t_def jl_taggedvalue_anon_fields_def layout_rule layout_eval
      del: One_nat_def)

lemma jl_taggedvalue_layout [layout_eval]:
  "jl_taggedvalue_t = (8, 8)"
  "struct_offsets jl_taggedvalue_fields = [(''__bindgen_anon_1'', 0)]"
  by (simp_all add: jl_taggedvalue_t_def jl_taggedvalue_fields_def layout_rule layout_eval
      del: One_nat_def)

lemma jl_sym_layout [layout_eval]:
  "jl_sym_t = (24, 8)"
  "struct_offsets jl_sym_fields = [(''left'', 0), (''right'', 8), (''hash'', 16)]"
  by (simp_all add: jl_sym_t_def jl_sym_fields_def layout_rule layout_eval
      del: One_nat_def)

lemma jl_svec_layout [layout_eval]:
  "jl_svec_t = (8, 8)"
  "struct_offsets jl_svec_fields = [(''length'', 0)]"
  by (simp_all add: jl_svec_t_def jl_svec_fields_def layout_rule layout_eval
      del: One_nat_def)

lemma jl_genericmemory_layout [layout_eval]:
  "jl_genericmemory_t = (16, 8)"
  "struct_offsets jl_genericmemory_fields = [(''length'', 0), (''ptr'', 8)]"
  by (simp_all add: jl_genericmemory_t_def jl_genericmemory_fields_def layout_rule layout_eval
      del: One_nat_def)

lemma jl_genericmemoryref_layout [layout_eval]:
  "jl_genericmemoryref_t = (16, 8)"
  "struct_offsets jl_genericmemoryref_fields = [(''ptr_or_offset'', 0), (''mem'', 8)]"
  by (simp_all add: jl_genericmemoryref_t_def jl_genericmemoryref_fields_def layout_rule layout_eval
      del: One_nat_def)

lemma jl_array_layout [layout_eval]:
  "jl_array_t = (16, 8)"
  "struct_offsets jl_array_fields = [(''ref_'', 0), (''dimsize'', 16)]"
  by (simp_all add: jl_array_t_def jl_array_fields_def layout_rule layout_eval
      del: One_nat_def)

lemma jl_typename_layout [layout_eval]:
  "jl_typename_t = (112, 8)"
  "struct_offsets jl_typename_fields = [(''name'', 0), (''module'', 8), (''singletonname'', 16),
     (''names'', 24), (''atomicfields'', 32), (''constfields'', 40), (''wrapper'', 48),
     (''Typeofwrapper'', 56), (''cache'', 64), (''linearcache'', 72), (''partial'', 80),
     (''hash'', 88), (''max_args'', 96), (''n_uninitialized'', 100), (''_bitfield_align_1'', 104),
     (''_bitfield_1'', 104), (''cache_entry_count'', 105), (''max_methods'', 106),
     (''constprop_heustic'', 107)]"
  by (simp_all add: jl_typename_t_def jl_typename_fields_def layout_rule layout_eval
      del: One_nat_def)

lemma jl_datatype_layout_anon_layout [layout_eval]:
  "jl_datatype_layout_anon_t = (2, 2)"
  "struct_offsets jl_datatype_layout_anon_fields = [(''_bitfield_align_1'', 0),
     (''_bitfield_1'', 0)]"
  by (simp_all add: jl_datatype_layout_anon_t_def jl_datatype_layout_anon_fields_def layout_rule layout_eval
      del: One_nat_def)

lemma jl_datatype_layout_layout [layout_eval]:
  "jl_datatype_layout_t = (20, 4)"
  "struct_offsets jl_datatype_layout_fields = [(''size'', 0), (''nfields'', 4),
     (''npointers'', 8), (''first_ptr'', 12), (''alignment'', 16), (''flags'', 18)]"
  by (simp_all add: jl_datatype_layout_t_def jl_datatype_layout_fields_def layout_rule layout_eval
      del: One_nat_def)

lemma jl_datatype_layout [layout_eval]:
  "jl_datatype_t = (56, 8)"
  "struct_offsets jl_datatype_fields = [(''name'', 0), (''super_'', 8), (''parameters'', 16),
     (''types'', 24), (''instance'', 32), (''layout'', 40), (''hash'', 48),
     (''_bitfield_align_1'', 52), (''_bitfield_1'', 52), (''__bindgen_padding_0'', 54)]"
  by (simp_all add: jl_datatype_t_def jl_datatype_fields_def layout_rule layout_eval
      del: One_nat_def)

lemma jl_weakref_layout [layout_eval]:
  "jl_weakref_t = (8, 8)"
  "struct_offsets jl_weakref_fields = [(''value'', 0)]"
  by (simp_all add: jl_weakref_t_def jl_weakref_fields_def layout_rule layout_eval
      del: One_nat_def)

lemma jl_binding_partition_layout [layout_eval]:
  "jl_binding_partition_t = (40, 8)"
  "struct_offsets jl_binding_partition_fields = [(''restriction'', 0), (''min_world'', 8),
     (''max_world'', 16), (''next'', 24), (''kind'', 32)]"
  by (simp_all add: jl_binding_partition_t_def jl_binding_partition_fields_def layout_rule layout_eval
      del: One_nat_def)

lemma jl_uuid_layout [layout_eval]:
  "jl_uuid_t = (16, 8)"
  "struct_offsets jl_uuid_fields = [(''hi'', 0), (''lo'', 8)]"
  by (simp_all add: jl_uuid_t_def jl_uuid_fields_def layout_rule layout_eval
      del: One_nat_def)

lemma jl_module_layout [layout_eval]:
  "jl_module_t = (392, 8)"
  "struct_offsets jl_module_fields = [(''name'', 0), (''parent'', 8), (''bindings'', 16),
     (''bindingkeyset'', 24), (''file'', 32), (''line'', 40), (''usings_backedges'', 48),
     (''scanned_methods'', 56), (''usings'', 64), (''build_id'', 320), (''uuid'', 336),
     (''counter'', 352), (''nospecialize'', 356), (''optlevel'', 360), (''compile'', 361),
     (''infer'', 362), (''istopmod'', 363), (''max_methods'', 364),
     (''export_set_changed_since_require_world'', 365), (''has_reexports'', 366), (''lock'', 368),
     (''hash'', 384)]"
  by (simp_all add: jl_module_t_def jl_module_fields_def layout_rule layout_eval
      del: One_nat_def)

lemma jl_gcframe_layout [layout_eval]:
  "jl_gcframe_t = (16, 8)"
  "struct_offsets jl_gcframe_fields = [(''nroots'', 0), (''prev'', 8)]"
  by (simp_all add: jl_gcframe_t_def jl_gcframe_fields_def layout_rule layout_eval
      del: One_nat_def)

lemma jl_handler_layout [layout_eval]:
  "jl_handler_t = (256, 8)"
  "struct_offsets jl_handler_fields = [(''eh_ctx'', 0), (''gcstack'', 200), (''scope'', 208),
     (''prev'', 216), (''locks_len'', 224), (''timing_stack'', 232), (''world_age'', 240),
     (''defer_signal'', 248), (''gc_state'', 252)]"
  by (simp_all add: jl_handler_t_def jl_handler_fields_def layout_rule layout_eval
      del: One_nat_def)

lemma jl_bt_element_anon_layout [layout_eval]:
  "jl_bt_element_anon_t = (8, 8)"
  "union_offsets jl_bt_element_anon_fields = [(''uintptr'', 0), (''jlvalue'', 0)]"
  by (simp_all add: jl_bt_element_anon_t_def jl_bt_element_anon_fields_def layout_rule layout_eval
      del: One_nat_def)

lemma jl_bt_element_layout [layout_eval]:
  "jl_bt_element_t = (8, 8)"
  "struct_offsets jl_bt_element_fields = [(''__bindgen_anon_1'', 0)]"
  by (simp_all add: jl_bt_element_t_def jl_bt_element_fields_def layout_rule layout_eval
      del: One_nat_def)

lemma jl_excstack_layout [layout_eval]:
  "jl_excstack_t = (16, 8)"
  "struct_offsets jl_excstack_fields = [(''top'', 0), (''reserved_size'', 8)]"
  by (simp_all add: jl_excstack_t_def jl_excstack_fields_def layout_rule layout_eval
      del: One_nat_def)

section \<open>The assertions\<close>

definition ffi_structs :: "(ctype \<times> (string \<times> nat) list \<times> asserts) list" where
  "ffi_structs = [
     (sigset_t, struct_offsets sigset_fields, sigset_asserts),
     (arraylist_t, struct_offsets arraylist_fields, arraylist_asserts),
     (small_arraylist_t, struct_offsets small_arraylist_fields, small_arraylist_asserts),
     (jmp_buf_tag_t, struct_offsets jmp_buf_tag_fields, jmp_buf_tag_asserts),
     (MMTkMutatorContext_t, struct_offsets MMTkMutatorContext_fields, MMTkMutatorContext_asserts),
     (jl_gc_tls_states_t, struct_offsets jl_gc_tls_states_fields, jl_gc_tls_states_asserts),
     (jl_thread_heap_common_t, struct_offsets jl_thread_heap_common_fields, jl_thread_heap_common_asserts),
     (jl_thread_gc_num_common_t, struct_offsets jl_thread_gc_num_common_fields, jl_thread_gc_num_common_asserts),
     (jl_gc_tls_states_common_t, struct_offsets jl_gc_tls_states_common_fields, jl_gc_tls_states_common_asserts),
     (jl_stack_context_t, struct_offsets jl_stack_context_fields, jl_stack_context_asserts),
     (jl_ucontext_anon_t, union_offsets jl_ucontext_anon_fields, jl_ucontext_anon_asserts),
     (jl_ucontext_t, struct_offsets jl_ucontext_fields, jl_ucontext_asserts),
     (jl_mutex_t, struct_offsets jl_mutex_fields, jl_mutex_asserts),
     (jl_tls_states_t, struct_offsets jl_tls_states_fields, jl_tls_states_asserts),
     (jl_task_t, struct_offsets jl_task_fields, jl_task_asserts),
     (jl_taggedvalue_bits_t, struct_offsets jl_taggedvalue_bits_fields, jl_taggedvalue_bits_asserts),
     (jl_taggedvalue_anon_t, union_offsets jl_taggedvalue_anon_fields, jl_taggedvalue_anon_asserts),
     (jl_taggedvalue_t, struct_offsets jl_taggedvalue_fields, jl_taggedvalue_asserts),
     (jl_sym_t, struct_offsets jl_sym_fields, jl_sym_asserts),
     (jl_svec_t, struct_offsets jl_svec_fields, jl_svec_asserts),
     (jl_genericmemory_t, struct_offsets jl_genericmemory_fields, jl_genericmemory_asserts),
     (jl_genericmemoryref_t, struct_offsets jl_genericmemoryref_fields, jl_genericmemoryref_asserts),
     (jl_array_t, struct_offsets jl_array_fields, jl_array_asserts),
     (jl_typename_t, struct_offsets jl_typename_fields, jl_typename_asserts),
     (jl_datatype_layout_anon_t, struct_offsets jl_datatype_layout_anon_fields, jl_datatype_layout_anon_asserts),
     (jl_datatype_layout_t, struct_offsets jl_datatype_layout_fields, jl_datatype_layout_asserts),
     (jl_datatype_t, struct_offsets jl_datatype_fields, jl_datatype_asserts),
     (jl_weakref_t, struct_offsets jl_weakref_fields, jl_weakref_asserts),
     (jl_binding_partition_t, struct_offsets jl_binding_partition_fields, jl_binding_partition_asserts),
     (jl_uuid_t, struct_offsets jl_uuid_fields, jl_uuid_asserts),
     (jl_module_t, struct_offsets jl_module_fields, jl_module_asserts),
     (jl_gcframe_t, struct_offsets jl_gcframe_fields, jl_gcframe_asserts),
     (jl_handler_t, struct_offsets jl_handler_fields, jl_handler_asserts),
     (jl_bt_element_anon_t, union_offsets jl_bt_element_anon_fields, jl_bt_element_anon_asserts),
     (jl_bt_element_t, struct_offsets jl_bt_element_fields, jl_bt_element_asserts),
     (jl_excstack_t, struct_offsets jl_excstack_fields, jl_excstack_asserts)]"

text \<open>
  A C++ atomic: a zero-sized marker and the value. The structs above have the value's type in its
  place, which the assertions of the instances of the template justify.
\<close>

definition std_atomic :: "ctype \<Rightarrow> ctype" where
  "std_atomic t = struct_of [(''_phantom_0'', (0, 1)), (''_M_i'', t)]"

definition std_atomic_asserts :: "(ctype \<times> nat \<times> nat) list" where
  "std_atomic_asserts =
     [(std_atomic b8, 8, 8), (std_atomic b8, 8, 8), (std_atomic b8, 8, 8),
     (std_atomic b8, 8, 8), (std_atomic b8, 8, 8), (std_atomic b8, 8, 8),
     (std_atomic b8, 8, 8), (std_atomic b8, 8, 8), (std_atomic b8, 8, 8),
     (std_atomic b1, 1, 1), (std_atomic b1, 1, 1)]"

definition std_atomic_asserts_rest :: "(ctype \<times> nat \<times> nat) list" where
  "std_atomic_asserts_rest =
     [(std_atomic b4, 4, 4), (std_atomic b2, 2, 2), (std_atomic b1, 1, 1),
     (std_atomic b1, 1, 1), (std_atomic b8, 8, 8), (std_atomic b8, 8, 8),
     (std_atomic b8, 8, 8), (std_atomic b8, 8, 8), (std_atomic b2, 2, 2),
     (std_atomic b4, 4, 4), (std_atomic b1, 1, 1), (std_atomic b8, 8, 8),
     (std_atomic b8, 8, 8), (std_atomic b4, 4, 4), (std_atomic b1, 1, 1),
     (std_atomic b1, 1, 1)]"

lemma std_atomic_value:
  "std_atomic b1 = b1" "std_atomic b2 = b2" "std_atomic b4 = b4" "std_atomic b8 = b8"
  by (simp_all add: std_atomic_def layout_rule layout_eval del: One_nat_def)

lemma std_atomic_asserts_hold:
  "list_all (\<lambda>(t, sz, al). t = (sz, al)) (std_atomic_asserts @ std_atomic_asserts_rest)"
  by (simp add: std_atomic_asserts_def std_atomic_asserts_rest_def std_atomic_value del: One_nat_def)

text \<open>
  For each of the structs and unions of \<^verbatim>\<open>julia_types.rs\<close>, the size, alignment and field offsets
  that bindgen asserts are those the C layout rule computes from the declaration, and so are the
  size and alignment of the instances of \<^verbatim>\<open>std_atomic\<close>.
\<close>

theorem ffi_layouts_hold:
  "list_all (\<lambda>(t, offs, as). asserts_hold t offs as) ffi_structs
    \<and> list_all (\<lambda>(t, sz, al). t = (sz, al)) (std_atomic_asserts @ std_atomic_asserts_rest)"
proof (rule conjI [OF _ std_atomic_asserts_hold])
  show "list_all (\<lambda>(t, offs, as). asserts_hold t offs as) ffi_structs"
    by (simp add: ffi_structs_def asserts_hold_def layout_eval
        sigset_asserts_def arraylist_asserts_def small_arraylist_asserts_def
       jmp_buf_tag_asserts_def MMTkMutatorContext_asserts_def jl_gc_tls_states_asserts_def
       jl_thread_heap_common_asserts_def jl_thread_gc_num_common_asserts_def
       jl_gc_tls_states_common_asserts_def jl_stack_context_asserts_def
       jl_ucontext_anon_asserts_def jl_ucontext_asserts_def jl_mutex_asserts_def
       jl_tls_states_asserts_def jl_task_asserts_def jl_taggedvalue_bits_asserts_def
       jl_taggedvalue_anon_asserts_def jl_taggedvalue_asserts_def jl_sym_asserts_def
       jl_svec_asserts_def jl_genericmemory_asserts_def jl_genericmemoryref_asserts_def
       jl_array_asserts_def jl_typename_asserts_def jl_datatype_layout_anon_asserts_def
       jl_datatype_layout_asserts_def jl_datatype_asserts_def jl_weakref_asserts_def
       jl_binding_partition_asserts_def jl_uuid_asserts_def jl_module_asserts_def
       jl_gcframe_asserts_def jl_handler_asserts_def jl_bt_element_anon_asserts_def
       jl_bt_element_asserts_def jl_excstack_asserts_def)
qed

section \<open>Offsets and sizes the collector uses\<close>

lemma layout_offsets [simp, size_simps]:
  "offset_of arraylist_fields ''len'' = 0"
  "offset_of arraylist_fields ''items'' = 16"
  "offset_of arraylist_fields ''_space'' = 24"
  "offset_of small_arraylist_fields ''len'' = 0"
  "offset_of small_arraylist_fields ''items'' = 16"
  "offset_of jl_gc_tls_states_common_fields ''heap'' = 0"
  "offset_of jl_thread_heap_common_fields ''live_tasks'' = 64"
  "offset_of jl_ucontext_fields ''stkbuf'' = 8"
  "offset_of jl_ucontext_fields ''_bitfield_1'' = 24"
  "offset_of jl_tls_states_fields ''gc_tls_common'' = 832"
  "offset_of jl_tls_states_fields ''current_task'' = 2184"
  "offset_of jl_tls_states_fields ''next_task'' = 2192"
  "offset_of jl_tls_states_fields ''previous_task'' = 2200"
  "offset_of jl_tls_states_fields ''root_task'' = 2208"
  "offset_of jl_tls_states_fields ''bt_data'' = 2248"
  "offset_of jl_tls_states_fields ''bt_size'' = 2256"
  "offset_of jl_tls_states_fields ''previous_exception'' = 2600"
  "offset_of jl_task_fields ''tid'' = 144"
  "offset_of jl_task_fields ''gcstack'' = 152"
  "offset_of jl_task_fields ''ptls'' = 168"
  "offset_of jl_task_fields ''excstack'' = 176"
  "offset_of jl_task_fields ''ctx'' = 192"
  "offset_of jl_svec_fields ''length'' = 0"
  "offset_of jl_genericmemory_fields ''length'' = 0"
  "offset_of jl_genericmemory_fields ''ptr'' = 8"
  "offset_of jl_genericmemoryref_fields ''ptr_or_offset'' = 0"
  "offset_of jl_genericmemoryref_fields ''mem'' = 8"
  "offset_of jl_array_fields ''ref_'' = 0"
  "offset_of jl_datatype_layout_fields ''size'' = 0"
  "offset_of jl_datatype_layout_fields ''nfields'' = 4"
  "offset_of jl_datatype_layout_fields ''npointers'' = 8"
  "offset_of jl_datatype_layout_fields ''first_ptr'' = 12"
  "offset_of jl_datatype_layout_fields ''flags'' = 18"
  "offset_of jl_datatype_fields ''name'' = 0"
  "offset_of jl_datatype_fields ''parameters'' = 16"
  "offset_of jl_datatype_fields ''layout'' = 40"
  "offset_of jl_datatype_fields ''_bitfield_1'' = 52"
  "offset_of jl_weakref_fields ''value'' = 0"
  "offset_of jl_module_fields ''parent'' = 8"
  "offset_of jl_module_fields ''bindings'' = 16"
  "offset_of jl_module_fields ''bindingkeyset'' = 24"
  "offset_of jl_module_fields ''usings_backedges'' = 48"
  "offset_of jl_module_fields ''scanned_methods'' = 56"
  "offset_of jl_module_fields ''usings'' = 64"
  "offset_of jl_gcframe_fields ''nroots'' = 0"
  "offset_of jl_gcframe_fields ''prev'' = 8"
  by (simp_all add: offset_of_def layout_eval)

lemma layout_sizes [simp, size_simps]:
  "size_of jl_taggedvalue_t = 8"
  "size_of jl_svec_t = 8"
  "size_of jl_module_t = 392"
  "size_of jl_task_t = 224"
  "size_of jl_genericmemory_t = 16"
  "size_of jl_datatype_layout_t = 20"
  "size_of jl_bt_element_t = 8"
  by (simp_all add: size_of_def layout_eval)

section \<open>Small type tags\<close>

datatype small_typeof_tag =
    Jl_null_tag | Jl_typeofbottom_tag | Jl_datatype_tag | Jl_unionall_tag
  | Jl_uniontype_tag | Jl_vararg_tag | Jl_tvar_tag | Jl_symbol_tag
  | Jl_module_tag | Jl_simplevector_tag | Jl_string_tag | Jl_task_tag
  | Jl_bool_tag | Jl_nothing_tag | Jl_char_tag | Jl_int16_tag
  | Jl_int32_tag | Jl_int64_tag | Jl_int8_tag | Jl_uint16_tag
  | Jl_uint32_tag | Jl_uint64_tag | Jl_uint8_tag | Jl_addrspacecore_tag
  | Jl_intrinsic_tag | Jl_argument_tag | Jl_slotnumber_tag | Jl_ssavalue_tag
  | Jl_gotoifnot_tag | Jl_returnnode_tag | Jl_enternode_tag | Jl_pinode_tag
  | Jl_phinode_tag | Jl_phicnode_tag | Jl_upsilonnode_tag | Jl_globalref_tag
  | Jl_gotonode_tag | Jl_quotenode_tag

primrec small_typeof_tags :: "small_typeof_tag \<Rightarrow> u32" where
  "small_typeof_tags Jl_null_tag = 0"
| "small_typeof_tags Jl_typeofbottom_tag = 1"
| "small_typeof_tags Jl_datatype_tag = 2"
| "small_typeof_tags Jl_unionall_tag = 3"
| "small_typeof_tags Jl_uniontype_tag = 4"
| "small_typeof_tags Jl_vararg_tag = 5"
| "small_typeof_tags Jl_tvar_tag = 6"
| "small_typeof_tags Jl_symbol_tag = 7"
| "small_typeof_tags Jl_module_tag = 8"
| "small_typeof_tags Jl_simplevector_tag = 9"
| "small_typeof_tags Jl_string_tag = 10"
| "small_typeof_tags Jl_task_tag = 11"
| "small_typeof_tags Jl_bool_tag = 12"
| "small_typeof_tags Jl_nothing_tag = 13"
| "small_typeof_tags Jl_char_tag = 14"
| "small_typeof_tags Jl_int16_tag = 15"
| "small_typeof_tags Jl_int32_tag = 16"
| "small_typeof_tags Jl_int64_tag = 17"
| "small_typeof_tags Jl_int8_tag = 18"
| "small_typeof_tags Jl_uint16_tag = 19"
| "small_typeof_tags Jl_uint32_tag = 20"
| "small_typeof_tags Jl_uint64_tag = 21"
| "small_typeof_tags Jl_uint8_tag = 22"
| "small_typeof_tags Jl_addrspacecore_tag = 23"
| "small_typeof_tags Jl_intrinsic_tag = 24"
| "small_typeof_tags Jl_argument_tag = 25"
| "small_typeof_tags Jl_slotnumber_tag = 26"
| "small_typeof_tags Jl_ssavalue_tag = 27"
| "small_typeof_tags Jl_gotoifnot_tag = 28"
| "small_typeof_tags Jl_returnnode_tag = 29"
| "small_typeof_tags Jl_enternode_tag = 30"
| "small_typeof_tags Jl_pinode_tag = 31"
| "small_typeof_tags Jl_phinode_tag = 32"
| "small_typeof_tags Jl_phicnode_tag = 33"
| "small_typeof_tags Jl_upsilonnode_tag = 34"
| "small_typeof_tags Jl_globalref_tag = 35"
| "small_typeof_tags Jl_gotonode_tag = 36"
| "small_typeof_tags Jl_quotenode_tag = 37"

definition jl_max_tags :: u32 where
  "jl_max_tags = 64"

text \<open>
  A header word below \<^verbatim>\<open>jl_max_tags << 4\<close> is a small tag, shifted by 4; \<open>tag_word t\<close> is the value
  \<^verbatim>\<open>(jl_small_typeof_tags_jl_..._tag as usize) << 4\<close>.
\<close>

definition tag_word :: "small_typeof_tag \<Rightarrow> usize" where
  "tag_word t = push_bit 4 (ucast (small_typeof_tags t))"

definition max_tag_word :: usize where
  "max_tag_word = push_bit 4 (ucast jl_max_tags)"

lemma max_tag_word_eq [simp, size_simps]: "max_tag_word = 1024"
  by (simp add: max_tag_word_def jl_max_tags_def)

lemma tag_word_eqs [simp, size_simps]:
  "tag_word Jl_null_tag = 0"
  "tag_word Jl_typeofbottom_tag = 16"
  "tag_word Jl_datatype_tag = 32"
  "tag_word Jl_unionall_tag = 48"
  "tag_word Jl_uniontype_tag = 64"
  "tag_word Jl_vararg_tag = 80"
  "tag_word Jl_tvar_tag = 96"
  "tag_word Jl_symbol_tag = 112"
  "tag_word Jl_module_tag = 128"
  "tag_word Jl_simplevector_tag = 144"
  "tag_word Jl_string_tag = 160"
  "tag_word Jl_task_tag = 176"
  "tag_word Jl_bool_tag = 192"
  "tag_word Jl_nothing_tag = 208"
  "tag_word Jl_char_tag = 224"
  "tag_word Jl_int16_tag = 240"
  "tag_word Jl_int32_tag = 256"
  "tag_word Jl_int64_tag = 272"
  "tag_word Jl_int8_tag = 288"
  "tag_word Jl_uint16_tag = 304"
  "tag_word Jl_uint32_tag = 320"
  "tag_word Jl_uint64_tag = 336"
  "tag_word Jl_uint8_tag = 352"
  "tag_word Jl_addrspacecore_tag = 368"
  "tag_word Jl_intrinsic_tag = 384"
  "tag_word Jl_argument_tag = 400"
  "tag_word Jl_slotnumber_tag = 416"
  "tag_word Jl_ssavalue_tag = 432"
  "tag_word Jl_gotoifnot_tag = 448"
  "tag_word Jl_returnnode_tag = 464"
  "tag_word Jl_enternode_tag = 480"
  "tag_word Jl_pinode_tag = 496"
  "tag_word Jl_phinode_tag = 512"
  "tag_word Jl_phicnode_tag = 528"
  "tag_word Jl_upsilonnode_tag = 544"
  "tag_word Jl_globalref_tag = 560"
  "tag_word Jl_gotonode_tag = 576"
  "tag_word Jl_quotenode_tag = 592"
  by (simp_all add: tag_word_def)

end
