(* ===== verification/Slots.thy ===== *)
theory Slots
  imports Julia_Layout
begin

text \<open>
  \<^verbatim>\<open>slots.rs\<close>: the slots through which the collector reads and updates references, the memory
  slices of the write barrier, and the root buffers handed to C.

  \<^verbatim>\<open>SimpleSlot\<close> is a type of mmtk-core: its load and store are the parameter \<open>simple_slot\<close>, with its
  documentation (a word-sized slot that holds the raw address of an object, or 0) as the
  hypothesis \<open>simple_slot_ok\<close>. \<^verbatim>\<open>ObjectReference\<close> is a non-null address. The collector's use of a
  slot (load, trace, store) is the client of the locale \<open>slot_contract\<close>.
\<close>

section \<open>The contract of a slot\<close>

locale slot_contract =
  fixes ld :: "'m \<Rightarrow> 's \<Rightarrow> addr option"
    and st :: "'m \<Rightarrow> 's \<Rightarrow> addr \<Rightarrow> 'm"
    and sep :: "'s \<Rightarrow> 's \<Rightarrow> bool"
  assumes ld_st_same: "obj \<noteq> 0 \<Longrightarrow> ld (st m s obj) s = Some obj"
    and ld_st_sep: "sep s s' \<Longrightarrow> ld (st m s' obj) s = ld m s"
begin

text \<open>Trace one slot: what it refers to is replaced by its new address.\<close>

lemma ld_forward_same:
  "(\<And>obj. ld m s = Some obj \<Longrightarrow> f obj \<noteq> 0) \<Longrightarrow>
    ld (case ld m s of None \<Rightarrow> m | Some obj \<Rightarrow> st m s (f obj)) s = map_option f (ld m s)"
  by (simp add: ld_st_same split: option.split)

lemma ld_forward_sep:
  "sep s s' \<Longrightarrow> ld (case ld m s' of None \<Rightarrow> m | Some obj \<Rightarrow> st m s' (f obj)) s = ld m s"
  by (simp add: ld_st_sep split: option.split)

lemma ld_forward_others:
  "(\<And>s'. s' \<in> set ss \<Longrightarrow> sep s s') \<Longrightarrow>
    ld (foldl (\<lambda>m s. case ld m s of None \<Rightarrow> m | Some obj \<Rightarrow> st m s (f obj)) m ss) s = ld m s"
  by (induction ss rule: rev_induct) (simp_all add: ld_forward_sep)

text \<open>Trace a list of slots none of which overlap: each one refers to the moved object.\<close>

lemma ld_forward_all:
  assumes "s \<in> set ss" and "sorted_wrt (\<lambda>s s'. sep s s' \<and> sep s' s) ss"
    and "\<And>s obj. s \<in> set ss \<Longrightarrow> ld m s = Some obj \<Longrightarrow> f obj \<noteq> 0"
  shows "ld (foldl (\<lambda>m s. case ld m s of None \<Rightarrow> m | Some obj \<Rightarrow> st m s (f obj)) m ss) s
    = map_option f (ld m s)"
  using assms
proof (induction ss rule: rev_induct)
  case (snoc s' ss)
  let ?m = "foldl (\<lambda>m s. case ld m s of None \<Rightarrow> m | Some obj \<Rightarrow> st m s (f obj)) m ss"
  have "\<And>t. t \<in> set ss \<Longrightarrow> sep s' t"
    using snoc.prems(2) by (simp add: sorted_wrt_append)
  then have old: "ld ?m s' = ld m s'"
    by (rule ld_forward_others)
  show ?case
  proof (cases "s = s'")
    case True
    have "\<And>obj. ld ?m s' = Some obj \<Longrightarrow> f obj \<noteq> 0"
      using snoc.prems(3) [of s'] old by simp
    then show ?thesis
      using True old ld_forward_same [of ?m s' f] by simp
  next
    case False
    then have "s \<in> set ss" and "sep s s'"
      using snoc.prems(1,2) by (auto simp: sorted_wrt_append)
    moreover have "ld ?m s = map_option f (ld m s)"
      by (rule snoc.IH [OF \<open>s \<in> set ss\<close>])
        (use snoc.prems(2,3) in \<open>auto simp: sorted_wrt_append\<close>)
    ultimately show ?thesis
      by (simp add: ld_forward_sep)
  qed
qed simp

end

section \<open>Slots\<close>

definition objref :: "addr \<Rightarrow> addr option" where
  "objref a = (if a = 0 then None else Some a)"

record simple_slot =
  simple_load :: "memory \<Rightarrow> addr \<Rightarrow> addr option"
  simple_store :: "memory \<Rightarrow> addr \<Rightarrow> addr \<Rightarrow> memory"

definition simple_slot_ok :: "simple_slot \<Rightarrow> bool" where
  "simple_slot_ok ops \<longleftrightarrow>
     (\<forall>m a. simple_load ops m a = objref (load64 m a)) \<and>
     (\<forall>m a obj. simple_store ops m a obj = store64 m a obj)"

definition word_slot :: simple_slot where
  "word_slot = \<lparr>simple_load = \<lambda>m a. objref (load64 m a), simple_store = store64\<rparr>"

lemma word_slot_ok [simp]: "simple_slot_ok word_slot"
  by (simp add: simple_slot_ok_def word_slot_def)

record offset_slot =
  slot_addr :: addr
  slot_offset :: usize

definition new_no_offset :: "addr \<Rightarrow> offset_slot" where
  "new_no_offset address = \<lparr>slot_addr = address, slot_offset = 0\<rparr>"

definition new_with_offset :: "addr \<Rightarrow> usize \<Rightarrow> offset_slot" where
  "new_with_offset address off = \<lparr>slot_addr = address, slot_offset = off\<rparr>"

definition offset_slot_address :: "offset_slot \<Rightarrow> addr" where
  "offset_slot_address s = slot_addr s"

definition offset_slot_offset :: "offset_slot \<Rightarrow> usize" where
  "offset_slot_offset s = slot_offset s"

definition offset_load :: "memory \<Rightarrow> offset_slot \<Rightarrow> addr option" where
  "offset_load m s =
     (let middle = load64 m (slot_addr s); begin' = middle - slot_offset s in objref begin')"

definition offset_store :: "memory \<Rightarrow> offset_slot \<Rightarrow> addr \<Rightarrow> memory" where
  "offset_store m s obj =
     (let begin' = obj; middle = begin' + slot_offset s in store64 m (slot_addr s) middle)"

datatype vm_slot = Simple addr | Offset offset_slot

fun slot_load :: "simple_slot \<Rightarrow> memory \<Rightarrow> vm_slot \<Rightarrow> addr option" where
  "slot_load ops m (Simple e) = simple_load ops m e"
| "slot_load ops m (Offset e) = offset_load m e"

fun slot_store :: "simple_slot \<Rightarrow> memory \<Rightarrow> vm_slot \<Rightarrow> addr \<Rightarrow> memory" where
  "slot_store ops m (Simple e) obj = simple_store ops m e obj"
| "slot_store ops m (Offset e) obj = offset_store m e obj"

fun slot_place :: "vm_slot \<Rightarrow> addr" where
  "slot_place (Simple e) = e"
| "slot_place (Offset e) = slot_addr e"

definition slots_apart :: "vm_slot \<Rightarrow> vm_slot \<Rightarrow> bool" where
  "slots_apart s s' \<longleftrightarrow> apart 8 (slot_place s) 8 (slot_place s')"

lemma slots_apart_sym: "slots_apart s s' = slots_apart s' s"
  by (simp add: slots_apart_def apart_sym)

interpretation offset_slots: slot_contract offset_load offset_store
  "\<lambda>s s'. apart 8 (slot_addr s) 8 (slot_addr s')"
  by unfold_locales (simp_all add: offset_load_def offset_store_def objref_def mem_simps)

lemma vm_slot_contract:
  assumes "simple_slot_ok ops"
  shows "slot_contract (slot_load ops) (slot_store ops) slots_apart"
proof
  show "slot_load ops (slot_store ops m s obj) s = Some obj" if "obj \<noteq> 0" for obj m s
    using assms that offset_slots.ld_st_same
    by (cases s) (simp_all add: simple_slot_ok_def objref_def mem_simps)
  show "slot_load ops (slot_store ops m s' obj) s = slot_load ops m s"
    if "slots_apart s s'" for s s' m obj
    using assms that
    by (cases s; cases s')
      (simp_all add: simple_slot_ok_def slots_apart_def offset_load_def offset_store_def mem_simps)
qed

interpretation word_slots: slot_contract "slot_load word_slot" "slot_store word_slot" slots_apart
  by (rule vm_slot_contract) simp

text \<open>What the collector does with each slot of an object it scanned.\<close>

definition forward_slots :: "simple_slot \<Rightarrow> (addr \<Rightarrow> addr) \<Rightarrow> memory \<Rightarrow> vm_slot list \<Rightarrow> memory" where
  "forward_slots ops f m ss =
     foldl (\<lambda>m s. case slot_load ops m s of None \<Rightarrow> m | Some obj \<Rightarrow> slot_store ops m s (f obj)) m ss"

text \<open>Tracing a list of separate slots, all at once.\<close>

lemma forward_slots_map:
  assumes "simple_slot_ok ops" and "sorted_wrt slots_apart ss" and "\<And>a. f a \<noteq> 0"
  shows "map (slot_load ops (forward_slots ops f m ss)) ss = map (map_option f \<circ> slot_load ops m) ss"
proof (rule map_cong [OF refl])
  fix s assume "s \<in> set ss"
  then show "slot_load ops (forward_slots ops f m ss) s = (map_option f \<circ> slot_load ops m) s"
    unfolding forward_slots_def comp_def
    by (rule slot_contract.ld_forward_all [OF vm_slot_contract [OF assms(1)]])
      (use assms(2,3) in \<open>simp_all add: slots_apart_sym\<close>)
qed


text \<open>
  C15: when no two slots of a list overlap, loading, forwarding and storing back through every
  slot, simple or with an offset, leaves each one referring to the new address of its object,
  and an empty slot empty.
\<close>

theorem forward_slots_load:
  assumes "simple_slot_ok ops" and "s \<in> set ss" and "sorted_wrt slots_apart ss"
    and "\<And>obj. f obj \<noteq> 0"
  shows "slot_load ops (forward_slots ops f m ss) s = map_option f (slot_load ops m s)"
  unfolding forward_slots_def
  by (rule slot_contract.ld_forward_all [OF vm_slot_contract [OF assms(1)] assms(2)])
    (use assms(3,4) in \<open>simp_all add: slots_apart_sym\<close>)

theorem forward_slots_load_witness:
  "slot_load word_slot
     (forward_slots word_slot (\<lambda>_. 4096) (store64 (\<lambda>_. 0) 80 1088)
        [Simple 16, Offset (new_with_offset 80 64)])
     (Offset (new_with_offset 80 64)) = Some 4096"
proof -
  have "slot_load word_slot (store64 (\<lambda>_. 0) 80 1088) (Offset (new_with_offset 80 64)) = Some 1024"
    by (simp add: offset_load_def new_with_offset_def objref_def mem_simps)
  then show ?thesis
    using forward_slots_load [of word_slot "Offset (new_with_offset 80 64)"
        "[Simple 16, Offset (new_with_offset 80 64)]" "\<lambda>_. 4096" "store64 (\<lambda>_. 0) 80 1088"]
    by (simp add: slots_apart_def apart_def new_with_offset_def)
qed

section \<open>Memory slices\<close>

record memory_slice =
  sl_owner :: addr
  sl_start :: addr
  sl_count :: usize

record slot_iterator =
  it_cursor :: addr
  it_limit :: addr

definition iter_slots :: "memory_slice \<Rightarrow> slot_iterator" where
  "iter_slots s = \<lparr>it_cursor = sl_start s, it_limit = sl_start s + sl_count s * 8\<rparr>"

definition slice_start :: "memory_slice \<Rightarrow> addr" where
  "slice_start s = sl_start s"

definition slice_object :: "memory_slice \<Rightarrow> addr option" where
  "slice_object s = Some (sl_owner s)"

definition slice_bytes :: "memory_slice \<Rightarrow> usize" where
  "slice_bytes s = push_bit 3 (sl_count s)"

definition slot_iter_next :: "slot_iterator \<Rightarrow> vm_slot option \<times> slot_iterator" where
  "slot_iter_next it =
     (if it_limit it \<le> it_cursor it then (None, it)
      else let slot = it_cursor it
           in (Some (Simple slot), it\<lparr>it_cursor := it_cursor it + 8\<rparr>))"

text \<open>A \<^verbatim>\<open>for\<close> loop over the iterator; \<open>None\<close> if it never runs out.\<close>

partial_function (option) slot_iter_collect :: "slot_iterator \<Rightarrow> vm_slot list option" where
  "slot_iter_collect it =
     (case slot_iter_next it of
        (None, it') \<Rightarrow> Some []
      | (Some s, it') \<Rightarrow> Option.bind (slot_iter_collect it') (\<lambda>r. Some (s # r)))"

definition slice_copy :: "memory \<Rightarrow> memory_slice \<Rightarrow> memory_slice \<Rightarrow> memory" where
  "slice_copy m src tgt =
     (let words = drop_bit 3 (slice_bytes tgt); src_addr = sl_start src; tgt_addr = sl_start tgt;
          n = unat words
      in if tgt_addr < src_addr \<or> src_addr + slice_bytes tgt < tgt_addr
         then foldl (\<lambda>m i. store64 m (tgt_addr + of_nat i * 8) (load64 m (src_addr + of_nat i * 8)))
                m [0..<n]
         else foldl (\<lambda>m i. store64 m (tgt_addr + of_nat (n - i - 1) * 8)
                                   (load64 m (src_addr + of_nat (n - i - 1) * 8)))
                m [0..<n])"

lemma slot_iter_collect_range:
  "addr_range (it_cursor it) (it_limit it) 8 = Some as \<Longrightarrow>
    slot_iter_collect it = Some (map Simple as)"
proof (induction as arbitrary: it)
  case Nil
  then have "\<not> it_cursor it < it_limit it"
    by (subst (asm) addr_range.simps) (auto simp: Option.bind_eq_Some_conv split: if_splits)
  then show ?case
    by (subst slot_iter_collect.simps) (simp add: slot_iter_next_def not_less)
next
  case (Cons a as)
  then have "it_cursor it < it_limit it" "a = it_cursor it"
    "addr_range (it_cursor it + 8) (it_limit it) 8 = Some as"
    by (subst (asm) (2) addr_range.simps; auto simp: Option.bind_eq_Some_conv split: if_splits)+
  then show ?case
    using Cons.IH [of "it\<lparr>it_cursor := it_cursor it + 8\<rparr>"]
    by (subst slot_iter_collect.simps) (simp add: slot_iter_next_def)
qed

text \<open>The places the two loops of the copy visit, in the order they visit them.\<close>

lemma copy_places_apart:
  fixes a b :: addr
  assumes "unat a + 8 * n \<le> 2 ^ 64" "unat b + 8 * n \<le> 2 ^ 64" "i < n" "j < n"
    and "unat a + 8 * i + 8 \<le> unat b + 8 * j \<or> unat b + 8 * j + 8 \<le> unat a + 8 * i"
  shows "apart 8 (a + of_nat i * 8) 8 (b + of_nat j * 8)"
proof -
  have u: "unat (a + of_nat i * 8) = unat a + 8 * i" "unat (b + of_nat j * 8) = unat b + 8 * j"
    using assms(1-4) unat_offset_no_wrap [of a i 8] unat_offset_no_wrap [of b j 8] by simp_all
  show ?thesis
    using assms(5)
  proof
    assume "unat a + 8 * i + 8 \<le> unat b + 8 * j"
    then show ?thesis
      using assms u by (intro apart_before) simp_all
  next
    assume "unat b + 8 * j + 8 \<le> unat a + 8 * i"
    then show ?thesis
      using assms u by (intro apart_after) simp_all
  qed
qed

lemma upt_sorted_wrtI:
  "(\<And>i j. i < j \<Longrightarrow> j < n \<Longrightarrow> P i j) \<Longrightarrow> sorted_wrt P [0..<n]"
  by (simp add: sorted_wrt_iff_nth_less)

lemma copy_forwards:
  fixes a b :: addr
  assumes "unat a + 8 * n \<le> 2 ^ 64" "unat b + 8 * n \<le> 2 ^ 64"
    and "unat b < unat a \<or> unat a + 8 * n < unat b" and "k < n"
  shows "load64 (foldl (\<lambda>m i. store64 m (b + of_nat i * 8) (load64 m (a + of_nat i * 8))) m [0..<n])
      (b + of_nat k * 8) = load64 m (a + of_nat k * 8)"
proof (rule mem64.ld_copies)
  show "sorted_wrt (\<lambda>i j. apart 8 (a + of_nat j * 8) 8 (b + of_nat i * 8)) [0..<n]"
    by (rule upt_sorted_wrtI, rule copy_places_apart [where n = n]) (use assms in arith)+
  show "sorted_wrt (\<lambda>i j. apart 8 (b + of_nat i * 8) 8 (b + of_nat j * 8)) [0..<n]"
    by (rule upt_sorted_wrtI, rule copy_places_apart [where n = n]) (use assms in arith)+
qed (use assms in auto)

lemma copy_backwards:
  fixes a b :: addr
  assumes "unat a + 8 * n \<le> 2 ^ 64" "unat b + 8 * n \<le> 2 ^ 64" and "unat a \<le> unat b" and "k < n"
  shows "load64 (foldl (\<lambda>m i. store64 m (b + of_nat (n - i - 1) * 8)
        (load64 m (a + of_nat (n - i - 1) * 8))) m [0..<n]) (b + of_nat k * 8)
    = load64 m (a + of_nat k * 8)"
proof -
  have "load64 (foldl (\<lambda>m i. store64 m (b + of_nat (n - i - 1) * 8)
        (load64 m (a + of_nat (n - i - 1) * 8))) m [0..<n]) (b + of_nat (n - (n - k - 1) - 1) * 8)
    = load64 m (a + of_nat (n - (n - k - 1) - 1) * 8)"
  proof (rule mem64.ld_copies)
    show "sorted_wrt (\<lambda>i j. apart 8 (a + of_nat (n - j - 1) * 8) 8 (b + of_nat (n - i - 1) * 8)) [0..<n]"
      by (rule upt_sorted_wrtI, rule copy_places_apart [where n = n]) (use assms in arith)+
    show "sorted_wrt (\<lambda>i j. apart 8 (b + of_nat (n - i - 1) * 8) 8 (b + of_nat (n - j - 1) * 8)) [0..<n]"
      by (rule upt_sorted_wrtI, rule copy_places_apart [where n = n]) (use assms in arith)+
  qed (use assms in auto)
  moreover have "n - (n - k - 1) - 1 = k"
    using assms(4) by simp
  ultimately show ?thesis
    by simp
qed

lemma slice_words:
  assumes "8 * unat (sl_count t) < 2 ^ 64"
  shows "unat (slice_bytes t) = 8 * unat (sl_count t)"
    and "drop_bit 3 (slice_bytes t) = sl_count t"
proof -
  show u: "unat (slice_bytes t) = 8 * unat (sl_count t)"
    using assms by (simp add: slice_bytes_def push_bit_eq_mult unat_word_ariths)
  show "drop_bit 3 (slice_bytes t) = sl_count t"
    by (rule word_unat_eq_iff [THEN iffD2])
      (simp add: drop_bit_eq_div unat_div_distrib u)
qed

lemma foldl_mem_frame:
  assumes "\<And>m i. i \<in> set is \<Longrightarrow> F m i x = (m :: memory) x"
  shows "foldl F m is x = m x"
  using assms by (induction "is" arbitrary: m) simp_all

text \<open>A byte whose distance from the target is at least its length is not written.\<close>

lemma outside_apart:
  fixes x b :: addr
  assumes "8 * n \<le> unat (x - b)" "i < n"
  shows "apart 1 x 8 (b + of_nat i * 8)"
proof -
  let ?d = "x - b" and ?k = "of_nat i * 8 :: addr"
  have "unat ?d < 2 ^ 64"
    by (rule word_max_64)
  then have k: "unat ?k = 8 * i"
    using assms unat_of_nat_mult [of i 8] by simp
  then have "?k < ?d"
    using assms by (simp add: word_less_nat_alt)
  then have "unat (?d - ?k) = unat ?d - 8 * i" "unat (?k - ?d) \<noteq> 0"
    using k by (auto simp: unat_sub_if_le unat_eq_0)
  then have "8 \<le> unat (?d - ?k)" "1 \<le> unat (?k - ?d)"
    using assms by simp_all
  then show ?thesis
    by (simp add: apart_def algebra_simps)
qed

text \<open>
  C16: the barrier's copy is \<^verbatim>\<open>memmove\<close>: for any two slices, overlapping in either direction or
  not, each target word ends with what the corresponding source word held before the copy, and
  no byte outside the target changes.
\<close>

theorem slice_copy_memmove:
  assumes "unat (sl_start src) + 8 * unat (sl_count tgt) < 2 ^ 64"
    and "unat (sl_start tgt) + 8 * unat (sl_count tgt) < 2 ^ 64"
  shows "(\<forall>i < unat (sl_count tgt). load64 (slice_copy m src tgt) (sl_start tgt + of_nat i * 8)
            = load64 m (sl_start src + of_nat i * 8))
    \<and> (\<forall>x. 8 * unat (sl_count tgt) \<le> unat (x - sl_start tgt) \<longrightarrow> slice_copy m src tgt x = m x)"
proof -
  let ?n = "unat (sl_count tgt)" and ?a = "sl_start src" and ?b = "sl_start tgt"
  have w: "drop_bit 3 (slice_bytes tgt) = sl_count tgt" "unat (slice_bytes tgt) = 8 * ?n"
    using slice_words [of tgt] assms by simp_all
  have "unat (?a + slice_bytes tgt) = unat ?a + 8 * ?n"
    using assms(1) w(2) by (simp add: unat_add_no_wrap)
  then have c: "?b < ?a \<or> ?a + slice_bytes tgt < ?b \<longleftrightarrow> unat ?b < unat ?a \<or> unat ?a + 8 * ?n < unat ?b"
    by (simp add: word_less_nat_alt)
  have "load64 (slice_copy m src tgt) (?b + of_nat i * 8) = load64 m (?a + of_nat i * 8)"
    if "i < ?n" for i
    using copy_forwards [of ?a ?n ?b i] copy_backwards [of ?a ?n ?b i] that assms c
    by (auto simp: slice_copy_def Let_def w(1))
  moreover have "slice_copy m src tgt x = m x" if x: "8 * ?n \<le> unat (x - ?b)" for x
  proof -
    have fr: "store64 m' (?b + of_nat i * 8) v x = m' x" if i: "i < ?n" for m' i v
      by (rule store64_other) (rule outside_apart [OF x i])
    show ?thesis
      unfolding slice_copy_def Let_def w(1)
      by (split if_split, intro conjI impI; rule foldl_mem_frame; rule fr; simp)
  qed
  ultimately show ?thesis
    by blast
qed

theorem slice_copy_memmove_witness:
  "load64 (slice_copy (store64 (\<lambda>_. 0) 4104 7) \<lparr>sl_owner = 64, sl_start = 4096, sl_count = 3\<rparr>
      \<lparr>sl_owner = 64, sl_start = 4104, sl_count = 3\<rparr>) 4112 = 7"
proof -
  let ?m = "store64 (\<lambda>_. 0) 4104 7 :: memory"
  have "\<forall>i < unat (3 :: usize). load64 (slice_copy ?m \<lparr>sl_owner = 64, sl_start = 4096, sl_count = 3\<rparr>
      \<lparr>sl_owner = 64, sl_start = 4104, sl_count = 3\<rparr>) (4104 + of_nat i * 8)
    = load64 ?m (4096 + of_nat i * 8)"
    using slice_copy_memmove [of "\<lparr>sl_owner = 64, sl_start = 4096, sl_count = 3\<rparr>"
        "\<lparr>sl_owner = 64, sl_start = 4104, sl_count = 3\<rparr>" ?m] by simp
  from this [rule_format, of 1] show ?thesis
    by (simp add: mem_simps)
qed

text \<open>
  Iterating over a slice yields exactly \<open>count\<close> simple slots, one per word from the start of
  the slice, in ascending order, and ends.
\<close>

theorem slice_slots:
  assumes "unat (sl_start s) + 8 * unat (sl_count s) + 8 < 2 ^ 64"
  shows "slot_iter_collect (iter_slots s) =
    Some (map (\<lambda>i. Simple (sl_start s + of_nat i * 8)) [0..<unat (sl_count s)])"
proof -
  have "addr_range (sl_start s) (sl_start s + of_nat (unat (sl_count s)) * 8) 8 =
      Some (map (\<lambda>i. sl_start s + of_nat i * 8) [0..<unat (sl_count s)])"
    by (rule addr_range_count) (use assms in simp_all)
  then show ?thesis
    using slot_iter_collect_range [of "iter_slots s"] by (simp add: iter_slots_def)
qed

theorem slice_slots_witness:
  "slot_iter_collect (iter_slots \<lparr>sl_owner = 64, sl_start = 4096, sl_count = 2\<rparr>) =
    Some [Simple 4096, Simple 4104]"
proof -
  have "[0..<unat (2 :: usize)] = [0, 1]"
    by (simp add: upt_rec)
  then show ?thesis
    using slice_slots [of "\<lparr>sl_owner = 64, sl_start = 4096, sl_count = 2\<rparr>"] by simp
qed

section \<open>Root buffers\<close>

text \<open>
  C collects roots in buffers it gets from Rust and reports each full one. The work packets a
  \<^verbatim>\<open>RootsWorkFactory\<close> is asked to create are recorded in order. \<open>vec\<close> is the pointer and capacity of
  the freshly allocated \<^verbatim>\<open>Vec\<close>.
\<close>

record work_log =
  roots_work :: "vm_slot list list"
  pinning_work :: "addr list list"
  tpinning_work :: "addr list list"

record work_buffer =
  wb_ptr :: addr
  wb_capacity :: usize

definition ROOT_WORK_PACKET_SIZE :: usize where
  "ROOT_WORK_PACKET_SIZE = 4096"

definition work_buffer_empty :: work_buffer where
  "work_buffer_empty = \<lparr>wb_ptr = 0, wb_capacity = 0\<rparr>"

definition work_buffer_new :: "(usize \<Rightarrow> addr \<times> usize) \<Rightarrow> work_buffer" where
  "work_buffer_new vec =
     (let (buf, capacity) = vec ROOT_WORK_PACKET_SIZE in \<lparr>wb_ptr = buf, wb_capacity = capacity\<rparr>)"

definition vec_words :: "memory \<Rightarrow> addr \<Rightarrow> usize \<Rightarrow> u64 list" where
  "vec_words m buf n = map (\<lambda>i. load64 m (buf + of_nat i * 8)) [0..<unat n]"

type_synonym report_fn =
  "(usize \<Rightarrow> addr \<times> usize) \<Rightarrow> memory \<Rightarrow> addr \<Rightarrow> usize \<Rightarrow> usize \<Rightarrow> work_log \<Rightarrow> bool \<Rightarrow>
     work_log \<times> work_buffer"

definition report_simple_slots :: report_fn where
  "report_simple_slots vec m buf n cap fac renew =
     (let fac' = (if buf \<noteq> 0
                  then fac\<lparr>roots_work := roots_work fac @ [map Simple (vec_words m buf n)]\<rparr>
                  else fac)
      in (fac', if renew then work_buffer_new vec else work_buffer_empty))"

definition report_nodes :: report_fn where
  "report_nodes vec m buf n cap fac renew =
     (let fac' = (if buf \<noteq> 0
                  then fac\<lparr>pinning_work := pinning_work fac @ [vec_words m buf n]\<rparr>
                  else fac)
      in (fac', if renew then work_buffer_new vec else work_buffer_empty))"

definition report_tpinned_nodes :: report_fn where
  "report_tpinned_nodes vec m buf n cap fac renew =
     (let fac' = (if buf \<noteq> 0
                  then fac\<lparr>tpinning_work := tpinning_work fac @ [vec_words m buf n]\<rparr>
                  else fac)
      in (fac', if renew then work_buffer_new vec else work_buffer_empty))"

record roots_work_closure =
  report_slots_func :: report_fn
  report_nodes_func :: report_fn
  report_tpinned_nodes_func :: report_fn

definition from_roots_work_factory :: roots_work_closure where
  "from_roots_work_factory =
     \<lparr>report_slots_func = report_simple_slots, report_nodes_func = report_nodes,
      report_tpinned_nodes_func = report_tpinned_nodes\<rparr>"

end
