(* ===== verification/Julia_Scanning.thy ===== *)
theory Julia_Scanning
  imports Slots
begin

text \<open>
  \<^verbatim>\<open>julia_scanning.rs\<close>: the type of an object from its header, and \<^verbatim>\<open>scan_julia_object\<close>, which visits
  every reference slot of an object.

  A scan returns the slots it hands to the visitor, in order, or the fault it ends in: a GC
  thread that panics aborts the process (\<^verbatim>\<open>set_panic_hook\<close>), so what it visited before does not
  matter. Memory is not written during a scan. The statics and functions of the Julia runtime
  and the address map of mmtk-core are the fields of the parameter \<open>runtime\<close>.
\<close>

section \<open>The runtime\<close>

record runtime =
  rt_small_typeof :: "nat \<Rightarrow> addr"
  rt_symbol_type :: addr
  rt_task_type :: addr
  rt_weakref_type :: addr
  rt_array_typename :: addr
  rt_genericmemory_typename :: addr
  JULIA_HEADER_SIZE :: usize
  JULIA_BUFF_TAG :: usize
  rt_is_mapped :: "addr \<Rightarrow> bool"
  rt_genericmemory_how :: "memory \<Rightarrow> addr \<Rightarrow> usize"
  rt_owner_address :: "memory \<Rightarrow> addr \<Rightarrow> addr"
  rt_stackbase :: "u16 \<Rightarrow> usize"
  rt_exc_slots :: "memory \<Rightarrow> addr \<Rightarrow> addr list"
  julia_copy_stack :: bool

definition object_is_managed_by_mmtk :: "runtime \<Rightarrow> usize \<Rightarrow> bool" where
  "object_is_managed_by_mmtk rt a = rt_is_mapped rt a"

text \<open>The static array \<^verbatim>\<open>jl_small_typeof: [*mut jl_datatype_t; 128]\<close>.\<close>

definition small_typeof :: "runtime \<Rightarrow> usize \<Rightarrow> addr res" where
  "small_typeof rt i =
     (if unat i < 128 then Inr (rt_small_typeof rt (unat i)) else Inl IndexOutOfBounds)"

section \<open>Types and layouts\<close>

definition JL_MAX_TAGS :: usize where
  "JL_MAX_TAGS = 64"

definition mmtk_jl_typetagof :: "memory \<Rightarrow> addr \<Rightarrow> addr" where
  "mmtk_jl_typetagof m a =
     (let as_tagged_value = a - size_of jl_taggedvalue_t; t_header = load64 m as_tagged_value
      in t_header AND NOT 0xf)"

definition mmtk_jl_to_typeof :: "runtime \<Rightarrow> addr \<Rightarrow> addr res" where
  "mmtk_jl_to_typeof rt t =
     (if t < push_bit 4 JL_MAX_TAGS then small_typeof rt (t div 8) else Inr t)"

definition mmtk_jl_typeof :: "runtime \<Rightarrow> memory \<Rightarrow> addr \<Rightarrow> addr res" where
  "mmtk_jl_typeof rt m a = mmtk_jl_to_typeof rt (mmtk_jl_typetagof m a)"

definition bytes_at :: "memory \<Rightarrow> addr \<Rightarrow> nat \<Rightarrow> bitfield" where
  "bytes_at m a n = map (\<lambda>i. m (a + of_nat i)) [0..<n]"

definition dt_name :: "memory \<Rightarrow> addr \<Rightarrow> addr" where
  "dt_name m vt = load64 m (vt + offset_of jl_datatype_fields ''name'')"

definition dt_layout :: "memory \<Rightarrow> addr \<Rightarrow> addr" where
  "dt_layout m vt = load64 m (vt + offset_of jl_datatype_fields ''layout'')"

definition dt_smalltag :: "memory \<Rightarrow> addr \<Rightarrow> u16 res" where
  "dt_smalltag m vt = smalltag (bytes_at m (vt + offset_of jl_datatype_fields ''_bitfield_1'') 2)"

definition ly_size :: "memory \<Rightarrow> addr \<Rightarrow> u32" where
  "ly_size m l = load32 m (l + offset_of jl_datatype_layout_fields ''size'')"

definition ly_nfields :: "memory \<Rightarrow> addr \<Rightarrow> u32" where
  "ly_nfields m l = load32 m (l + offset_of jl_datatype_layout_fields ''nfields'')"

definition ly_npointers :: "memory \<Rightarrow> addr \<Rightarrow> u32" where
  "ly_npointers m l = load32 m (l + offset_of jl_datatype_layout_fields ''npointers'')"

definition ly_first_ptr :: "memory \<Rightarrow> addr \<Rightarrow> u32" where
  "ly_first_ptr m l = load32 m (l + offset_of jl_datatype_layout_fields ''first_ptr'')"

definition ly_flags :: "memory \<Rightarrow> addr \<Rightarrow> bitfield" where
  "ly_flags m l = bytes_at m (l + offset_of jl_datatype_layout_fields ''flags'') 2"

definition gm_length :: "memory \<Rightarrow> addr \<Rightarrow> usize" where
  "gm_length m g = load64 m (g + offset_of jl_genericmemory_fields ''length'')"

definition gm_ptr :: "memory \<Rightarrow> addr \<Rightarrow> addr" where
  "gm_ptr m g = load64 m (g + offset_of jl_genericmemory_fields ''ptr'')"

definition mmtk_jl_svec_len :: "memory \<Rightarrow> addr \<Rightarrow> usize" where
  "mmtk_jl_svec_len m obj = load64 m (obj + offset_of jl_svec_fields ''length'')"

definition mmtk_jl_svec_data :: "addr \<Rightarrow> addr" where
  "mmtk_jl_svec_data obj = obj + size_of jl_svec_t"

definition mmtk_jl_svecref :: "memory \<Rightarrow> addr \<Rightarrow> usize \<Rightarrow> addr" where
  "mmtk_jl_svecref m vt i =
     (let svec_data = mmtk_jl_svec_data vt; result_ptr = svec_data + i in load64 m result_ptr)"

definition mmtk_jl_tparam0 :: "memory \<Rightarrow> addr \<Rightarrow> addr" where
  "mmtk_jl_tparam0 m vt =
     mmtk_jl_svecref m (load64 m (vt + offset_of jl_datatype_fields ''parameters'')) 0"

definition mmtk_jl_array_ndimwords :: "u32 \<Rightarrow> usize" where
  "mmtk_jl_array_ndimwords ndims = (if ndims < 3 then 0 else ucast (ndims - 2))"

definition mmtk_jl_fielddesc_size :: "u16 \<Rightarrow> u32" where
  "mmtk_jl_fielddesc_size ft = push_bit (unat ft) 2"

definition mmtk_jl_dt_layout_fields :: "addr \<Rightarrow> addr" where
  "mmtk_jl_dt_layout_fields l = l + size_of jl_datatype_layout_t"

definition mmtk_jl_dt_layout_ptrs :: "memory \<Rightarrow> addr \<Rightarrow> addr" where
  "mmtk_jl_dt_layout_ptrs m l = mmtk_jl_dt_layout_fields l
     + ucast (mmtk_jl_fielddesc_size (fielddesc_type_custom (ly_flags m l)) * ly_nfields m l)"

section \<open>Backtrace entries\<close>

definition JL_BT_NON_PTR_ENTRY :: usize where
  "JL_BT_NON_PTR_ENTRY = - 1"

text \<open>The word \<open>k\<close> entries after \<open>bt_entry\<close>: \<^verbatim>\<open>bt_entry.add(k)\<close>.\<close>

definition bt_word :: "memory \<Rightarrow> addr \<Rightarrow> usize \<Rightarrow> usize" where
  "bt_word m bt_entry k = load64 m (bt_entry + k * size_of jl_bt_element_t)"

definition mmtk_jl_bt_is_native :: "memory \<Rightarrow> addr \<Rightarrow> bool" where
  "mmtk_jl_bt_is_native m bt_entry \<longleftrightarrow> bt_word m bt_entry 0 \<noteq> JL_BT_NON_PTR_ENTRY"

definition mmtk_jl_bt_num_jlvals :: "memory \<Rightarrow> addr \<Rightarrow> usize" where
  "mmtk_jl_bt_num_jlvals m bt_entry = bt_word m bt_entry 1 AND 7"

definition mmtk_jl_bt_num_uintvals :: "memory \<Rightarrow> addr \<Rightarrow> usize" where
  "mmtk_jl_bt_num_uintvals m bt_entry = drop_bit 3 (bt_word m bt_entry 1) AND 7"

definition mmtk_jl_bt_entry_size :: "memory \<Rightarrow> addr \<Rightarrow> usize" where
  "mmtk_jl_bt_entry_size m bt_entry =
     (if mmtk_jl_bt_is_native m bt_entry then 1
      else 2 + mmtk_jl_bt_num_jlvals m bt_entry + mmtk_jl_bt_num_uintvals m bt_entry)"

definition mmtk_jl_bt_entry_jlvalue :: "memory \<Rightarrow> addr \<Rightarrow> usize \<Rightarrow> addr" where
  "mmtk_jl_bt_entry_jlvalue m bt_entry i = bt_word m bt_entry (2 + i)"

section \<open>Visiting slots\<close>

definition process_slot :: "addr \<Rightarrow> vm_slot" where
  "process_slot slot = Simple slot"

definition process_offset_slot :: "addr \<Rightarrow> usize \<Rightarrow> vm_slot" where
  "process_offset_slot slot off = Offset (new_with_offset slot off)"

text \<open>A \<^verbatim>\<open>while\<close> loop that visits each word, or each \<open>k\<close>-th word, of a range.\<close>

definition range_slots :: "addr \<Rightarrow> addr \<Rightarrow> usize \<Rightarrow> vm_slot list res" where
  "range_slots b e words =
     rbind (returns (addr_range b e (words * 8))) (\<lambda>as. Inr (map process_slot as))"

text \<open>
  A \<^verbatim>\<open>while\<close> loop over the pointer table of a layout, with entries of \<open>w\<close> bytes: the slot is at
  the entry's word offset from \<open>base\<close>.
\<close>

fun load_entry :: "nat \<Rightarrow> memory \<Rightarrow> addr \<Rightarrow> usize" where
  "load_entry w m p = (if w = 1 then ucast (load8 m p) else if w = 2 then ucast (load16 m p)
     else ucast (load32 m p))"

definition table_slots :: "nat \<Rightarrow> memory \<Rightarrow> addr \<Rightarrow> addr \<Rightarrow> u32 \<Rightarrow> vm_slot list res" where
  "table_slots w m base table npointers =
     rbind (returns (addr_range table (table + ucast npointers * of_nat w) (of_nat w)))
       (\<lambda>ps. Inr (map (\<lambda>p. process_slot (base + load_entry w m p * 8)) ps))"

fun collect :: "'a list res list \<Rightarrow> 'a list res" where
  "collect [] = Inr []"
| "collect (r # rs) = rbind r (\<lambda>xs. rbind (collect rs) (\<lambda>ys. Inr (xs @ ys)))"

section \<open>The shadow stack of a task\<close>

definition gc_ptr_tag :: "addr \<Rightarrow> usize \<Rightarrow> bool" where
  "gc_ptr_tag a tag \<longleftrightarrow> a AND tag \<noteq> 0"

text \<open>
  The window \<open>[lb, ub)\<close> of a copied stack and the distance to its copy.
\<close>

record stack_window =
  sw_offset :: u64
  sw_lb :: u64
  sw_ub :: u64

definition get_stack_addr :: "stack_window \<Rightarrow> addr \<Rightarrow> addr" where
  "get_stack_addr w a = (if sw_lb w \<le> a \<and> a < sw_ub w then a + sw_offset w else a)"

definition read_stack :: "stack_window \<Rightarrow> memory \<Rightarrow> addr \<Rightarrow> addr" where
  "read_stack w m a = load64 m (get_stack_addr w a)"

definition ta_ctx :: "addr \<Rightarrow> addr" where
  "ta_ctx ta = ta + offset_of jl_task_fields ''ctx''"

definition ta_stkbuf_slot :: "addr \<Rightarrow> addr" where
  "ta_stkbuf_slot ta = ta_ctx ta + offset_of jl_ucontext_fields ''stkbuf''"

definition ta_ctx_bits :: "memory \<Rightarrow> addr \<Rightarrow> bitfield" where
  "ta_ctx_bits m ta = bytes_at m (ta_ctx ta + offset_of jl_ucontext_fields ''_bitfield_1'') 4"

definition copied_stack :: "runtime \<Rightarrow> memory \<Rightarrow> addr \<Rightarrow> bool" where
  "copied_stack rt m ta \<longleftrightarrow> julia_copy_stack rt \<and> load64 m (ta_stkbuf_slot ta) \<noteq> 0
     \<and> copy_stack_custom (ta_ctx_bits m ta) \<noteq> 0"

definition stack_window_of :: "runtime \<Rightarrow> memory \<Rightarrow> addr \<Rightarrow> stack_window res" where
  "stack_window_of rt m ta =
     (if copied_stack rt m ta \<and> load64 m (ta + offset_of jl_task_fields ''ptls'') = 0
      then let tid = load16 m (ta + offset_of jl_task_fields ''tid'')
           in if sint tid < 0 then Inl (Panic ''tid must be positive.'')
              else let stackbase = rt_stackbase rt tid; ub = stackbase
                   in rbind (copy_stack (ta_ctx_bits m ta)) (\<lambda>sz.
                        let lb = ub - ucast sz
                        in Inr \<lparr>sw_offset = load64 m (ta_stkbuf_slot ta) - lb, sw_lb = lb, sw_ub = ub\<rparr>)
      else Inr \<lparr>sw_offset = 0, sw_lb = 0, sw_ub = - 1\<rparr>)"

text \<open>One frame: \<open>nr\<close> roots from \<open>rts\<close>, the current index \<open>i\<close>.\<close>

function frame_slots ::
    "stack_window \<Rightarrow> memory \<Rightarrow> addr \<Rightarrow> usize \<Rightarrow> nat \<Rightarrow> nat \<Rightarrow> vm_slot list" where
  "frame_slots w m rts nroots i nr =
     (if i < nr then
        let entry = rts + of_nat i * 8 in
        if nroots AND 1 \<noteq> 0 then
          let slot = read_stack w m entry; real_addr = get_stack_addr w slot
          in process_slot real_addr # frame_slots w m rts nroots (i + 1) nr
        else
          let real_addr = get_stack_addr w entry; slot = read_stack w m entry
          in if slot AND 3 = 3 then frame_slots w m rts nroots (i + 2) nr
             else if gc_ptr_tag slot 1
                  then process_offset_slot real_addr 1 # frame_slots w m rts nroots (i + 2) nr
                  else process_slot real_addr # frame_slots w m rts nroots (i + 1) nr
      else [])"
  by pat_completeness auto
termination
  by (relation "measure (\<lambda>(w, m, rts, nroots, i, nr). nr - i)") auto

declare frame_slots.simps [simp del]

definition gf_nroots :: "stack_window \<Rightarrow> memory \<Rightarrow> addr \<Rightarrow> usize" where
  "gf_nroots w m s = read_stack w m (s + offset_of jl_gcframe_fields ''nroots'')"

definition gf_prev :: "stack_window \<Rightarrow> memory \<Rightarrow> addr \<Rightarrow> addr" where
  "gf_prev w m s = read_stack w m (s + offset_of jl_gcframe_fields ''prev'')"

definition gcframe_slots :: "stack_window \<Rightarrow> memory \<Rightarrow> addr \<Rightarrow> vm_slot list" where
  "gcframe_slots w m s =
     (let nroots = gf_nroots w m s; nr = drop_bit 2 nroots; rts = s + 2 * 8
      in frame_slots w m rts nroots 0 (unat nr))"

text \<open>The frames from \<open>s\<close> on; \<open>None\<close> for a chain that does not end.\<close>

partial_function (option) gcstack_slots ::
    "stack_window \<Rightarrow> memory \<Rightarrow> addr \<Rightarrow> vm_slot list option" where
  "gcstack_slots w m s =
     (if gf_prev w m s = 0 then Some (gcframe_slots w m s)
      else Option.bind (gcstack_slots w m (gf_prev w m s)) (\<lambda>r. Some (gcframe_slots w m s @ r)))"

definition mmtk_scan_gcstack :: "runtime \<Rightarrow> memory \<Rightarrow> addr \<Rightarrow> vm_slot list res" where
  "mmtk_scan_gcstack rt m ta =
     (let stkbuf_slots = (if copied_stack rt m ta then [process_slot (ta_stkbuf_slot ta)] else []);
          s = load64 m (ta + offset_of jl_task_fields ''gcstack'');
          exc = (if load64 m (ta + offset_of jl_task_fields ''excstack'') \<noteq> 0
                 then map process_slot (rt_exc_slots rt m ta) else [])
      in rbind (stack_window_of rt m ta) (\<lambda>w.
           rbind (if s \<noteq> 0 then returns (gcstack_slots w m s) else Inr []) (\<lambda>frames.
             Inr (stkbuf_slots @ frames @ exc))))"

section \<open>The cases of the scanner\<close>

definition scan_simplevector :: "memory \<Rightarrow> addr \<Rightarrow> vm_slot list res" where
  "scan_simplevector m obj =
     (let len = mmtk_jl_svec_len m obj; objary_begin = mmtk_jl_svec_data obj;
          objary_end = objary_begin + len * 8
      in range_slots objary_begin objary_end 1)"

definition OFFSET_OF_INLINED_SPACE_IN_MODULE :: usize where
  "OFFSET_OF_INLINED_SPACE_IN_MODULE =
     offset_of jl_module_fields ''usings'' + offset_of arraylist_fields ''_space''"

definition scan_module :: "runtime \<Rightarrow> memory \<Rightarrow> addr \<Rightarrow> vm_slot list res" where
  "scan_module rt m mo =
     (let field = (\<lambda>f. process_slot (mo + offset_of jl_module_fields f));
          usings = mo + offset_of jl_module_fields ''usings'';
          items_slot = usings + offset_of arraylist_fields ''items'';
          items = load64 m items_slot;
          inlined = (if object_is_managed_by_mmtk rt items
                     then [process_offset_slot items_slot OFFSET_OF_INLINED_SPACE_IN_MODULE] else []);
          nusings = load64 m (usings + offset_of arraylist_fields ''len'')
      in rbind (if 0 < nusings then range_slots items (items + nusings * 8) 4 else Inr [])
           (\<lambda>using_slots. Inr ([field ''bindings'', field ''bindingkeyset'', field ''parent'',
              field ''usings_backedges'', field ''scanned_methods''] @ inlined @ using_slots)))"

definition scan_task :: "runtime \<Rightarrow> memory \<Rightarrow> addr \<Rightarrow> vm_slot list res" where
  "scan_task rt m ta =
     rbind (mmtk_scan_gcstack rt m ta) (\<lambda>stack.
       let layout = dt_layout m (rt_task_type rt)
       in rbind (table_slots 1 m ta (mmtk_jl_dt_layout_ptrs m layout) (ly_npointers m layout))
            (\<lambda>fields. Inr (stack @ fields)))"

definition scan_array_ref :: "runtime \<Rightarrow> memory \<Rightarrow> addr \<Rightarrow> vm_slot list" where
  "scan_array_ref rt m a =
     (let aref = a + offset_of jl_array_fields ''ref_'';
          ptr_or_ref_slot = aref + offset_of jl_genericmemoryref_fields ''ptr_or_offset'';
          ptr_or_offset = load64 m ptr_or_ref_slot;
          mem_addr = load64 m (aref + offset_of jl_genericmemoryref_fields ''mem'')
      in if object_is_managed_by_mmtk rt ptr_or_offset
         then if mem_addr < ptr_or_offset
              then let off = ptr_or_offset - mem_addr
                   in if 0 < off then [process_offset_slot ptr_or_ref_slot off] else []
              else []
         else [])"

text \<open>The nested loops over the elements and, for each, the pointer table with entries of \<open>w\<close> bytes.\<close>

definition element_slots ::
    "nat \<Rightarrow> memory \<Rightarrow> addr \<Rightarrow> addr \<Rightarrow> usize \<Rightarrow> addr \<Rightarrow> vm_slot list res" where
  "element_slots w m objary_begin objary_end elsize layout =
     rbind (returns (addr_range objary_begin objary_end (elsize * 8))) (\<lambda>es.
       collect (map (\<lambda>e. table_slots w m e (mmtk_jl_dt_layout_ptrs m layout) (ly_npointers m layout))
                  es))"

definition scan_inline_elements :: "memory \<Rightarrow> addr \<Rightarrow> usize \<Rightarrow> addr \<Rightarrow> vm_slot list res" where
  "scan_inline_elements m objary_begin len layout =
     (let npointers = ly_npointers m layout;
          elsize = ucast (ly_size m layout) div 8;
          objary_end = objary_begin + len * elsize * 8
      in if npointers = 1
         then range_slots (objary_begin + scast (ly_first_ptr m layout) * 8) objary_end elsize
         else if fielddesc_type_custom (ly_flags m layout) = 0
              then element_slots 1 m objary_begin objary_end elsize layout
         else if fielddesc_type_custom (ly_flags m layout) = 1
              then element_slots 2 m objary_begin objary_end elsize layout
         else Inl Unimplemented)"

definition scan_genericmemory :: "runtime \<Rightarrow> memory \<Rightarrow> addr \<Rightarrow> addr \<Rightarrow> vm_slot list res" where
  "scan_genericmemory rt m obj vt =
     (if rt_genericmemory_how rt m obj = 3 then Inr [process_slot (rt_owner_address rt m obj)]
      else if gm_length m obj = 0 then Inr []
      else let layout = dt_layout m vt; len = gm_length m obj; objary_begin = gm_ptr m obj
           in rbind (arrayelem_isboxed (ly_flags m layout)) (\<lambda>isboxed.
                if isboxed \<noteq> 0 then range_slots objary_begin (objary_begin + len * 8) 1
                else if 0 \<le> sint (ly_first_ptr m layout)
                     then scan_inline_elements m objary_begin len layout
                else Inr []))"

definition scan_fields :: "memory \<Rightarrow> addr \<Rightarrow> addr \<Rightarrow> vm_slot list res" where
  "scan_fields m obj layout =
     (let npointers = ly_npointers m layout; ft = fielddesc_type_custom (ly_flags m layout);
          table = mmtk_jl_dt_layout_ptrs m layout
      in if npointers \<noteq> 0
         then if ft = 0 then table_slots 1 m obj table npointers
              else if ft = 1 then table_slots 2 m obj table npointers
              else if ft = 2 then table_slots 4 m obj table npointers
              else Inl Unimplemented
         else Inr [])"

text \<open>The part after the tag dispatch: \<open>vt\<close> is the datatype of the object.\<close>

definition scan_with_type :: "runtime \<Rightarrow> memory \<Rightarrow> addr \<Rightarrow> addr \<Rightarrow> vm_slot list res" where
  "scan_with_type rt m obj vt =
     (let array_slots = (if dt_name m vt = rt_array_typename rt then scan_array_ref rt m obj else [])
      in rbind (if dt_name m vt = rt_genericmemory_typename rt then scan_genericmemory rt m obj vt
                else if vt = rt_weakref_type rt then Inr []
                else scan_fields m obj (dt_layout m vt))
           (\<lambda>rest. Inr (array_slots @ rest)))"

text \<open>Small tags whose objects have pointers but need no other special handling.\<close>

definition plain_small_tags :: "usize list" where
  "plain_small_tags = map tag_word
     [Jl_datatype_tag, Jl_unionall_tag, Jl_uniontype_tag, Jl_tvar_tag, Jl_vararg_tag,
      Jl_globalref_tag, Jl_gotoifnot_tag, Jl_returnnode_tag, Jl_enternode_tag, Jl_pinode_tag,
      Jl_phinode_tag, Jl_phicnode_tag, Jl_upsilonnode_tag, Jl_quotenode_tag]"

definition scan_small_tag :: "runtime \<Rightarrow> memory \<Rightarrow> addr \<Rightarrow> usize \<Rightarrow> vm_slot list res" where
  "scan_small_tag rt m obj vtag =
     (if vtag = tag_word Jl_simplevector_tag then scan_simplevector m obj
      else if vtag = tag_word Jl_module_tag then scan_module rt m obj
      else if vtag = tag_word Jl_task_tag then scan_task rt m obj
      else Inr [])"

definition scan_check_datatype :: "memory \<Rightarrow> addr \<Rightarrow> unit res" where
  "scan_check_datatype m vt =
     (let type_tag = mmtk_jl_typetagof m vt
      in rbind (dt_smalltag m vt) (\<lambda>tag.
           if type_tag \<noteq> tag_word Jl_datatype_tag \<or> tag \<noteq> 0
           then Inl (GcCorruption (vt \<noteq> tag_word Jl_datatype_tag) (tag \<noteq> 0) vt)
           else Inr ()))"

definition scan_julia_object :: "runtime \<Rightarrow> memory \<Rightarrow> addr \<Rightarrow> vm_slot list res" where
  "scan_julia_object rt m obj =
     (let vtag = mmtk_jl_typetagof m obj
      in if vtag = rt_symbol_type rt \<or> vtag = JULIA_BUFF_TAG rt then Inr []
         else if vtag \<in> set plain_small_tags
              then rbind (small_typeof rt (vtag div 8)) (\<lambda>vt. scan_with_type rt m obj vt)
         else if vtag < max_tag_word then scan_small_tag rt m obj vtag
         else rbind (scan_check_datatype m vtag) (\<lambda>_. scan_with_type rt m obj vtag))"

section \<open>Ranges and tables\<close>

text \<open>What a loop over a range or a pointer table should visit: one slot per index.\<close>

definition slots_at :: "addr \<Rightarrow> nat \<Rightarrow> addr \<Rightarrow> vm_slot list" where
  "slots_at b n st = map (\<lambda>i. Simple (b + of_nat i * st)) [0..<n]"

definition pointer_slots :: "nat \<Rightarrow> memory \<Rightarrow> addr \<Rightarrow> addr \<Rightarrow> nat \<Rightarrow> vm_slot list" where
  "pointer_slots w m base table n =
     map (\<lambda>j. Simple (base + load_entry w m (table + of_nat j * of_nat w) * 8)) [0..<n]"

lemma length_slots_at [simp]: "length (slots_at b n st) = n"
  by (simp add: slots_at_def)

lemma length_pointer_slots [simp]: "length (pointer_slots w m base table n) = n"
  by (simp add: pointer_slots_def)

lemma range_slots_words [scan_simps]:
  "unat b + 8 * unat n + 8 < 2 ^ 64 \<Longrightarrow> range_slots b (b + n * 8) 1 = Inr (slots_at b (unat n) 8)"
  using addr_range_count [of 8 b "unat n"]
  by (simp add: range_slots_def slots_at_def process_slot_def comp_def)

lemma table_slots_eq [scan_simps]:
  assumes "0 < w" and "w \<le> 4" and "unat table + unat np * w + w < 2 ^ 64"
  shows "table_slots w m base table np = Inr (pointer_slots w m base table (unat np))"
proof -
  have w: "unat (of_nat w :: addr) = w" "(0 :: addr) < of_nat w"
    using assms(1,2) by (simp_all add: unat_of_nat_64 word_less_nat_alt)
  have "addr_range table (table + of_nat (unat np) * of_nat w) (of_nat w) =
      Some (map (\<lambda>i. table + of_nat i * of_nat w) [0..<unat np])"
    by (rule addr_range_count) (use assms w in simp_all)
  moreover have "(of_nat (unat np) :: addr) = ucast np"
    by simp
  ultimately show ?thesis
    by (simp add: table_slots_def pointer_slots_def process_slot_def comp_def del: load_entry.simps)
qed

lemma collect_all: "(\<And>x. x \<in> set xs \<Longrightarrow> f x = Inr (g x)) \<Longrightarrow> collect (map f xs) = Inr (concat (map g xs))"
  by (induction xs) simp_all

lemma collect_eq_Inl: "collect rs = Inl e \<Longrightarrow> Inl e \<in> set rs"
  by (induction rs) (auto simp: rbind_eq_Inl)

section \<open>The dispatch on the header\<close>

text \<open>
  The value \<open>2 ^ 10\<close> of \<open>max_tag_word\<close> bounds the small tags; a symbol type or buffer tag that is
  none of the tags of interest lets the dispatch go on.
\<close>

definition not_special :: "runtime \<Rightarrow> usize \<Rightarrow> bool" where
  "not_special rt vtag \<longleftrightarrow> vtag \<noteq> rt_symbol_type rt \<and> vtag \<noteq> JULIA_BUFF_TAG rt"

lemma plain_small_tags_eq:
  "plain_small_tags = [32, 48, 64, 96, 80, 560, 448, 464, 480, 496, 512, 528, 544, 592]"
  by (simp add: plain_small_tags_def)

lemma scan_svec_dispatch [scan_simps]:
  "mmtk_jl_typetagof m obj = tag_word Jl_simplevector_tag \<Longrightarrow> not_special rt 144 \<Longrightarrow>
    scan_julia_object rt m obj = scan_simplevector m obj"
  by (simp add: scan_julia_object_def scan_small_tag_def plain_small_tags_eq not_special_def)

lemma scan_module_dispatch [scan_simps]:
  "mmtk_jl_typetagof m obj = tag_word Jl_module_tag \<Longrightarrow> not_special rt 128 \<Longrightarrow>
    scan_julia_object rt m obj = scan_module rt m obj"
  by (simp add: scan_julia_object_def scan_small_tag_def plain_small_tags_eq not_special_def)

lemma scan_task_dispatch [scan_simps]:
  "mmtk_jl_typetagof m obj = tag_word Jl_task_tag \<Longrightarrow> not_special rt 176 \<Longrightarrow>
    scan_julia_object rt m obj = scan_task rt m obj"
  by (simp add: scan_julia_object_def scan_small_tag_def plain_small_tags_eq not_special_def)

lemma plain_small_tags_below: "vtag \<in> set plain_small_tags \<Longrightarrow> vtag < 1024"
  by (auto simp: plain_small_tags_eq)

lemma scan_typed_dispatch [scan_simps]:
  assumes "mmtk_jl_typetagof m obj = vt" and "not_special rt vt" and "max_tag_word \<le> vt"
  shows "scan_julia_object rt m obj = rbind (scan_check_datatype m vt) (\<lambda>_. scan_with_type rt m obj vt)"
  using assms plain_small_tags_below [of vt]
  by (auto simp: scan_julia_object_def not_special_def Let_def)

section \<open>Vectors and modules\<close>

lemma simplevector_slots [scan_simps]:
  "unat obj + 8 * unat (mmtk_jl_svec_len m obj) + 16 < 2 ^ 64 \<Longrightarrow>
    scan_simplevector m obj = Inr (slots_at (obj + 8) (unat (mmtk_jl_svec_len m obj)) 8)"
  using range_slots_words [of "obj + 8" "mmtk_jl_svec_len m obj"]
  by (simp add: scan_simplevector_def mmtk_jl_svec_data_def unat_add_no_wrap)

text \<open>
  Scanning a simple vector visits exactly its elements: one simple slot per element, from the
  word after the length field, in index order.
\<close>

theorem scan_svec:
  assumes "mmtk_jl_typetagof m obj = tag_word Jl_simplevector_tag" and "not_special rt 144"
    and "unat obj + 8 * unat (mmtk_jl_svec_len m obj) + 16 < 2 ^ 64"
  shows "scan_julia_object rt m obj =
    Inr (map (\<lambda>i. Simple (obj + 8 + of_nat i * 8)) [0..<unat (mmtk_jl_svec_len m obj)])"
  using assms by (simp add: scan_simps slots_at_def)

text \<open>A runtime and a memory to evaluate the scanner on.\<close>

definition sample_runtime :: runtime where
  "sample_runtime = \<lparr>rt_small_typeof = \<lambda>n. 2048 + of_nat n * 64, rt_symbol_type = 4096,
     rt_task_type = 5120, rt_weakref_type = 6144, rt_array_typename = 7168,
     rt_genericmemory_typename = 8192, JULIA_HEADER_SIZE = 8, JULIA_BUFF_TAG = 0x4eadc000,
     rt_is_mapped = (\<lambda>a. 0x20000000000 \<le> a), rt_genericmemory_how = \<lambda>m a. 0,
     rt_owner_address = \<lambda>m a. a + 16, rt_stackbase = \<lambda>tid. 0x7000,
     rt_exc_slots = \<lambda>m a. [], julia_copy_stack = True\<rparr>"

lemma bytes_at_2: "bytes_at m a 2 = [m a, m (a + 1)]"
  by (simp add: bytes_at_def upt_rec)

lemma smalltag_zero: "smalltag [0, 0] = Inr 0"
  by code_simp

lemma sample_runtime_fields [simp]:
  "rt_small_typeof sample_runtime n = 2048 + of_nat n * 64"
  "rt_symbol_type sample_runtime = 4096" "rt_task_type sample_runtime = 5120"
  "rt_weakref_type sample_runtime = 6144" "rt_array_typename sample_runtime = 7168"
  "rt_genericmemory_typename sample_runtime = 8192" "JULIA_HEADER_SIZE sample_runtime = 8"
  "JULIA_BUFF_TAG sample_runtime = 0x4eadc000" "rt_genericmemory_how sample_runtime m a = 0"
  by (simp_all add: sample_runtime_def)

lemma sample_managed: "object_is_managed_by_mmtk sample_runtime a \<longleftrightarrow> 0x20000000000 \<le> a"
  by (simp add: object_is_managed_by_mmtk_def sample_runtime_def)

theorem scan_svec_witness:
  "scan_julia_object sample_runtime (poke [(0x8000, 144), (0x8008, 2)]) 0x8008
    = Inr [Simple 0x8010, Simple 0x8018]"
proof -
  let ?m = "poke [(0x8000, 144), (0x8008, 2)]"
  have "mmtk_jl_typetagof ?m 0x8008 = tag_word Jl_simplevector_tag"
    and l: "mmtk_jl_svec_len ?m 0x8008 = 2"
    by (simp_all add: mmtk_jl_typetagof_def mmtk_jl_svec_len_def apart_def mem_simps)
  then show ?thesis
    using scan_svec [of ?m "0x8008" sample_runtime]
    by (simp add: not_special_def sample_runtime_def upt_rec)
qed

lemma module_offset: "OFFSET_OF_INLINED_SPACE_IN_MODULE = 88"
  by (simp add: OFFSET_OF_INLINED_SPACE_IN_MODULE_def)

text \<open>The fields of a module that hold its \<open>usings\<close> list.\<close>

definition mod_items :: "memory \<Rightarrow> addr \<Rightarrow> addr" where
  "mod_items m mo = load64 m (mo + 80)"

definition mod_nusings :: "memory \<Rightarrow> addr \<Rightarrow> usize" where
  "mod_nusings m mo = load64 m (mo + 64)"

definition module_field_slots :: "addr \<Rightarrow> vm_slot list" where
  "module_field_slots mo = map Simple [mo + 16, mo + 24, mo + 8, mo + 48, mo + 56]"

definition inlined_slot :: "addr \<Rightarrow> vm_slot" where
  "inlined_slot mo = Offset (new_with_offset (mo + 80) 88)"

lemma using_range:
  assumes "unat b + 8 * unat n + 32 < 2 ^ 64"
  shows "range_slots b (b + n * 8) 4 = Inr (slots_at b ((unat n + 3) div 4) 32)"
proof -
  have u: "unat (b + n * 8) = unat b + 8 * unat n"
    using unat_offset_no_wrap [of b "unat n" 8] assms by simp
  have "range_count (unat b) (unat b + 8 * unat n) 32 = (8 * unat n + 31) div 32"
    by (simp add: range_count_def)
  also have "\<dots> = (unat n + 3) div 4"
    by presburger
  finally show ?thesis
    using addr_range_total [of 32 "b + n * 8" b] assms u
    by (simp add: range_slots_def slots_at_def process_slot_def comp_def)
qed

lemma module_slots_eq:
  assumes "unat (mod_items m mo) + 8 * unat (mod_nusings m mo) + 32 < 2 ^ 64"
  shows "scan_module rt m mo = Inr (module_field_slots mo
    @ (if object_is_managed_by_mmtk rt (mod_items m mo) then [inlined_slot mo] else [])
    @ slots_at (mod_items m mo) ((unat (mod_nusings m mo) + 3) div 4) 32)"
proof -
  have "(if 0 < mod_nusings m mo
      then range_slots (mod_items m mo) (mod_items m mo + mod_nusings m mo * 8) 4 else Inr [])
    = Inr (slots_at (mod_items m mo) ((unat (mod_nusings m mo) + 3) div 4) 32)"
    using using_range [OF assms] by (auto simp: word_gt_0 slots_at_def)
  then show ?thesis
    unfolding mod_items_def mod_nusings_def
    by (simp add: scan_module_def Let_def module_field_slots_def inlined_slot_def process_slot_def
        process_offset_slot_def module_offset add.assoc cong: if_cong split del: if_split)
qed

text \<open>
  C21: scanning a module visits its five reference fields, the pointer to its \<open>usings\<close> list as an
  internal pointer when the list is in the heap, and the first word of each four-word entry of
  the list, nothing else.
\<close>

theorem scan_module_slots:
  assumes "mmtk_jl_typetagof m mo = tag_word Jl_module_tag" and "not_special rt 128"
    and "unat (mod_items m mo) + 8 * unat (mod_nusings m mo) + 32 < 2 ^ 64"
  shows "scan_julia_object rt m mo = Inr (map Simple [mo + 16, mo + 24, mo + 8, mo + 48, mo + 56]
    @ (if object_is_managed_by_mmtk rt (mod_items m mo)
       then [Offset (new_with_offset (mo + 80) OFFSET_OF_INLINED_SPACE_IN_MODULE)] else [])
    @ map (\<lambda>i. Simple (mod_items m mo + of_nat i * 32)) [0..<(unat (mod_nusings m mo) + 3) div 4])"
  using assms module_slots_eq [of m mo rt]
  by (simp add: scan_simps module_field_slots_def inlined_slot_def slots_at_def module_offset)

definition sample_module :: memory where
  "sample_module = poke [(0x30000000000, 128), (0x30000000058, 0x30000000060), (0x30000000048, 4)]"

lemma sample_module_loads:
  "mmtk_jl_typetagof sample_module 0x30000000008 = tag_word Jl_module_tag"
  "mod_items sample_module 0x30000000008 = 0x30000000060"
  "mod_nusings sample_module 0x30000000008 = 4"
  by (simp_all add: sample_module_def mmtk_jl_typetagof_def mod_items_def mod_nusings_def apart_def
      mem_simps)

theorem scan_module_slots_witness:
  "scan_julia_object sample_runtime sample_module 0x30000000008 =
    Inr (map Simple [0x30000000018, 0x30000000020, 0x30000000010, 0x30000000038, 0x30000000040]
      @ [Offset (new_with_offset 0x30000000058 88), Simple 0x30000000060])"
  using scan_module_slots [of sample_module "0x30000000008" sample_runtime] sample_module_loads
  by (simp add: not_special_def sample_runtime_def object_is_managed_by_mmtk_def module_offset
      upt_rec)

section \<open>Fields, arrays and generic memory\<close>

text \<open>The number of bytes of an entry of the pointer table.\<close>

definition entry_bytes :: "memory \<Rightarrow> addr \<Rightarrow> nat" where
  "entry_bytes m layout = 2 ^ unat (fielddesc_type_custom (ly_flags m layout))"

lemma fielddesc_type_le3: "fielddesc_type_custom bs \<le> 3"
proof -
  have "fielddesc_type_custom bs AND 3 = fielddesc_type_custom bs"
    by (simp add: fielddesc_type_custom_def and.assoc)
  then show ?thesis
    using word_and_le1 by metis
qed

lemma fields_slots_eq:
  assumes "fielddesc_type_custom (ly_flags m layout) \<noteq> 3"
    and "unat (mmtk_jl_dt_layout_ptrs m layout) + 4 * unat (ly_npointers m layout) + 4 < 2 ^ 64"
  shows "scan_fields m obj layout = Inr (pointer_slots (entry_bytes m layout) m obj
    (mmtk_jl_dt_layout_ptrs m layout) (unat (ly_npointers m layout)))"
proof -
  let ?ft = "fielddesc_type_custom (ly_flags m layout)"
  have "?ft \<in> {0, 1, 2}"
    using fielddesc_type_le3 [of "ly_flags m layout"] assms(1)
    by (simp add: word_le_nat_alt word_unat_eq_iff) arith
  then show ?thesis
    using assms(2)
    by (auto simp: scan_fields_def Let_def entry_bytes_def table_slots_eq pointer_slots_def
        simp del: load_entry.simps)
qed

text \<open>The header of a datatype that is a well-formed object of type \<^verbatim>\<open>DataType\<close>.\<close>

definition is_datatype :: "memory \<Rightarrow> addr \<Rightarrow> bool" where
  "is_datatype m vt \<longleftrightarrow> mmtk_jl_typetagof m vt = tag_word Jl_datatype_tag \<and> dt_smalltag m vt = Inr 0"

lemma check_datatype_ok [scan_simps]: "is_datatype m vt \<Longrightarrow> scan_check_datatype m vt = Inr ()"
  by (simp add: is_datatype_def scan_check_datatype_def)

lemma scan_with_type_plain [scan_simps]:
  "dt_name m vt \<noteq> rt_array_typename rt \<Longrightarrow> dt_name m vt \<noteq> rt_genericmemory_typename rt \<Longrightarrow>
    vt \<noteq> rt_weakref_type rt \<Longrightarrow> scan_with_type rt m obj vt = scan_fields m obj (dt_layout m vt)"
  by (cases "scan_fields m obj (dt_layout m vt)") (simp_all add: scan_with_type_def)

text \<open>
  C4: scanning an object of an ordinary type visits exactly the pointer fields its layout lists:
  for each entry of the layout's pointer table, of 1, 2 or 4 bytes by the layout's descriptor
  type, the slot that many words from the object, in table order.
\<close>

theorem scan_pointer_fields:
  assumes "mmtk_jl_typetagof m obj = vt" and "not_special rt vt" and "max_tag_word \<le> vt"
    and "is_datatype m vt" and "vt \<noteq> rt_weakref_type rt"
    and "dt_name m vt \<noteq> rt_array_typename rt" and "dt_name m vt \<noteq> rt_genericmemory_typename rt"
    and "fielddesc_type_custom (ly_flags m (dt_layout m vt)) \<noteq> 3"
    and "unat (mmtk_jl_dt_layout_ptrs m (dt_layout m vt))
           + 4 * unat (ly_npointers m (dt_layout m vt)) + 4 < 2 ^ 64"
  shows "scan_julia_object rt m obj = Inr (map (\<lambda>j.
      Simple (obj + load_entry (entry_bytes m (dt_layout m vt)) m
        (mmtk_jl_dt_layout_ptrs m (dt_layout m vt) + of_nat j * of_nat (entry_bytes m (dt_layout m vt)))
        * 8)) [0..<unat (ly_npointers m (dt_layout m vt))])"
  using assms fields_slots_eq [of m "dt_layout m vt" obj]
  by (simp add: scan_simps pointer_slots_def del: load_entry.simps)

text \<open>An object with two pointer fields, its type and the type's layout.\<close>

definition sample_object :: memory where
  "sample_object = poke [(0x8ff8, 0xa000), (0x9ff8, 32), (0xa000, 0xb000), (0xa028, 0xc000),
     (0xc000, 0x200000010), (0xc008, 2), (0xc018, 0x100)]"

lemma sample_object_loads:
  "mmtk_jl_typetagof sample_object 0x9000 = 0xa000"
  "mmtk_jl_typetagof sample_object 0xa000 = 32"
  "dt_name sample_object 0xa000 = 0xb000"
  "dt_layout sample_object 0xa000 = 0xc000"
  by (simp_all add: sample_object_def mmtk_jl_typetagof_def dt_name_def dt_layout_def apart_def
      mem_simps)

lemma sample_object_layout:
  "ly_npointers sample_object 0xc000 = 2" "ly_nfields sample_object 0xc000 = 2"
  "ly_flags sample_object 0xc000 = [0, 0]"
  "sample_object 0xc018 = 0" "sample_object 0xc019 = 1"
  "dt_smalltag sample_object 0xa000 = Inr 0"
  by (simp_all add: sample_object_def ly_npointers_def ly_nfields_def ly_flags_def bytes_at_2
     dt_smalltag_def smalltag_zero poke_byte load32_bytes)

lemma fielddesc_type_zero [simp]: "fielddesc_type_custom [0, 0] = 0"
  by (simp add: fielddesc_type_custom_def)

theorem scan_pointer_fields_witness:
  "scan_julia_object sample_runtime sample_object 0x9000 = Inr [Simple 0x9000, Simple 0x9008]"
proof -
  have p: "mmtk_jl_dt_layout_ptrs sample_object 0xc000 = 0xc018"
    by (simp add: mmtk_jl_dt_layout_ptrs_def mmtk_jl_dt_layout_fields_def mmtk_jl_fielddesc_size_def
        sample_object_layout)
  show ?thesis
    using scan_pointer_fields [of sample_object "0x9000" "0xa000" sample_runtime] sample_object_loads
    by (simp add: p not_special_def sample_runtime_def is_datatype_def sample_object_layout
        entry_bytes_def upt_rec)
qed

text \<open>A layout of array elements that are stored inline.\<close>

definition element_words :: "memory \<Rightarrow> addr \<Rightarrow> usize" where
  "element_words m layout = ucast (ly_size m layout) div 8"

definition element_layout_ok :: "memory \<Rightarrow> addr \<Rightarrow> bool" where
  "element_layout_ok m layout \<longleftrightarrow>
     0 < element_words m layout \<and> 0 \<le> sint (ly_first_ptr m layout)
     \<and> fielddesc_type_custom (ly_flags m layout) \<le> 1
     \<and> unat (mmtk_jl_dt_layout_ptrs m layout) + 2 * unat (ly_npointers m layout) + 2 < 2 ^ 64
     \<and> load_entry (entry_bytes m layout) m (mmtk_jl_dt_layout_ptrs m layout)
         = scast (ly_first_ptr m layout)
     \<and> unat (scast (ly_first_ptr m layout) :: usize) < unat (element_words m layout)"

lemma range_count_offset:
  assumes "k < st"
  shows "range_count (b + k) (b + n * st) st = n"
proof (cases n)
  case 0
  with assms show ?thesis
    by (simp add: range_count_def)
next
  case (Suc n')
  show ?thesis
    unfolding range_count_def by (rule div_nat_eqI) (use assms Suc in \<open>simp_all add: mult.commute\<close>)
qed

lemma elements_range:
  fixes b st :: addr
  assumes "unat k < unat st" and "unat b + (unat len + 1) * unat st < 2 ^ 64"
  shows "addr_range (b + k) (b + len * st) st =
    Some (map (\<lambda>i. b + k + of_nat i * st) [0..<unat len])"
proof -
  have "unat (b + k) = unat b + unat k"
    using assms by (intro unat_add_no_wrap) simp
  moreover have "unat (b + of_nat (unat len) * st) = unat b + unat len * unat st"
    using assms(2) by (intro unat_offset_no_wrap) simp
  moreover have "0 < st"
    using assms(1) by (auto simp: word_less_nat_alt)
  ultimately show ?thesis
    using assms by (simp add: addr_range_total range_count_offset)
qed

lemma unat_element_words: "unat (element_words m layout * 8) = 8 * unat (element_words m layout)"
proof -
  have "unat (ucast (ly_size m layout) :: usize) < 2 ^ 32"
    using le_less_trans [OF take_bit_nat_less_eq_self, of "unat (ly_size m layout)" "2 ^ 32" 64]
      unsigned_less [of "ly_size m layout", where 'a = nat]
    by (simp add: unsigned_ucast_eq)
  then have "unat (element_words m layout) < 2 ^ 32"
    by (simp add: element_words_def unat_div_distrib)
  then show ?thesis
    using unat_of_nat_mult [of "unat (element_words m layout)" 8] by simp
qed

lemma element_slots_eq:
  assumes "0 < w" "w \<le> 2"
    and "unat (mmtk_jl_dt_layout_ptrs m layout) + 2 * unat (ly_npointers m layout) + 2 < 2 ^ 64"
    and "0 < unat st" "unat b + (unat len + 1) * unat st < 2 ^ 64" "st = elsize * 8"
  shows "element_slots w m b (b + len * st) elsize layout = Inr (concat (map (\<lambda>i.
    pointer_slots w m (b + of_nat i * st) (mmtk_jl_dt_layout_ptrs m layout)
      (unat (ly_npointers m layout))) [0..<unat len]))"
proof -
  let ?ps = "mmtk_jl_dt_layout_ptrs m layout" and ?n = "ly_npointers m layout"
  have "unat ?n * w \<le> 2 * unat ?n"
    using assms(2) by simp
  then have "unat ?ps + unat ?n * w + w < 2 ^ 64"
    using assms(2,3) by linarith
  then have "table_slots w m e ?ps ?n = Inr (pointer_slots w m e ?ps (unat ?n))" for e
    using assms(1,2) by (intro table_slots_eq) simp_all
  then show ?thesis
    using elements_range [of 0 st b len] assms(4-6)
    by (simp add: element_slots_def collect_all comp_def)
qed

lemma inline_elements_eq:
  assumes "element_layout_ok m layout"
    and "unat b + (unat len + 1) * (8 * unat (element_words m layout)) < 2 ^ 64"
  shows "scan_inline_elements m b len layout = Inr (concat (map (\<lambda>i.
    pointer_slots (entry_bytes m layout) m (b + of_nat i * (element_words m layout * 8))
      (mmtk_jl_dt_layout_ptrs m layout) (unat (ly_npointers m layout))) [0..<unat len]))"
proof (cases "ly_npointers m layout = 1")
  case True
  let ?k = "scast (ly_first_ptr m layout) * 8 :: usize" and ?st = "element_words m layout * 8"
  have "unat (scast (ly_first_ptr m layout) :: usize) < unat (element_words m layout)"
    using assms(1) by (simp add: element_layout_ok_def)
  moreover have "8 * unat (element_words m layout) < 2 ^ 64"
    using assms(2) by simp
  ultimately have "unat ?k < unat ?st"
    using unat_of_nat_mult [of "unat (scast (ly_first_ptr m layout) :: usize)" 8]
    by (simp add: unat_element_words)
  then have "addr_range (b + ?k) (b + len * ?st) ?st
      = Some (map (\<lambda>i. b + ?k + of_nat i * ?st) [0..<unat len])"
    using assms(2) by (intro elements_range) (simp_all add: unat_element_words)
  moreover have "element_words m layout * 8 = ?st" "b + len * element_words m layout * 8 = b + len * ?st"
    by simp_all
  moreover have "pointer_slots (entry_bytes m layout) m e (mmtk_jl_dt_layout_ptrs m layout) 1
      = [Simple (e + ?k)]" for e
    using assms(1) by (simp add: pointer_slots_def element_layout_ok_def del: load_entry.simps)
  ultimately show ?thesis
    using True
    by (simp add: scan_inline_elements_def Let_def range_slots_def process_slot_def comp_def
        element_words_def [symmetric] ac_simps)
next
  case False
  have "fielddesc_type_custom (ly_flags m layout) \<in> {0, 1}"
    using assms(1) by (simp add: element_layout_ok_def word_le_nat_alt word_unat_eq_iff) arith
  moreover have "element_slots w m b (b + len * (element_words m layout * 8)) (element_words m layout) layout
      = Inr (concat (map (\<lambda>i. pointer_slots w m (b + of_nat i * (element_words m layout * 8))
          (mmtk_jl_dt_layout_ptrs m layout) (unat (ly_npointers m layout))) [0..<unat len]))"
    if "w = 1 \<or> w = 2" for w
    using assms that
    by (intro element_slots_eq) (auto simp: element_layout_ok_def unat_element_words word_less_nat_alt)
  ultimately show ?thesis
    using False
    by (auto simp: scan_inline_elements_def Let_def element_words_def [symmetric] entry_bytes_def
        mult.assoc)
qed

text \<open>
  C20: scanning an array whose elements are stored inline visits, for every element in order, the
  slots of the element's pointer table; the strided loop the code uses for elements with one
  pointer visits the same slots as the loop over the table.
\<close>

theorem scan_inline_elements_all:
  assumes "element_layout_ok m layout"
    and "unat b + (unat len + 1) * (8 * unat (element_words m layout)) < 2 ^ 64"
  shows "scan_inline_elements m b len layout = Inr (concat (map (\<lambda>i.
    pointer_slots (entry_bytes m layout) m (b + of_nat i * (element_words m layout * 8))
      (mmtk_jl_dt_layout_ptrs m layout) (unat (ly_npointers m layout))) [0..<unat len]))"
  using assms by (rule inline_elements_eq)

lemma sample_layout_values:
  "fielddesc_type_custom (ly_flags sample_object 0xc000) = 0"
  "entry_bytes sample_object 0xc000 = 1"
  "mmtk_jl_dt_layout_ptrs sample_object 0xc000 = 0xc018"
  "element_words sample_object 0xc000 = 2"
  "ly_first_ptr sample_object 0xc000 = 0"
proof -
  show "fielddesc_type_custom (ly_flags sample_object 0xc000) = 0"
    by (simp add: sample_object_layout)
  then show "entry_bytes sample_object 0xc000 = 1"
    by (simp add: entry_bytes_def)
  show "mmtk_jl_dt_layout_ptrs sample_object 0xc000 = 0xc018"
    by (simp add: mmtk_jl_dt_layout_ptrs_def mmtk_jl_dt_layout_fields_def mmtk_jl_fielddesc_size_def
        sample_object_layout)
  have "ly_size sample_object 0xc000 = 16"
    by (simp add: sample_object_def ly_size_def poke_byte load32_bytes)
  then show "element_words sample_object 0xc000 = 2"
    by (simp add: element_words_def)
  show "ly_first_ptr sample_object 0xc000 = 0"
    by (simp add: sample_object_def ly_first_ptr_def poke_byte load32_bytes)
qed

theorem scan_inline_elements_all_witness:
  "scan_inline_elements sample_object 0xd000 2 0xc000
    = Inr [Simple 0xd000, Simple 0xd008, Simple 0xd010, Simple 0xd018]"
proof -
  have "element_layout_ok sample_object 0xc000"
    by (simp add: element_layout_ok_def sample_layout_values sample_object_layout)
  then show ?thesis
    using scan_inline_elements_all [of sample_object "0xc000" "0xd000" 2]
    by (simp add: sample_layout_values sample_object_layout pointer_slots_def upt_rec)
qed

text \<open>
  The data pointer of an array into a managed memory object is visited as an internal pointer
  to that object, so after it and the \<^verbatim>\<open>mem\<close> field have been forwarded the array refers to the
  object's new address and points into it at the same distance as before.
\<close>

theorem scan_array_forward:
  assumes "object_is_managed_by_mmtk rt (load64 m a)" and "load64 m (a + 8) < load64 m a"
    and "load64 m (a + 8) = obj" and "obj \<noteq> 0" and "\<And>x. f x \<noteq> 0"
    and "m' = forward_slots word_slot f m (scan_array_ref rt m a @ [Simple (a + 8)])"
  shows "load64 m' (a + 8) = f obj \<and> load64 m' a = f obj + (load64 m a - obj)"
proof -
  let ?s = "Offset (new_with_offset a (load64 m a - obj))"
  have "load64 m a - obj \<noteq> 0"
    using assms(2,3) by auto
  then have "scan_array_ref rt m a = [?s]"
    using assms(1-3) by (simp add: scan_array_ref_def process_offset_slot_def word_gt_0)
  then have m': "m' = forward_slots word_slot f m [?s, Simple (a + 8)]"
    using assms(6) by simp
  have ap: "sorted_wrt slots_apart [?s, Simple (a + 8)]"
    by (simp add: slots_apart_def new_with_offset_def apart_def)
  have "slot_load word_slot m' t = map_option f (slot_load word_slot m t)"
    if "t \<in> {?s, Simple (a + 8)}" for t
    using forward_slots_map [OF word_slot_ok ap assms(5), where m = m] that m' by auto
  moreover have "slot_load word_slot m ?s = Some obj" "slot_load word_slot m (Simple (a + 8)) = Some obj"
    using assms(3,4) by (simp_all add: offset_load_def new_with_offset_def objref_def word_slot_def)
  ultimately have "objref (load64 m' a - (load64 m a - obj)) = Some (f obj)"
    "objref (load64 m' (a + 8)) = Some (f obj)"
    by (force simp: offset_load_def new_with_offset_def word_slot_def)+
  then have "load64 m' a - (load64 m a - obj) = f obj" "load64 m' (a + 8) = f obj"
    by (simp_all add: objref_def split: if_splits)
  then show ?thesis
    by (simp add: algebra_simps)
qed

theorem scan_array_forward_witness:
  "let m = poke [(0x9000, 0x20000000210), (0x9008, 0x20000000200)];
       m' = forward_slots word_slot (\<lambda>_. 0x20000007000) m (scan_array_ref sample_runtime m 0x9000 @ [Simple 0x9008])
   in load64 m' 0x9008 = 0x20000007000 \<and> load64 m' 0x9000 = 0x20000007010"
proof -
  let ?m = "poke [(0x9000, 0x20000000210), (0x9008, 0x20000000200)]"
  let ?m' = "forward_slots word_slot (\<lambda>_. 0x20000007000) ?m
    (scan_array_ref sample_runtime ?m 0x9000 @ [Simple 0x9008])"
  have l: "load64 ?m 0x9000 = 0x20000000210" "load64 ?m 0x9008 = 0x20000000200"
    by (simp_all add: load64_poke apart_def)
  then show ?thesis
    using scan_array_forward [of sample_runtime ?m "0x9000" "0x20000000200" "\<lambda>_. 0x20000007000" ?m']
    by (simp add: sample_managed Let_def)
qed

section \<open>Faults\<close>

text \<open>
  A type word of \<^verbatim>\<open>max_tags << 4\<close> or more that is not a datatype with small tag 0 stops the scan
  with the corruption panic, and nothing else does before the type is used. The first argument
  of the message, which is to say whether the type word is a datatype, is true whatever the
  type's own header says.
\<close>

theorem corruption_panic:
  assumes "mmtk_jl_typetagof m obj = vt" and "not_special rt vt" and "max_tag_word \<le> vt"
    and "dt_smalltag m vt = Inr tag"
  shows "(\<not> is_datatype m vt \<longrightarrow> scan_julia_object rt m obj = Inl (GcCorruption True (tag \<noteq> 0) vt))
    \<and> (is_datatype m vt \<longrightarrow> scan_julia_object rt m obj = scan_with_type rt m obj vt)"
proof -
  have "vt \<noteq> tag_word Jl_datatype_tag"
    using assms(3) by auto
  then show ?thesis
    using assms by (auto simp: scan_simps scan_check_datatype_def is_datatype_def)
qed

theorem corruption_panic_witness:
  "let m = poke [(0x8ff8, 0xa000), (0x9ff8, 32), (0xa035, 0xff)]
   in scan_julia_object sample_runtime m 0x9000 = Inl (GcCorruption True True 0xa000)"
proof -
  let ?m = "poke [(0x8ff8, 0xa000), (0x9ff8, 32), (0xa035, 0xff)]"
  have "dt_smalltag ?m 0xa000 = smalltag [0, 255]"
    by (simp add: dt_smalltag_def bytes_at_2 poke_byte)
  also have "\<dots> = Inr 63"
    by code_simp
  finally have "dt_smalltag ?m 0xa000 = Inr 63" .
  moreover have "mmtk_jl_typetagof ?m 0x9000 = 0xa000"
    by (simp add: mmtk_jl_typetagof_def load64_poke apart_def)
  ultimately show ?thesis
    using corruption_panic [of ?m "0x9000" "0xa000" sample_runtime 63]
    by (simp add: not_special_def sample_runtime_def is_datatype_def Let_def)
qed

lemma rbind_fault_in:
  assumes "\<And>e. r = Inl e \<Longrightarrow> e \<in> S" and "\<And>x e. r = Inr x \<Longrightarrow> g x = Inl e \<Longrightarrow> e \<in> S"
  shows "rbind r g = Inl e \<Longrightarrow> e \<in> S"
  using assms by (auto simp: rbind_eq_Inl)

lemma returns_fault: "returns v = Inl e \<Longrightarrow> e = Diverges"
  by (cases v) simp_all

lemma bits_in_bounds:
  "length bs = 2 \<Longrightarrow> \<exists>v. arrayelem_isboxed bs = Inr v"
  "length bs = 2 \<Longrightarrow> \<exists>v. smalltag bs = Inr v"
  "length bs = 4 \<Longrightarrow> \<exists>v. copy_stack bs = Inr v"
  by (simp_all add: arrayelem_isboxed_def smalltag_def copy_stack_def bf_get_in_bounds)

lemma length_bytes_at [simp]: "length (bytes_at m a n) = n"
  by (simp add: bytes_at_def)

definition scan_faults :: "fault set" where
  "scan_faults = {Diverges, Unimplemented, Panic ''tid must be positive.''}
     \<union> {GcCorruption b c vt |b c vt. True}"

lemma scan_faultsI [intro]:
  "Diverges \<in> scan_faults" "Unimplemented \<in> scan_faults"
  "Panic ''tid must be positive.'' \<in> scan_faults" "GcCorruption b c vt \<in> scan_faults"
  by (auto simp: scan_faults_def)

lemma range_slots_fault: "range_slots b e k = Inl f \<Longrightarrow> f \<in> scan_faults"
  by (auto simp: range_slots_def rbind_eq_Inl dest: returns_fault)

lemma table_slots_fault: "table_slots w m b t n = Inl f \<Longrightarrow> f \<in> scan_faults"
  by (auto simp: table_slots_def rbind_eq_Inl dest: returns_fault)

lemma element_slots_fault: "element_slots w m b e k l = Inl f \<Longrightarrow> f \<in> scan_faults"
  by (auto simp: element_slots_def rbind_eq_Inl dest!: returns_fault collect_eq_Inl)
    (metis table_slots_fault)

lemma scan_fields_fault: "scan_fields m obj l = Inl f \<Longrightarrow> f \<in> scan_faults"
  by (auto simp: scan_fields_def Let_def split: if_splits dest: table_slots_fault)

lemma scan_inline_elements_fault: "scan_inline_elements m b n l = Inl f \<Longrightarrow> f \<in> scan_faults"
  by (auto simp: scan_inline_elements_def Let_def split: if_splits
      dest: range_slots_fault element_slots_fault)

lemma scan_genericmemory_fault: "scan_genericmemory rt m obj vt = Inl f \<Longrightarrow> f \<in> scan_faults"
  using bits_in_bounds(1) [of "ly_flags m (dt_layout m vt)"]
  by (auto simp: scan_genericmemory_def Let_def ly_flags_def split: if_splits
      dest: range_slots_fault scan_inline_elements_fault)

lemma scan_with_type_fault: "scan_with_type rt m obj vt = Inl f \<Longrightarrow> f \<in> scan_faults"
  by (auto simp: scan_with_type_def Let_def rbind_eq_Inl split: if_splits
      dest: scan_genericmemory_fault scan_fields_fault)

lemma scan_gcstack_fault: "mmtk_scan_gcstack rt m ta = Inl f \<Longrightarrow> f \<in> scan_faults"
  using bits_in_bounds(3) [of "ta_ctx_bits m ta"]
  by (auto simp: mmtk_scan_gcstack_def Let_def rbind_eq_Inl stack_window_of_def ta_ctx_bits_def
      split: if_splits dest: returns_fault)

lemma scan_small_tag_fault: "scan_small_tag rt m obj vtag = Inl f \<Longrightarrow> f \<in> scan_faults"
  by (auto simp: scan_small_tag_def scan_simplevector_def scan_module_def scan_task_def Let_def
      rbind_eq_Inl split: if_splits dest: range_slots_fault table_slots_fault scan_gcstack_fault)

lemma small_typeof_plain:
  "vtag \<in> set plain_small_tags \<Longrightarrow> small_typeof rt (vtag div 8) = Inr (rt_small_typeof rt (unat vtag div 8))"
  by (auto simp: plain_small_tags_eq small_typeof_def unat_div_distrib)

text \<open>
  C30: a scan that does not return ends in the corruption panic, an unimplemented layout, a task
  with a negative thread id or a loop that does not end; in particular the index into
  \<^verbatim>\<open>jl_small_typeof\<close> and the bits of the layout flags are always in bounds.
\<close>

theorem scan_julia_object_faults:
  "case scan_julia_object rt m obj of
     Inl f \<Rightarrow> f \<in> {Diverges, Unimplemented, Panic ''tid must be positive.''}
                 \<union> {GcCorruption b c vt |b c vt. True}
   | Inr ss \<Rightarrow> True"
proof -
  have "f \<in> scan_faults" if "scan_julia_object rt m obj = Inl f" for f
    using that bits_in_bounds(2) [of "bytes_at m (mmtk_jl_typetagof m obj + 52) 2"]
    by (auto simp: scan_julia_object_def Let_def small_typeof_plain rbind_eq_Inl
        scan_check_datatype_def dt_smalltag_def split: if_splits
        dest: scan_with_type_fault scan_small_tag_fault)
  then show ?thesis
    unfolding scan_faults_def [symmetric] by (auto split: sum.split)
qed

section \<open>What the shadow stack refers to\<close>

text \<open>
  The references of a frame, read off its entries. With bit 0 of \<^verbatim>\<open>nroots\<close> set every entry is the
  address of a variable on the stack. Otherwise an entry with its two low bits set is a
  malloc'ed object, one with bit 0 set a reference tagged with 1, each followed by a native
  function that is no reference, and any other entry a reference.
\<close>

fun direct_refs :: "addr list \<Rightarrow> addr option list" where
  "direct_refs [] = []"
| "direct_refs (e # es) =
     (if e AND 3 = 3 then direct_refs (tl es)
      else if gc_ptr_tag e 1 then objref (e - 1) # direct_refs (tl es)
      else objref e # direct_refs es)"

definition frame_entries :: "stack_window \<Rightarrow> memory \<Rightarrow> addr \<Rightarrow> nat \<Rightarrow> nat \<Rightarrow> addr list" where
  "frame_entries w m rts i nr = map (\<lambda>i. read_stack w m (rts + of_nat i * 8)) [i..<nr]"

definition frame_refs :: "stack_window \<Rightarrow> memory \<Rightarrow> addr \<Rightarrow> addr option list" where
  "frame_refs w m s =
     (let entries = frame_entries w m (s + 16) 0 (unat (gf_nroots w m s) div 4)
      in if gf_nroots w m s AND 1 \<noteq> 0 then map (\<lambda>e. objref (read_stack w m e)) entries
         else direct_refs entries)"

lemma frame_entries_Cons:
  "i < nr \<Longrightarrow> frame_entries w m rts i nr =
    read_stack w m (rts + of_nat i * 8) # frame_entries w m rts (i + 1) nr"
  by (simp add: frame_entries_def upt_conv_Cons)

lemma tl_frame_entries: "tl (frame_entries w m rts i nr) = frame_entries w m rts (i + 1) nr"
  by (cases "i < nr") (simp_all add: frame_entries_def upt_conv_Cons)

lemma word_slot_load [simp]:
  "slot_load word_slot m (process_slot a) = objref (load64 m a)"
  "slot_load word_slot m (process_offset_slot a k) = objref (load64 m a - k)"
  by (simp_all add: process_slot_def process_offset_slot_def word_slot_def offset_load_def
      new_with_offset_def)

lemma frame_slots_direct:
  "nroots AND 1 = 0 \<Longrightarrow> map (slot_load word_slot m) (frame_slots w m rts nroots i nr)
    = direct_refs (frame_entries w m rts i nr)"
proof (induction w m rts nroots i nr rule: frame_slots.induct)
  case (1 w m rts nroots i nr)
  show ?case
  proof (cases "i < nr")
    case True
    then show ?thesis
      using 1 by (subst frame_slots.simps)
        (simp add: frame_entries_Cons tl_frame_entries Let_def read_stack_def)
  qed (simp add: frame_slots.simps frame_entries_def)
qed

lemma frame_slots_indirect:
  "nroots AND 1 \<noteq> 0 \<Longrightarrow> map (slot_load word_slot m) (frame_slots w m rts nroots i nr)
    = map (\<lambda>e. objref (read_stack w m e)) (frame_entries w m rts i nr)"
proof (induction w m rts nroots i nr rule: frame_slots.induct)
  case (1 w m rts nroots i nr)
  show ?case
  proof (cases "i < nr")
    case True
    then show ?thesis
      using 1 by (subst frame_slots.simps)
        (simp add: frame_entries_Cons Let_def read_stack_def)
  qed (simp add: frame_slots.simps frame_entries_def)
qed

lemma gcframe_slots_refs:
  "map (slot_load word_slot m) (gcframe_slots w m s) = frame_refs w m s"
proof -
  have "unat (drop_bit 2 (gf_nroots w m s)) = unat (gf_nroots w m s) div 4"
    by (simp add: drop_bit_eq_div unat_div_distrib)
  then show ?thesis
    by (simp add: gcframe_slots_def frame_refs_def Let_def frame_slots_direct frame_slots_indirect)
qed

lemma gcframes_refs:
  "map (slot_load word_slot m) (concat (map (gcframe_slots w m) fs)) = concat (map (frame_refs w m) fs)"
  by (simp add: map_concat comp_def gcframe_slots_refs)

fun gc_chain :: "stack_window \<Rightarrow> memory \<Rightarrow> addr \<Rightarrow> addr list \<Rightarrow> bool" where
  "gc_chain w m s [] = False"
| "gc_chain w m s (f # fs) =
     (f = s \<and> (if gf_prev w m s = 0 then fs = [] else gc_chain w m (gf_prev w m s) fs))"

lemma gcstack_slots_chain:
  "gc_chain w m s fs \<Longrightarrow> gcstack_slots w m s = Some (concat (map (gcframe_slots w m) fs))"
proof (induction fs arbitrary: s)
  case (Cons f fs)
  then show ?case
    by (subst gcstack_slots.simps) (auto split: if_splits)
qed simp

lemma gcstack_slots_Some:
  "gcstack_slots w m s = Some ss \<Longrightarrow> \<exists>fs. gc_chain w m s fs"
proof (induction rule: gcstack_slots.raw_induct
    [where P = "\<lambda>w m s ss. \<exists>fs. gc_chain w m s fs", rotated, consumes 1])
  case (1 f w m s ss)
  show ?case
  proof (cases "gf_prev w m s = 0")
    case True
    then have "gc_chain w m s [s]"
      by simp
    then show ?thesis ..
  next
    case False
    with 1(2) obtain r where "f w m (gf_prev w m s) = Some r"
      by (auto simp: Option.bind_eq_Some_conv)
    from 1(1) [OF this] obtain fs where "gc_chain w m (gf_prev w m s) fs" ..
    with False have "gc_chain w m s (s # fs)"
      by simp
    then show ?thesis ..
  qed
qed

text \<open>
  C18: scanning the stack of a task visits slots that hold exactly the references on it: the saved
  stack if it was copied, then frame by frame what each frame refers to (tagged entries
  untagged, malloc'ed objects and native functions skipped, the referents of the variables an
  indirect frame points to), then the exception stack.
\<close>

theorem scan_gcstack_refs:
  assumes "stack_window_of rt m ta = Inr w"
    and "load64 m (ta + offset_of jl_task_fields ''gcstack'') = s" and "s \<noteq> 0" and "gc_chain w m s fs"
  shows "\<exists>ss. mmtk_scan_gcstack rt m ta = Inr ss \<and> map (slot_load word_slot m) ss =
    (if copied_stack rt m ta then [objref (load64 m (ta_stkbuf_slot ta))] else [])
    @ concat (map (frame_refs w m) fs)
    @ (if load64 m (ta + offset_of jl_task_fields ''excstack'') \<noteq> 0
       then map (\<lambda>a. objref (load64 m a)) (rt_exc_slots rt m ta) else [])"
  using assms gcstack_slots_chain [OF assms(4)] gcframes_refs [of m w fs]
  by (simp add: mmtk_scan_gcstack_def Let_def comp_def)

definition sample_stack :: memory where
  "sample_stack = poke [(0x9098, 0x5000), (0x5000, 16), (0x5010, 0xb001), (0x5018, 0x4444),
     (0x5020, 0), (0x5028, 0xc000)]"

theorem scan_gcstack_refs_witness:
  "\<exists>ss. mmtk_scan_gcstack sample_runtime sample_stack 0x9000 = Inr ss \<and>
    map (slot_load word_slot sample_stack) ss = [Some 0xb000, None, Some 0xc000]"
proof -
  let ?w = "\<lparr>sw_offset = 0, sw_lb = 0, sw_ub = - 1\<rparr> :: stack_window"
  have nc: "\<not> copied_stack sample_runtime sample_stack 0x9000"
    by (simp add: copied_stack_def ta_stkbuf_slot_def ta_ctx_def sample_stack_def load64_poke apart_def)
  then have "stack_window_of sample_runtime sample_stack 0x9000 = Inr ?w"
    by (simp add: stack_window_of_def)
  moreover have rd: "read_stack ?w m a = load64 m a" for m a
    by (simp add: read_stack_def get_stack_addr_def)
  then have "gc_chain ?w sample_stack 0x5000 [0x5000]"
    by (simp add: gf_prev_def sample_stack_def load64_poke apart_def)
  moreover have "frame_refs ?w sample_stack 0x5000 = [Some 0xb000, None, Some 0xc000]"
  proof -
    have "frame_entries ?w sample_stack 0x5010 0 4 = [0xb001, 0x4444, 0, 0xc000]"
      by (simp add: frame_entries_def rd sample_stack_def load64_poke apart_def upt_rec)
    moreover have "gf_nroots ?w sample_stack 0x5000 = 16"
      by (simp add: gf_nroots_def rd sample_stack_def load64_poke apart_def)
    ultimately show ?thesis
      by (simp add: frame_refs_def gc_ptr_tag_def objref_def)
  qed
  moreover have "load64 sample_stack 0x9098 = 0x5000" "load64 sample_stack 0x90b0 = 0"
    by (simp_all add: sample_stack_def load64_poke apart_def)
  ultimately show ?thesis
    using scan_gcstack_refs [of sample_runtime sample_stack "0x9000" ?w "0x5000" "[0x5000]"] nc by simp
qed

section \<open>Copied stacks\<close>

text \<open>
  While a task with a copied stack is not running, every address of its stack is read in the
  saved copy, at the same distance from the start of the copied part; addresses outside the
  copied part are read where they are.
\<close>

theorem copied_stack_window:
  assumes "copied_stack rt m ta" and "load64 m (ta + offset_of jl_task_fields ''ptls'') = 0"
    and "0 \<le> sint (load16 m (ta + offset_of jl_task_fields ''tid''))"
    and "copy_stack (ta_ctx_bits m ta) = Inr sz"
    and "base = rt_stackbase rt (load16 m (ta + offset_of jl_task_fields ''tid''))"
    and "unat sz \<le> unat base"
  shows "\<exists>w. stack_window_of rt m ta = Inr w
    \<and> (\<forall>k < unat sz. get_stack_addr w (base - ucast sz + of_nat k)
         = load64 m (ta_stkbuf_slot ta) + of_nat k)
    \<and> (\<forall>a. a < base - ucast sz \<or> base \<le> a \<longrightarrow> get_stack_addr w a = a)"
proof -
  let ?lb = "base - ucast sz" and ?buf = "load64 m (ta_stkbuf_slot ta)"
  let ?w = "\<lparr>sw_offset = ?buf - ?lb, sw_lb = ?lb, sw_ub = base\<rparr>"
  have usz: "unat (ucast sz :: addr) = unat sz"
    using take_bit_nat_less_eq_self [of 64 "unat sz"] unsigned_less [of sz, where 'a = nat]
    by (simp add: unsigned_ucast_eq take_bit_nat_eq_self)
  have "(ucast sz :: addr) \<le> base"
    using assms(6) usz by (simp add: word_le_nat_alt)
  then have lb: "unat ?lb = unat base - unat sz"
    using usz by (simp add: unat_sub_if_le)
  have "get_stack_addr ?w (?lb + of_nat k) = ?buf + of_nat k" if "k < unat sz" for k
  proof -
    have "unat (of_nat k :: addr) = k"
      using that unsigned_less [of sz, where 'a = nat] by (intro unat_of_nat_64) simp
    then have "unat (?lb + of_nat k) = unat base - unat sz + k"
      using unat_add_no_wrap [of ?lb "of_nat k"] lb that assms(6) word_max_64 [of base] by simp
    then have "?lb \<le> ?lb + of_nat k" and "?lb + of_nat k < base"
      unfolding word_le_nat_alt word_less_nat_alt using that lb assms(6) by linarith+
    then show ?thesis
      by (simp add: get_stack_addr_def)
  qed
  moreover have "get_stack_addr ?w a = a" if "a < ?lb \<or> base \<le> a" for a
    using that by (auto simp: get_stack_addr_def not_less)
  moreover have "stack_window_of rt m ta = Inr ?w"
    using assms(1-5) by (simp add: stack_window_of_def Let_def)
  ultimately show ?thesis
    by blast
qed

theorem copied_stack_window_witness:
  "\<exists>w. stack_window_of sample_runtime (poke [(0x90c8, 0xe000), (0x90d8, 0x800)]) 0x9000 = Inr w
    \<and> get_stack_addr w 0x6810 = 0xe010 \<and> get_stack_addr w 0x6000 = 0x6000"
proof -
  let ?m = "poke [(0x90c8, 0xe000), (0x90d8, 0x800)]"
  have bits: "ta_ctx_bits ?m 0x9000 = [0, 8, 0, 0]"
    by (simp add: ta_ctx_bits_def ta_ctx_def bytes_at_def upt_rec poke_byte)
  have sz: "copy_stack (ta_ctx_bits ?m 0x9000) = Inr 2048"
    unfolding bits by code_simp
  have loads: "load64 ?m (ta_stkbuf_slot 0x9000) = 0xe000" "load64 ?m 0x90a8 = 0" "load16 ?m 0x9090 = 0"
    by (simp_all add: ta_stkbuf_slot_def ta_ctx_def load64_poke load16_bytes apart_def poke_byte)
  have "copied_stack sample_runtime ?m 0x9000"
    by (simp add: copied_stack_def loads bits copy_stack_custom_def sample_runtime_def)
  moreover have "rt_stackbase sample_runtime tid = 0x7000" for tid
    by (simp add: sample_runtime_def)
  ultimately have "\<exists>w. stack_window_of sample_runtime ?m 0x9000 = Inr w
      \<and> (\<forall>k < 2048. get_stack_addr w (0x7000 - 2048 + of_nat k) = 0xe000 + of_nat k)
      \<and> (\<forall>a. a < 0x7000 - 2048 \<or> 0x7000 \<le> a \<longrightarrow> get_stack_addr w a = a)"
    using copied_stack_window [of sample_runtime ?m "0x9000" 2048 "0x7000"] loads sz by simp
  then obtain w where w: "stack_window_of sample_runtime ?m 0x9000 = Inr w"
    "\<forall>k < 2048. get_stack_addr w (0x7000 - 2048 + of_nat k) = 0xe000 + of_nat k"
    "\<forall>a. a < 0x7000 - 2048 \<or> 0x7000 \<le> a \<longrightarrow> get_stack_addr w a = a"
    by blast
  from w(2) [rule_format, of 16] w(3) [rule_format, of "0x6000"] have
    "get_stack_addr w 0x6810 = 0xe010" "get_stack_addr w 0x6000 = 0x6000"
    by simp_all
  with w(1) show ?thesis
    by blast
qed

end
