(* ===== verification/Bitfield_Accessors.thy ===== *)
theory Bitfield_Accessors
  imports Julia_Scanning
begin

text \<open>
  The bit-field accessors bindgen generated in \<^verbatim>\<open>julia_types.rs\<close>, four for each field: a getter and
  a setter on the unit, and the two that go through a pointer to the struct. \<open>unit_ok\<close> states what
  the accessors of one unit promise together, and holds for the units of all five structs.

  The getters the binding calls are in \<open>Bitfields\<close>.
\<close>

section \<open>What the accessors of a unit promise\<close>

record 'w accessors =
  ac_offset :: nat
  ac_width :: nat
  ac_get :: "bitfield \<Rightarrow> 'w res"
  ac_set :: "'w \<Rightarrow> bitfield \<Rightarrow> bitfield res"
  ac_raw_get :: "memory \<Rightarrow> addr \<Rightarrow> 'w"
  ac_raw_set :: "memory \<Rightarrow> addr \<Rightarrow> 'w \<Rightarrow> memory"

text \<open>
  On the storage of a unit of \<open>n\<close> bytes, setting a field succeeds, its getter then returns the value
  cut to the field's width, and the other fields keep theirs; no two fields share a bit and all
  bits of the unit belong to a field. Through a pointer, with the unit at offset \<open>pos\<close> of the
  struct, the accessors do to the bytes of the unit what the others do to the storage, and to no
  other byte.
\<close>

definition storage_ok :: "nat \<Rightarrow> 'a::len word accessors list \<Rightarrow> bool" where
  "storage_ok n accs \<longleftrightarrow> sum_list (map ac_width accs) = 8 * n \<and>
     (\<forall>st v. \<forall>a \<in> set accs. length st = n \<longrightarrow>
       (\<exists>st'. ac_set a v st = Inr st' \<and> length st' = n \<and> ac_get a st' = Inr (take_bit (ac_width a) v)
          \<and> (\<forall>b \<in> set accs. ac_offset b \<noteq> ac_offset a \<longrightarrow> ac_get b st' = ac_get b st)))"

definition raw_ok :: "nat \<Rightarrow> usize \<Rightarrow> 'a::len word accessors list \<Rightarrow> bool" where
  "raw_ok n pos accs \<longleftrightarrow>
     (\<forall>m this v. \<forall>a \<in> set accs.
       ac_get a (bytes_at m (this + pos) n) = Inr (ac_raw_get a m this)
       \<and> ac_set a v (bytes_at m (this + pos) n) = Inr (bytes_at (ac_raw_set a m this v) (this + pos) n)
       \<and> (\<forall>x. x \<notin> (\<lambda>k. this + pos + of_nat k) ` {..<n} \<longrightarrow> ac_raw_set a m this v x = m x))"

definition unit_ok :: "nat \<Rightarrow> usize \<Rightarrow> 'a::len word accessors list \<Rightarrow> bool" where
  "unit_ok n pos accs \<longleftrightarrow> storage_ok n accs \<and> raw_ok n pos accs"

section \<open>Accessors in the form bindgen gives them\<close>

definition std_accessors :: "usize \<Rightarrow> nat \<times> nat \<Rightarrow> 'a::len word accessors" where
  "std_accessors pos f =
     \<lparr>ac_offset = fst f, ac_width = snd f,
      ac_get = \<lambda>st. rbind (bf_get st (fst f) (snd f)) (\<lambda>v. Inr (ucast v)),
      ac_set = \<lambda>val st. bf_set st (fst f) (snd f) (ucast val),
      ac_raw_get = \<lambda>m this. ucast (raw_get m (this + pos) (fst f) (snd f)),
      ac_raw_set = \<lambda>m this val. raw_set m (this + pos) (fst f) (snd f) (ucast val)\<rparr>"

lemma ucast_take_bit_ucast:
  "LENGTH('a) \<le> 64 \<Longrightarrow> ucast (take_bit w (ucast (v :: 'a::len word) :: u64)) = take_bit w v"
  by (rule bit_word_eqI) (auto simp: bit_simps)

lemma st_bit_bytes_at: "i < 8 * n \<Longrightarrow> st_bit (bytes_at m a n) i = raw_get_bit m a i"
  by (simp add: st_bit_def raw_get_bit_def bytes_at_def less_mult_imp_div_less mult.commute)

lemma bf_get_bytes_at:
  assumes "off + w \<le> 8 * n"
  shows "bf_get (bytes_at m a n) off w = Inr (raw_get m a off w)"
proof -
  have "foldl (\<lambda>v i. if st_bit (bytes_at m a n) (i + off) then v OR push_bit i 1 else v) 0 [0..<w]
    = raw_get m a off w"
    unfolding raw_get_def by (rule foldl_cong) (use assms in \<open>auto simp: st_bit_bytes_at\<close>)
  then show ?thesis
    using assms by (simp add: bf_get_in_bounds)
qed

lemma st_set_bytes_at:
  assumes "i < 8 * n" and "n \<le> 2 ^ 64"
  shows "st_set (bytes_at m a n) i v = bytes_at (raw_set_bit m a i v) a n"
proof (rule nth_equalityI)
  fix k
  assume "k < length (st_set (bytes_at m a n) i v)"
  then have k: "k < n"
    by (simp add: st_set_def)
  have i: "i div 8 < n"
    using assms(1) by (simp add: less_mult_imp_div_less mult.commute)
  then have "(of_nat k :: addr) = of_nat (i div 8) \<longleftrightarrow> k = i div 8"
    using k assms(2) unat_of_nat_64 by (metis le_trans less_le_trans)
  then show "st_set (bytes_at m a n) i v ! k = bytes_at (raw_set_bit m a i v) a n ! k"
    using k i by (simp add: st_set_def raw_set_bit_def bytes_at_def nth_list_update Let_def)
qed (simp add: st_set_def)

lemma raw_set_bits_bytes_at:
  assumes "\<And>i. i \<in> set is \<Longrightarrow> i + off < 8 * n" and "n \<le> 2 ^ 64"
  shows "foldl (\<lambda>s i. st_set s (i + off) (f i)) (bytes_at m a n) is
    = bytes_at (foldl (\<lambda>m i. raw_set_bit m a (i + off) (f i)) m is) a n"
  using assms(1)
proof (induction "is" arbitrary: m)
  case (Cons i "is")
  have "i + off < 8 * n"
    by (rule Cons.prems) simp
  from st_set_bytes_at [OF this assms(2)] show ?case
    using Cons.IH Cons.prems by simp
qed simp

lemma raw_set_bits_other:
  assumes "\<And>i. i \<in> set is \<Longrightarrow> i + off < 8 * n" and "x \<notin> (\<lambda>k. a + of_nat k) ` {..<n}"
  shows "foldl (\<lambda>m i. raw_set_bit m a (i + off) (f i)) m is x = m x"
  using assms(1)
proof (induction "is" arbitrary: m)
  case (Cons i "is")
  have "(i + off) div 8 < n"
    using Cons.prems [of i] by (simp add: less_mult_imp_div_less mult.commute)
  then have "x \<noteq> a + of_nat ((i + off) div 8)"
    using assms(2) by blast
  then show ?case
    using Cons by (simp add: raw_set_bit_def Let_def)
qed simp

lemma raw_set_bytes_at:
  assumes "off + w \<le> 8 * n" and "w \<le> 64" and "n \<le> 2 ^ 64"
  shows "bf_set (bytes_at m a n) off w v = Inr (bytes_at (raw_set m a off w v) a n)"
    and "x \<notin> (\<lambda>k. a + of_nat k) ` {..<n} \<Longrightarrow> raw_set m a off w v x = m x"
proof -
  have in_unit: "\<And>i. i \<in> set [0..<w] \<Longrightarrow> i + off < 8 * n"
    using assms(1) by simp
  show "bf_set (bytes_at m a n) off w v = Inr (bytes_at (raw_set m a off w v) a n)"
    using assms raw_set_bits_bytes_at [OF in_unit assms(3), of "[0..<w]"]
    by (simp add: bf_set_in_bounds raw_set_eq)
  show "x \<notin> (\<lambda>k. a + of_nat k) ` {..<n} \<Longrightarrow> raw_set m a off w v x = m x"
    using raw_set_bits_other [OF in_unit, of "[0..<w]"] assms(2) by (simp add: raw_set_eq)
qed

text \<open>The fields of a unit by offset and width: in ascending order, without gap or overlap.\<close>

fun tiles :: "nat \<Rightarrow> (nat \<times> nat) list \<Rightarrow> nat \<Rightarrow> bool" where
  "tiles pos [] end_pos \<longleftrightarrow> pos = end_pos"
| "tiles pos ((off, w) # fs) end_pos \<longleftrightarrow> off = pos \<and> 0 < w \<and> tiles (off + w) fs end_pos"

lemma tiles_le: "tiles pos fs e \<Longrightarrow> pos \<le> e \<and> (\<forall>(off, w) \<in> set fs. pos \<le> off \<and> off + w \<le> e)"
  by (induction pos fs e rule: tiles.induct) fastforce+

lemma tiles_sum: "tiles pos fs e \<Longrightarrow> pos + sum_list (map snd fs) = e"
  by (induction pos fs e rule: tiles.induct) auto

lemma tiles_apart:
  assumes "tiles pos fs e" and "(off, w) \<in> set fs" and "(off', w') \<in> set fs" and "off' \<noteq> off"
  shows "off + w \<le> off' \<or> off' + w' \<le> off"
  using assms
proof (induction pos fs e rule: tiles.induct)
  case (2 pos off0 w0 fs e)
  then have "\<And>o1 w1. (o1, w1) \<in> set fs \<Longrightarrow> off0 + w0 \<le> o1"
    using tiles_le [of "off0 + w0" fs e] by fastforce
  then show ?case
    using 2 by auto
qed simp

theorem std_unit_ok:
  assumes "tiles 0 fs (8 * n)" and "n \<le> 8" and "LENGTH('a) \<le> 64"
  shows "unit_ok n pos (map (std_accessors pos) fs :: 'a::len word accessors list)"
proof -
  have fits: "off + w \<le> 8 * n" "w \<le> 64" if "(off, w) \<in> set fs" for off w
    using tiles_le [OF assms(1)] that assms(2) by auto
  have "sum_list (map snd fs) = 8 * n"
    using tiles_sum [OF assms(1)] by simp
  then have sum: "sum_list (map ac_width (map (std_accessors pos :: _ \<Rightarrow> 'a word accessors) fs)) = 8 * n"
    by (simp add: std_accessors_def comp_def)
  have set_get: "\<exists>st'. ac_set (std_accessors pos f) v st = Inr st' \<and> length st' = n
      \<and> ac_get (std_accessors pos f) st' = Inr (take_bit (snd f) v)
      \<and> (\<forall>b \<in> set fs. fst b \<noteq> fst f \<longrightarrow>
            ac_get (std_accessors pos b) st' = (ac_get (std_accessors pos b) st :: 'a word res))"
    if f: "f \<in> set fs" and st: "length st = n" for f st and v :: "'a word"
  proof -
    obtain off w where ow: "f = (off, w)"
      by (cases f)
    then have b: "off + w \<le> 8 * length st" "w \<le> 64"
      using fits f st by simp_all
    obtain st' where st': "bf_set st off w (ucast v) = Inr st'" "length st' = length st"
      "bf_get st' off w = Inr (take_bit w (ucast v))"
      "\<forall>off' w'. off' + w' \<le> 8 * length st \<longrightarrow> w' \<le> 64 \<longrightarrow>
         off + w \<le> off' \<or> off' + w' \<le> off \<longrightarrow> bf_get st' off' w' = bf_get st off' w'"
      using bf_get_set_same [OF b, of "ucast v"] by blast
    have "bf_get st' (fst b) (snd b) = bf_get st (fst b) (snd b)"
      if "b \<in> set fs" "fst b \<noteq> off" for b
    proof -
      have "fst b + snd b \<le> 8 * length st" "snd b \<le> 64"
        "off + w \<le> fst b \<or> fst b + snd b \<le> off"
        using fits [of "fst b" "snd b"] tiles_apart [OF assms(1), of off w "fst b" "snd b"]
          that f ow st by simp_all
      then show ?thesis
        using st'(4) by blast
    qed
    then show ?thesis
      using st' st ow assms(3) by (simp add: std_accessors_def ucast_take_bit_ucast)
  qed
  have n: "n \<le> 2 ^ 64"
    using assms(2) by simp
  note raw = bf_get_bytes_at [OF fits(1)] raw_set_bytes_at [OF fits n]
  have "raw_ok n pos (map (std_accessors pos) fs :: 'a word accessors list)"
    unfolding raw_ok_def
    by (auto simp: std_accessors_def raw)
  then show ?thesis
    using sum set_get by (auto simp: unit_ok_def storage_ok_def std_accessors_def)
qed

section \<open>The generated accessors\<close>

subsection \<open>\<^verbatim>\<open>jl_ucontext_t\<close>\<close>

definition set_ucontext_copy_stack :: "u32 \<Rightarrow> bitfield \<Rightarrow> bitfield res" where
  "set_ucontext_copy_stack val st = bf_set st 0 31 (ucast val)"

definition ucontext_copy_stack_raw :: "memory \<Rightarrow> addr \<Rightarrow> u32" where
  "ucontext_copy_stack_raw m this =
     ucast (raw_get m (this + offset_of jl_ucontext_fields ''_bitfield_1'') 0 31)"

definition set_ucontext_copy_stack_raw :: "memory \<Rightarrow> addr \<Rightarrow> u32 \<Rightarrow> memory" where
  "set_ucontext_copy_stack_raw m this val =
     raw_set m (this + offset_of jl_ucontext_fields ''_bitfield_1'') 0 31 (ucast val)"

definition set_ucontext_started :: "u32 \<Rightarrow> bitfield \<Rightarrow> bitfield res" where
  "set_ucontext_started val st = bf_set st 31 1 (ucast val)"

definition ucontext_started_raw :: "memory \<Rightarrow> addr \<Rightarrow> u32" where
  "ucontext_started_raw m this =
     ucast (raw_get m (this + offset_of jl_ucontext_fields ''_bitfield_1'') 31 1)"

definition set_ucontext_started_raw :: "memory \<Rightarrow> addr \<Rightarrow> u32 \<Rightarrow> memory" where
  "set_ucontext_started_raw m this val =
     raw_set m (this + offset_of jl_ucontext_fields ''_bitfield_1'') 31 1 (ucast val)"

definition ucontext_unit :: "u32 accessors list" where
  "ucontext_unit =
    [\<lparr>ac_offset = 0, ac_width = 31, ac_get = copy_stack, ac_set = set_ucontext_copy_stack,
      ac_raw_get = ucontext_copy_stack_raw, ac_raw_set = set_ucontext_copy_stack_raw\<rparr>,
     \<lparr>ac_offset = 31, ac_width = 1, ac_get = started, ac_set = set_ucontext_started,
      ac_raw_get = ucontext_started_raw, ac_raw_set = set_ucontext_started_raw\<rparr>]"

subsection \<open>\<^verbatim>\<open>_jl_taggedvalue_bits\<close>\<close>

definition tagbits_gc :: "bitfield \<Rightarrow> usize res" where
  "tagbits_gc st = rbind (bf_get st 0 2) (\<lambda>v. Inr (ucast v))"

definition set_tagbits_gc :: "usize \<Rightarrow> bitfield \<Rightarrow> bitfield res" where
  "set_tagbits_gc val st = bf_set st 0 2 (ucast val)"

definition tagbits_gc_raw :: "memory \<Rightarrow> addr \<Rightarrow> usize" where
  "tagbits_gc_raw m this =
     ucast (raw_get m (this + offset_of jl_taggedvalue_bits_fields ''_bitfield_1'') 0 2)"

definition set_tagbits_gc_raw :: "memory \<Rightarrow> addr \<Rightarrow> usize \<Rightarrow> memory" where
  "set_tagbits_gc_raw m this val =
     raw_set m (this + offset_of jl_taggedvalue_bits_fields ''_bitfield_1'') 0 2 (ucast val)"

definition tagbits_in_image :: "bitfield \<Rightarrow> usize res" where
  "tagbits_in_image st = rbind (bf_get st 2 1) (\<lambda>v. Inr (ucast v))"

definition set_tagbits_in_image :: "usize \<Rightarrow> bitfield \<Rightarrow> bitfield res" where
  "set_tagbits_in_image val st = bf_set st 2 1 (ucast val)"

definition tagbits_in_image_raw :: "memory \<Rightarrow> addr \<Rightarrow> usize" where
  "tagbits_in_image_raw m this =
     ucast (raw_get m (this + offset_of jl_taggedvalue_bits_fields ''_bitfield_1'') 2 1)"

definition set_tagbits_in_image_raw :: "memory \<Rightarrow> addr \<Rightarrow> usize \<Rightarrow> memory" where
  "set_tagbits_in_image_raw m this val =
     raw_set m (this + offset_of jl_taggedvalue_bits_fields ''_bitfield_1'') 2 1 (ucast val)"

definition tagbits_unused :: "bitfield \<Rightarrow> usize res" where
  "tagbits_unused st = rbind (bf_get st 3 1) (\<lambda>v. Inr (ucast v))"

definition set_tagbits_unused :: "usize \<Rightarrow> bitfield \<Rightarrow> bitfield res" where
  "set_tagbits_unused val st = bf_set st 3 1 (ucast val)"

definition tagbits_unused_raw :: "memory \<Rightarrow> addr \<Rightarrow> usize" where
  "tagbits_unused_raw m this =
     ucast (raw_get m (this + offset_of jl_taggedvalue_bits_fields ''_bitfield_1'') 3 1)"

definition set_tagbits_unused_raw :: "memory \<Rightarrow> addr \<Rightarrow> usize \<Rightarrow> memory" where
  "set_tagbits_unused_raw m this val =
     raw_set m (this + offset_of jl_taggedvalue_bits_fields ''_bitfield_1'') 3 1 (ucast val)"

definition tagbits_tag :: "bitfield \<Rightarrow> usize res" where
  "tagbits_tag st = rbind (bf_get st 4 60) (\<lambda>v. Inr (ucast v))"

definition set_tagbits_tag :: "usize \<Rightarrow> bitfield \<Rightarrow> bitfield res" where
  "set_tagbits_tag val st = bf_set st 4 60 (ucast val)"

definition tagbits_tag_raw :: "memory \<Rightarrow> addr \<Rightarrow> usize" where
  "tagbits_tag_raw m this =
     ucast (raw_get m (this + offset_of jl_taggedvalue_bits_fields ''_bitfield_1'') 4 60)"

definition set_tagbits_tag_raw :: "memory \<Rightarrow> addr \<Rightarrow> usize \<Rightarrow> memory" where
  "set_tagbits_tag_raw m this val =
     raw_set m (this + offset_of jl_taggedvalue_bits_fields ''_bitfield_1'') 4 60 (ucast val)"

definition tagbits_new_bitfield :: "usize \<Rightarrow> usize \<Rightarrow> usize \<Rightarrow> usize \<Rightarrow> bitfield res" where
  "tagbits_new_bitfield gc_bits in_image unused tg =
     set_fields [(0, 2, ucast gc_bits), (2, 1, ucast in_image), (3, 1, ucast unused), (4, 60, ucast tg)] (replicate 8 0)"

definition tagbits_unit :: "usize accessors list" where
  "tagbits_unit =
    [\<lparr>ac_offset = 0, ac_width = 2, ac_get = tagbits_gc, ac_set = set_tagbits_gc,
      ac_raw_get = tagbits_gc_raw, ac_raw_set = set_tagbits_gc_raw\<rparr>,
     \<lparr>ac_offset = 2, ac_width = 1, ac_get = tagbits_in_image, ac_set = set_tagbits_in_image,
      ac_raw_get = tagbits_in_image_raw, ac_raw_set = set_tagbits_in_image_raw\<rparr>,
     \<lparr>ac_offset = 3, ac_width = 1, ac_get = tagbits_unused, ac_set = set_tagbits_unused,
      ac_raw_get = tagbits_unused_raw, ac_raw_set = set_tagbits_unused_raw\<rparr>,
     \<lparr>ac_offset = 4, ac_width = 60, ac_get = tagbits_tag, ac_set = set_tagbits_tag,
      ac_raw_get = tagbits_tag_raw, ac_raw_set = set_tagbits_tag_raw\<rparr>]"

subsection \<open>\<^verbatim>\<open>jl_typename_t\<close>\<close>

definition typename_abstract :: "bitfield \<Rightarrow> u8 res" where
  "typename_abstract st = rbind (bf_get st 0 1) (\<lambda>v. Inr (ucast v))"

definition set_typename_abstract :: "u8 \<Rightarrow> bitfield \<Rightarrow> bitfield res" where
  "set_typename_abstract val st = bf_set st 0 1 (ucast val)"

definition typename_abstract_raw :: "memory \<Rightarrow> addr \<Rightarrow> u8" where
  "typename_abstract_raw m this =
     ucast (raw_get m (this + offset_of jl_typename_fields ''_bitfield_1'') 0 1)"

definition set_typename_abstract_raw :: "memory \<Rightarrow> addr \<Rightarrow> u8 \<Rightarrow> memory" where
  "set_typename_abstract_raw m this val =
     raw_set m (this + offset_of jl_typename_fields ''_bitfield_1'') 0 1 (ucast val)"

definition typename_mutabl :: "bitfield \<Rightarrow> u8 res" where
  "typename_mutabl st = rbind (bf_get st 1 1) (\<lambda>v. Inr (ucast v))"

definition set_typename_mutabl :: "u8 \<Rightarrow> bitfield \<Rightarrow> bitfield res" where
  "set_typename_mutabl val st = bf_set st 1 1 (ucast val)"

definition typename_mutabl_raw :: "memory \<Rightarrow> addr \<Rightarrow> u8" where
  "typename_mutabl_raw m this =
     ucast (raw_get m (this + offset_of jl_typename_fields ''_bitfield_1'') 1 1)"

definition set_typename_mutabl_raw :: "memory \<Rightarrow> addr \<Rightarrow> u8 \<Rightarrow> memory" where
  "set_typename_mutabl_raw m this val =
     raw_set m (this + offset_of jl_typename_fields ''_bitfield_1'') 1 1 (ucast val)"

definition typename_mayinlinealloc :: "bitfield \<Rightarrow> u8 res" where
  "typename_mayinlinealloc st = rbind (bf_get st 2 1) (\<lambda>v. Inr (ucast v))"

definition set_typename_mayinlinealloc :: "u8 \<Rightarrow> bitfield \<Rightarrow> bitfield res" where
  "set_typename_mayinlinealloc val st = bf_set st 2 1 (ucast val)"

definition typename_mayinlinealloc_raw :: "memory \<Rightarrow> addr \<Rightarrow> u8" where
  "typename_mayinlinealloc_raw m this =
     ucast (raw_get m (this + offset_of jl_typename_fields ''_bitfield_1'') 2 1)"

definition set_typename_mayinlinealloc_raw :: "memory \<Rightarrow> addr \<Rightarrow> u8 \<Rightarrow> memory" where
  "set_typename_mayinlinealloc_raw m this val =
     raw_set m (this + offset_of jl_typename_fields ''_bitfield_1'') 2 1 (ucast val)"

definition typename_unused :: "bitfield \<Rightarrow> u8 res" where
  "typename_unused st = rbind (bf_get st 3 5) (\<lambda>v. Inr (ucast v))"

definition set_typename_unused :: "u8 \<Rightarrow> bitfield \<Rightarrow> bitfield res" where
  "set_typename_unused val st = bf_set st 3 5 (ucast val)"

definition typename_unused_raw :: "memory \<Rightarrow> addr \<Rightarrow> u8" where
  "typename_unused_raw m this =
     ucast (raw_get m (this + offset_of jl_typename_fields ''_bitfield_1'') 3 5)"

definition set_typename_unused_raw :: "memory \<Rightarrow> addr \<Rightarrow> u8 \<Rightarrow> memory" where
  "set_typename_unused_raw m this val =
     raw_set m (this + offset_of jl_typename_fields ''_bitfield_1'') 3 5 (ucast val)"

definition typename_new_bitfield :: "u8 \<Rightarrow> u8 \<Rightarrow> u8 \<Rightarrow> u8 \<Rightarrow> bitfield res" where
  "typename_new_bitfield abstr mutabl mayinlinealloc unused =
     set_fields [(0, 1, ucast abstr), (1, 1, ucast mutabl), (2, 1, ucast mayinlinealloc), (3, 5, ucast unused)] (replicate 1 0)"

definition typename_unit :: "u8 accessors list" where
  "typename_unit =
    [\<lparr>ac_offset = 0, ac_width = 1, ac_get = typename_abstract, ac_set = set_typename_abstract,
      ac_raw_get = typename_abstract_raw, ac_raw_set = set_typename_abstract_raw\<rparr>,
     \<lparr>ac_offset = 1, ac_width = 1, ac_get = typename_mutabl, ac_set = set_typename_mutabl,
      ac_raw_get = typename_mutabl_raw, ac_raw_set = set_typename_mutabl_raw\<rparr>,
     \<lparr>ac_offset = 2, ac_width = 1, ac_get = typename_mayinlinealloc, ac_set = set_typename_mayinlinealloc,
      ac_raw_get = typename_mayinlinealloc_raw, ac_raw_set = set_typename_mayinlinealloc_raw\<rparr>,
     \<lparr>ac_offset = 3, ac_width = 5, ac_get = typename_unused, ac_set = set_typename_unused,
      ac_raw_get = typename_unused_raw, ac_raw_set = set_typename_unused_raw\<rparr>]"

subsection \<open>\<^verbatim>\<open>jl_datatype_layout_t__bindgen_ty_1\<close>\<close>

definition set_layout_haspadding :: "u16 \<Rightarrow> bitfield \<Rightarrow> bitfield res" where
  "set_layout_haspadding val st = bf_set st 0 1 (ucast val)"

definition layout_haspadding_raw :: "memory \<Rightarrow> addr \<Rightarrow> u16" where
  "layout_haspadding_raw m this =
     ucast (raw_get m (this + offset_of jl_datatype_layout_anon_fields ''_bitfield_1'') 0 1)"

definition set_layout_haspadding_raw :: "memory \<Rightarrow> addr \<Rightarrow> u16 \<Rightarrow> memory" where
  "set_layout_haspadding_raw m this val =
     raw_set m (this + offset_of jl_datatype_layout_anon_fields ''_bitfield_1'') 0 1 (ucast val)"

definition set_layout_fielddesc_type :: "u16 \<Rightarrow> bitfield \<Rightarrow> bitfield res" where
  "set_layout_fielddesc_type val st = bf_set st 1 2 (ucast val)"

definition layout_fielddesc_type_raw :: "memory \<Rightarrow> addr \<Rightarrow> u16" where
  "layout_fielddesc_type_raw m this =
     ucast (raw_get m (this + offset_of jl_datatype_layout_anon_fields ''_bitfield_1'') 1 2)"

definition set_layout_fielddesc_type_raw :: "memory \<Rightarrow> addr \<Rightarrow> u16 \<Rightarrow> memory" where
  "set_layout_fielddesc_type_raw m this val =
     raw_set m (this + offset_of jl_datatype_layout_anon_fields ''_bitfield_1'') 1 2 (ucast val)"

definition set_layout_arrayelem_isboxed :: "u16 \<Rightarrow> bitfield \<Rightarrow> bitfield res" where
  "set_layout_arrayelem_isboxed val st = bf_set st 3 1 (ucast val)"

definition layout_arrayelem_isboxed_raw :: "memory \<Rightarrow> addr \<Rightarrow> u16" where
  "layout_arrayelem_isboxed_raw m this =
     ucast (raw_get m (this + offset_of jl_datatype_layout_anon_fields ''_bitfield_1'') 3 1)"

definition set_layout_arrayelem_isboxed_raw :: "memory \<Rightarrow> addr \<Rightarrow> u16 \<Rightarrow> memory" where
  "set_layout_arrayelem_isboxed_raw m this val =
     raw_set m (this + offset_of jl_datatype_layout_anon_fields ''_bitfield_1'') 3 1 (ucast val)"

definition set_layout_arrayelem_isunion :: "u16 \<Rightarrow> bitfield \<Rightarrow> bitfield res" where
  "set_layout_arrayelem_isunion val st = bf_set st 4 1 (ucast val)"

definition layout_arrayelem_isunion_raw :: "memory \<Rightarrow> addr \<Rightarrow> u16" where
  "layout_arrayelem_isunion_raw m this =
     ucast (raw_get m (this + offset_of jl_datatype_layout_anon_fields ''_bitfield_1'') 4 1)"

definition set_layout_arrayelem_isunion_raw :: "memory \<Rightarrow> addr \<Rightarrow> u16 \<Rightarrow> memory" where
  "set_layout_arrayelem_isunion_raw m this val =
     raw_set m (this + offset_of jl_datatype_layout_anon_fields ''_bitfield_1'') 4 1 (ucast val)"

definition set_layout_arrayelem_isatomic :: "u16 \<Rightarrow> bitfield \<Rightarrow> bitfield res" where
  "set_layout_arrayelem_isatomic val st = bf_set st 5 1 (ucast val)"

definition layout_arrayelem_isatomic_raw :: "memory \<Rightarrow> addr \<Rightarrow> u16" where
  "layout_arrayelem_isatomic_raw m this =
     ucast (raw_get m (this + offset_of jl_datatype_layout_anon_fields ''_bitfield_1'') 5 1)"

definition set_layout_arrayelem_isatomic_raw :: "memory \<Rightarrow> addr \<Rightarrow> u16 \<Rightarrow> memory" where
  "set_layout_arrayelem_isatomic_raw m this val =
     raw_set m (this + offset_of jl_datatype_layout_anon_fields ''_bitfield_1'') 5 1 (ucast val)"

definition set_layout_arrayelem_islocked :: "u16 \<Rightarrow> bitfield \<Rightarrow> bitfield res" where
  "set_layout_arrayelem_islocked val st = bf_set st 6 1 (ucast val)"

definition layout_arrayelem_islocked_raw :: "memory \<Rightarrow> addr \<Rightarrow> u16" where
  "layout_arrayelem_islocked_raw m this =
     ucast (raw_get m (this + offset_of jl_datatype_layout_anon_fields ''_bitfield_1'') 6 1)"

definition set_layout_arrayelem_islocked_raw :: "memory \<Rightarrow> addr \<Rightarrow> u16 \<Rightarrow> memory" where
  "set_layout_arrayelem_islocked_raw m this val =
     raw_set m (this + offset_of jl_datatype_layout_anon_fields ''_bitfield_1'') 6 1 (ucast val)"

definition set_layout_isbitsegal :: "u16 \<Rightarrow> bitfield \<Rightarrow> bitfield res" where
  "set_layout_isbitsegal val st = bf_set st 7 1 (ucast val)"

definition layout_isbitsegal_raw :: "memory \<Rightarrow> addr \<Rightarrow> u16" where
  "layout_isbitsegal_raw m this =
     ucast (raw_get m (this + offset_of jl_datatype_layout_anon_fields ''_bitfield_1'') 7 1)"

definition set_layout_isbitsegal_raw :: "memory \<Rightarrow> addr \<Rightarrow> u16 \<Rightarrow> memory" where
  "set_layout_isbitsegal_raw m this val =
     raw_set m (this + offset_of jl_datatype_layout_anon_fields ''_bitfield_1'') 7 1 (ucast val)"

definition set_layout_padding :: "u16 \<Rightarrow> bitfield \<Rightarrow> bitfield res" where
  "set_layout_padding val st = bf_set st 8 8 (ucast val)"

definition layout_padding_raw :: "memory \<Rightarrow> addr \<Rightarrow> u16" where
  "layout_padding_raw m this =
     ucast (raw_get m (this + offset_of jl_datatype_layout_anon_fields ''_bitfield_1'') 8 8)"

definition set_layout_padding_raw :: "memory \<Rightarrow> addr \<Rightarrow> u16 \<Rightarrow> memory" where
  "set_layout_padding_raw m this val =
     raw_set m (this + offset_of jl_datatype_layout_anon_fields ''_bitfield_1'') 8 8 (ucast val)"

definition layout_unit :: "u16 accessors list" where
  "layout_unit =
    [\<lparr>ac_offset = 0, ac_width = 1, ac_get = layout_haspadding, ac_set = set_layout_haspadding,
      ac_raw_get = layout_haspadding_raw, ac_raw_set = set_layout_haspadding_raw\<rparr>,
     \<lparr>ac_offset = 1, ac_width = 2, ac_get = fielddesc_type, ac_set = set_layout_fielddesc_type,
      ac_raw_get = layout_fielddesc_type_raw, ac_raw_set = set_layout_fielddesc_type_raw\<rparr>,
     \<lparr>ac_offset = 3, ac_width = 1, ac_get = arrayelem_isboxed, ac_set = set_layout_arrayelem_isboxed,
      ac_raw_get = layout_arrayelem_isboxed_raw, ac_raw_set = set_layout_arrayelem_isboxed_raw\<rparr>,
     \<lparr>ac_offset = 4, ac_width = 1, ac_get = arrayelem_isunion, ac_set = set_layout_arrayelem_isunion,
      ac_raw_get = layout_arrayelem_isunion_raw, ac_raw_set = set_layout_arrayelem_isunion_raw\<rparr>,
     \<lparr>ac_offset = 5, ac_width = 1, ac_get = arrayelem_isatomic, ac_set = set_layout_arrayelem_isatomic,
      ac_raw_get = layout_arrayelem_isatomic_raw, ac_raw_set = set_layout_arrayelem_isatomic_raw\<rparr>,
     \<lparr>ac_offset = 6, ac_width = 1, ac_get = arrayelem_islocked, ac_set = set_layout_arrayelem_islocked,
      ac_raw_get = layout_arrayelem_islocked_raw, ac_raw_set = set_layout_arrayelem_islocked_raw\<rparr>,
     \<lparr>ac_offset = 7, ac_width = 1, ac_get = layout_isbitsegal, ac_set = set_layout_isbitsegal,
      ac_raw_get = layout_isbitsegal_raw, ac_raw_set = set_layout_isbitsegal_raw\<rparr>,
     \<lparr>ac_offset = 8, ac_width = 8, ac_get = layout_padding, ac_set = set_layout_padding,
      ac_raw_get = layout_padding_raw, ac_raw_set = set_layout_padding_raw\<rparr>]"

subsection \<open>\<^verbatim>\<open>_jl_datatype_t\<close>\<close>

definition datatype_hasfreetypevars :: "bitfield \<Rightarrow> u16 res" where
  "datatype_hasfreetypevars st = rbind (bf_get st 0 1) (\<lambda>v. Inr (ucast v))"

definition set_datatype_hasfreetypevars :: "u16 \<Rightarrow> bitfield \<Rightarrow> bitfield res" where
  "set_datatype_hasfreetypevars val st = bf_set st 0 1 (ucast val)"

definition datatype_hasfreetypevars_raw :: "memory \<Rightarrow> addr \<Rightarrow> u16" where
  "datatype_hasfreetypevars_raw m this =
     ucast (raw_get m (this + offset_of jl_datatype_fields ''_bitfield_1'') 0 1)"

definition set_datatype_hasfreetypevars_raw :: "memory \<Rightarrow> addr \<Rightarrow> u16 \<Rightarrow> memory" where
  "set_datatype_hasfreetypevars_raw m this val =
     raw_set m (this + offset_of jl_datatype_fields ''_bitfield_1'') 0 1 (ucast val)"

definition datatype_isconcretetype :: "bitfield \<Rightarrow> u16 res" where
  "datatype_isconcretetype st = rbind (bf_get st 1 1) (\<lambda>v. Inr (ucast v))"

definition set_datatype_isconcretetype :: "u16 \<Rightarrow> bitfield \<Rightarrow> bitfield res" where
  "set_datatype_isconcretetype val st = bf_set st 1 1 (ucast val)"

definition datatype_isconcretetype_raw :: "memory \<Rightarrow> addr \<Rightarrow> u16" where
  "datatype_isconcretetype_raw m this =
     ucast (raw_get m (this + offset_of jl_datatype_fields ''_bitfield_1'') 1 1)"

definition set_datatype_isconcretetype_raw :: "memory \<Rightarrow> addr \<Rightarrow> u16 \<Rightarrow> memory" where
  "set_datatype_isconcretetype_raw m this val =
     raw_set m (this + offset_of jl_datatype_fields ''_bitfield_1'') 1 1 (ucast val)"

definition datatype_isdispatchtuple :: "bitfield \<Rightarrow> u16 res" where
  "datatype_isdispatchtuple st = rbind (bf_get st 2 1) (\<lambda>v. Inr (ucast v))"

definition set_datatype_isdispatchtuple :: "u16 \<Rightarrow> bitfield \<Rightarrow> bitfield res" where
  "set_datatype_isdispatchtuple val st = bf_set st 2 1 (ucast val)"

definition datatype_isdispatchtuple_raw :: "memory \<Rightarrow> addr \<Rightarrow> u16" where
  "datatype_isdispatchtuple_raw m this =
     ucast (raw_get m (this + offset_of jl_datatype_fields ''_bitfield_1'') 2 1)"

definition set_datatype_isdispatchtuple_raw :: "memory \<Rightarrow> addr \<Rightarrow> u16 \<Rightarrow> memory" where
  "set_datatype_isdispatchtuple_raw m this val =
     raw_set m (this + offset_of jl_datatype_fields ''_bitfield_1'') 2 1 (ucast val)"

definition datatype_isbitstype :: "bitfield \<Rightarrow> u16 res" where
  "datatype_isbitstype st = rbind (bf_get st 3 1) (\<lambda>v. Inr (ucast v))"

definition set_datatype_isbitstype :: "u16 \<Rightarrow> bitfield \<Rightarrow> bitfield res" where
  "set_datatype_isbitstype val st = bf_set st 3 1 (ucast val)"

definition datatype_isbitstype_raw :: "memory \<Rightarrow> addr \<Rightarrow> u16" where
  "datatype_isbitstype_raw m this =
     ucast (raw_get m (this + offset_of jl_datatype_fields ''_bitfield_1'') 3 1)"

definition set_datatype_isbitstype_raw :: "memory \<Rightarrow> addr \<Rightarrow> u16 \<Rightarrow> memory" where
  "set_datatype_isbitstype_raw m this val =
     raw_set m (this + offset_of jl_datatype_fields ''_bitfield_1'') 3 1 (ucast val)"

definition datatype_zeroinit :: "bitfield \<Rightarrow> u16 res" where
  "datatype_zeroinit st = rbind (bf_get st 4 1) (\<lambda>v. Inr (ucast v))"

definition set_datatype_zeroinit :: "u16 \<Rightarrow> bitfield \<Rightarrow> bitfield res" where
  "set_datatype_zeroinit val st = bf_set st 4 1 (ucast val)"

definition datatype_zeroinit_raw :: "memory \<Rightarrow> addr \<Rightarrow> u16" where
  "datatype_zeroinit_raw m this =
     ucast (raw_get m (this + offset_of jl_datatype_fields ''_bitfield_1'') 4 1)"

definition set_datatype_zeroinit_raw :: "memory \<Rightarrow> addr \<Rightarrow> u16 \<Rightarrow> memory" where
  "set_datatype_zeroinit_raw m this val =
     raw_set m (this + offset_of jl_datatype_fields ''_bitfield_1'') 4 1 (ucast val)"

definition datatype_has_concrete_subtype :: "bitfield \<Rightarrow> u16 res" where
  "datatype_has_concrete_subtype st = rbind (bf_get st 5 1) (\<lambda>v. Inr (ucast v))"

definition set_datatype_has_concrete_subtype :: "u16 \<Rightarrow> bitfield \<Rightarrow> bitfield res" where
  "set_datatype_has_concrete_subtype val st = bf_set st 5 1 (ucast val)"

definition datatype_has_concrete_subtype_raw :: "memory \<Rightarrow> addr \<Rightarrow> u16" where
  "datatype_has_concrete_subtype_raw m this =
     ucast (raw_get m (this + offset_of jl_datatype_fields ''_bitfield_1'') 5 1)"

definition set_datatype_has_concrete_subtype_raw :: "memory \<Rightarrow> addr \<Rightarrow> u16 \<Rightarrow> memory" where
  "set_datatype_has_concrete_subtype_raw m this val =
     raw_set m (this + offset_of jl_datatype_fields ''_bitfield_1'') 5 1 (ucast val)"

definition datatype_maybe_subtype_of_cache :: "bitfield \<Rightarrow> u16 res" where
  "datatype_maybe_subtype_of_cache st = rbind (bf_get st 6 1) (\<lambda>v. Inr (ucast v))"

definition set_datatype_maybe_subtype_of_cache :: "u16 \<Rightarrow> bitfield \<Rightarrow> bitfield res" where
  "set_datatype_maybe_subtype_of_cache val st = bf_set st 6 1 (ucast val)"

definition datatype_maybe_subtype_of_cache_raw :: "memory \<Rightarrow> addr \<Rightarrow> u16" where
  "datatype_maybe_subtype_of_cache_raw m this =
     ucast (raw_get m (this + offset_of jl_datatype_fields ''_bitfield_1'') 6 1)"

definition set_datatype_maybe_subtype_of_cache_raw :: "memory \<Rightarrow> addr \<Rightarrow> u16 \<Rightarrow> memory" where
  "set_datatype_maybe_subtype_of_cache_raw m this val =
     raw_set m (this + offset_of jl_datatype_fields ''_bitfield_1'') 6 1 (ucast val)"

definition datatype_isprimitivetype :: "bitfield \<Rightarrow> u16 res" where
  "datatype_isprimitivetype st = rbind (bf_get st 7 1) (\<lambda>v. Inr (ucast v))"

definition set_datatype_isprimitivetype :: "u16 \<Rightarrow> bitfield \<Rightarrow> bitfield res" where
  "set_datatype_isprimitivetype val st = bf_set st 7 1 (ucast val)"

definition datatype_isprimitivetype_raw :: "memory \<Rightarrow> addr \<Rightarrow> u16" where
  "datatype_isprimitivetype_raw m this =
     ucast (raw_get m (this + offset_of jl_datatype_fields ''_bitfield_1'') 7 1)"

definition set_datatype_isprimitivetype_raw :: "memory \<Rightarrow> addr \<Rightarrow> u16 \<Rightarrow> memory" where
  "set_datatype_isprimitivetype_raw m this val =
     raw_set m (this + offset_of jl_datatype_fields ''_bitfield_1'') 7 1 (ucast val)"

definition datatype_ismutationfree :: "bitfield \<Rightarrow> u16 res" where
  "datatype_ismutationfree st = rbind (bf_get st 8 1) (\<lambda>v. Inr (ucast v))"

definition set_datatype_ismutationfree :: "u16 \<Rightarrow> bitfield \<Rightarrow> bitfield res" where
  "set_datatype_ismutationfree val st = bf_set st 8 1 (ucast val)"

definition datatype_ismutationfree_raw :: "memory \<Rightarrow> addr \<Rightarrow> u16" where
  "datatype_ismutationfree_raw m this =
     ucast (raw_get m (this + offset_of jl_datatype_fields ''_bitfield_1'') 8 1)"

definition set_datatype_ismutationfree_raw :: "memory \<Rightarrow> addr \<Rightarrow> u16 \<Rightarrow> memory" where
  "set_datatype_ismutationfree_raw m this val =
     raw_set m (this + offset_of jl_datatype_fields ''_bitfield_1'') 8 1 (ucast val)"

definition datatype_isidentityfree :: "bitfield \<Rightarrow> u16 res" where
  "datatype_isidentityfree st = rbind (bf_get st 9 1) (\<lambda>v. Inr (ucast v))"

definition set_datatype_isidentityfree :: "u16 \<Rightarrow> bitfield \<Rightarrow> bitfield res" where
  "set_datatype_isidentityfree val st = bf_set st 9 1 (ucast val)"

definition datatype_isidentityfree_raw :: "memory \<Rightarrow> addr \<Rightarrow> u16" where
  "datatype_isidentityfree_raw m this =
     ucast (raw_get m (this + offset_of jl_datatype_fields ''_bitfield_1'') 9 1)"

definition set_datatype_isidentityfree_raw :: "memory \<Rightarrow> addr \<Rightarrow> u16 \<Rightarrow> memory" where
  "set_datatype_isidentityfree_raw m this val =
     raw_set m (this + offset_of jl_datatype_fields ''_bitfield_1'') 9 1 (ucast val)"

definition set_datatype_smalltag :: "u16 \<Rightarrow> bitfield \<Rightarrow> bitfield res" where
  "set_datatype_smalltag val st = bf_set st 10 6 (ucast val)"

definition datatype_smalltag_raw :: "memory \<Rightarrow> addr \<Rightarrow> u16" where
  "datatype_smalltag_raw m this =
     ucast (raw_get m (this + offset_of jl_datatype_fields ''_bitfield_1'') 10 6)"

definition set_datatype_smalltag_raw :: "memory \<Rightarrow> addr \<Rightarrow> u16 \<Rightarrow> memory" where
  "set_datatype_smalltag_raw m this val =
     raw_set m (this + offset_of jl_datatype_fields ''_bitfield_1'') 10 6 (ucast val)"

definition datatype_unit :: "u16 accessors list" where
  "datatype_unit =
    [\<lparr>ac_offset = 0, ac_width = 1, ac_get = datatype_hasfreetypevars, ac_set = set_datatype_hasfreetypevars,
      ac_raw_get = datatype_hasfreetypevars_raw, ac_raw_set = set_datatype_hasfreetypevars_raw\<rparr>,
     \<lparr>ac_offset = 1, ac_width = 1, ac_get = datatype_isconcretetype, ac_set = set_datatype_isconcretetype,
      ac_raw_get = datatype_isconcretetype_raw, ac_raw_set = set_datatype_isconcretetype_raw\<rparr>,
     \<lparr>ac_offset = 2, ac_width = 1, ac_get = datatype_isdispatchtuple, ac_set = set_datatype_isdispatchtuple,
      ac_raw_get = datatype_isdispatchtuple_raw, ac_raw_set = set_datatype_isdispatchtuple_raw\<rparr>,
     \<lparr>ac_offset = 3, ac_width = 1, ac_get = datatype_isbitstype, ac_set = set_datatype_isbitstype,
      ac_raw_get = datatype_isbitstype_raw, ac_raw_set = set_datatype_isbitstype_raw\<rparr>,
     \<lparr>ac_offset = 4, ac_width = 1, ac_get = datatype_zeroinit, ac_set = set_datatype_zeroinit,
      ac_raw_get = datatype_zeroinit_raw, ac_raw_set = set_datatype_zeroinit_raw\<rparr>,
     \<lparr>ac_offset = 5, ac_width = 1, ac_get = datatype_has_concrete_subtype, ac_set = set_datatype_has_concrete_subtype,
      ac_raw_get = datatype_has_concrete_subtype_raw, ac_raw_set = set_datatype_has_concrete_subtype_raw\<rparr>,
     \<lparr>ac_offset = 6, ac_width = 1, ac_get = datatype_maybe_subtype_of_cache, ac_set = set_datatype_maybe_subtype_of_cache,
      ac_raw_get = datatype_maybe_subtype_of_cache_raw, ac_raw_set = set_datatype_maybe_subtype_of_cache_raw\<rparr>,
     \<lparr>ac_offset = 7, ac_width = 1, ac_get = datatype_isprimitivetype, ac_set = set_datatype_isprimitivetype,
      ac_raw_get = datatype_isprimitivetype_raw, ac_raw_set = set_datatype_isprimitivetype_raw\<rparr>,
     \<lparr>ac_offset = 8, ac_width = 1, ac_get = datatype_ismutationfree, ac_set = set_datatype_ismutationfree,
      ac_raw_get = datatype_ismutationfree_raw, ac_raw_set = set_datatype_ismutationfree_raw\<rparr>,
     \<lparr>ac_offset = 9, ac_width = 1, ac_get = datatype_isidentityfree, ac_set = set_datatype_isidentityfree,
      ac_raw_get = datatype_isidentityfree_raw, ac_raw_set = set_datatype_isidentityfree_raw\<rparr>,
     \<lparr>ac_offset = 10, ac_width = 6, ac_get = smalltag, ac_set = set_datatype_smalltag,
      ac_raw_get = datatype_smalltag_raw, ac_raw_set = set_datatype_smalltag_raw\<rparr>]"

section \<open>All units\<close>

lemma ucontext_unit_eq:
  "ucontext_unit = map (std_accessors (offset_of jl_ucontext_fields ''_bitfield_1''))
     [(0, 31), (31, 1)]"
  by (simp add: ucontext_unit_def std_accessors_def fun_eq_iff
    set_ucontext_copy_stack_def ucontext_copy_stack_raw_def set_ucontext_copy_stack_raw_def
    set_ucontext_started_def ucontext_started_raw_def set_ucontext_started_raw_def
    copy_stack_def started_def)

lemma tagbits_unit_eq:
  "tagbits_unit = map (std_accessors (offset_of jl_taggedvalue_bits_fields ''_bitfield_1''))
     [(0, 2), (2, 1), (3, 1), (4, 60)]"
  by (simp add: tagbits_unit_def std_accessors_def fun_eq_iff
    tagbits_gc_def set_tagbits_gc_def tagbits_gc_raw_def set_tagbits_gc_raw_def
    tagbits_in_image_def set_tagbits_in_image_def tagbits_in_image_raw_def
    set_tagbits_in_image_raw_def tagbits_unused_def set_tagbits_unused_def
    tagbits_unused_raw_def set_tagbits_unused_raw_def tagbits_tag_def set_tagbits_tag_def
    tagbits_tag_raw_def set_tagbits_tag_raw_def)

lemma typename_unit_eq:
  "typename_unit = map (std_accessors (offset_of jl_typename_fields ''_bitfield_1''))
     [(0, 1), (1, 1), (2, 1), (3, 5)]"
  by (simp add: typename_unit_def std_accessors_def fun_eq_iff
    typename_abstract_def set_typename_abstract_def typename_abstract_raw_def
    set_typename_abstract_raw_def typename_mutabl_def set_typename_mutabl_def
    typename_mutabl_raw_def set_typename_mutabl_raw_def typename_mayinlinealloc_def
    set_typename_mayinlinealloc_def typename_mayinlinealloc_raw_def
    set_typename_mayinlinealloc_raw_def typename_unused_def set_typename_unused_def
    typename_unused_raw_def set_typename_unused_raw_def)

lemma layout_unit_eq:
  "layout_unit = map (std_accessors (offset_of jl_datatype_layout_anon_fields ''_bitfield_1''))
     [(0, 1), (1, 2), (3, 1), (4, 1), (5, 1), (6, 1), (7, 1), (8, 8)]"
  by (simp add: layout_unit_def std_accessors_def fun_eq_iff
    set_layout_haspadding_def layout_haspadding_raw_def set_layout_haspadding_raw_def
    set_layout_fielddesc_type_def layout_fielddesc_type_raw_def
    set_layout_fielddesc_type_raw_def set_layout_arrayelem_isboxed_def
    layout_arrayelem_isboxed_raw_def set_layout_arrayelem_isboxed_raw_def
    set_layout_arrayelem_isunion_def layout_arrayelem_isunion_raw_def
    set_layout_arrayelem_isunion_raw_def set_layout_arrayelem_isatomic_def
    layout_arrayelem_isatomic_raw_def set_layout_arrayelem_isatomic_raw_def
    set_layout_arrayelem_islocked_def layout_arrayelem_islocked_raw_def
    set_layout_arrayelem_islocked_raw_def set_layout_isbitsegal_def layout_isbitsegal_raw_def
    set_layout_isbitsegal_raw_def set_layout_padding_def layout_padding_raw_def
    set_layout_padding_raw_def layout_getter_defs)

lemma datatype_unit_eq:
  "datatype_unit = map (std_accessors (offset_of jl_datatype_fields ''_bitfield_1''))
     [(0, 1), (1, 1), (2, 1), (3, 1), (4, 1), (5, 1), (6, 1), (7, 1), (8, 1), (9, 1), (10, 6)]"
  by (simp add: datatype_unit_def std_accessors_def fun_eq_iff
    datatype_hasfreetypevars_def set_datatype_hasfreetypevars_def
    datatype_hasfreetypevars_raw_def set_datatype_hasfreetypevars_raw_def
    datatype_isconcretetype_def set_datatype_isconcretetype_def datatype_isconcretetype_raw_def
    set_datatype_isconcretetype_raw_def datatype_isdispatchtuple_def
    set_datatype_isdispatchtuple_def datatype_isdispatchtuple_raw_def
    set_datatype_isdispatchtuple_raw_def datatype_isbitstype_def set_datatype_isbitstype_def
    datatype_isbitstype_raw_def set_datatype_isbitstype_raw_def datatype_zeroinit_def
    set_datatype_zeroinit_def datatype_zeroinit_raw_def set_datatype_zeroinit_raw_def
    datatype_has_concrete_subtype_def set_datatype_has_concrete_subtype_def
    datatype_has_concrete_subtype_raw_def set_datatype_has_concrete_subtype_raw_def
    datatype_maybe_subtype_of_cache_def set_datatype_maybe_subtype_of_cache_def
    datatype_maybe_subtype_of_cache_raw_def set_datatype_maybe_subtype_of_cache_raw_def
    datatype_isprimitivetype_def set_datatype_isprimitivetype_def
    datatype_isprimitivetype_raw_def set_datatype_isprimitivetype_raw_def
    datatype_ismutationfree_def set_datatype_ismutationfree_def datatype_ismutationfree_raw_def
    set_datatype_ismutationfree_raw_def datatype_isidentityfree_def
    set_datatype_isidentityfree_def datatype_isidentityfree_raw_def
    set_datatype_isidentityfree_raw_def set_datatype_smalltag_def datatype_smalltag_raw_def
    set_datatype_smalltag_raw_def smalltag_def)

text \<open>
  C28: for each of the five structs with bit fields, the generated accessors of its unit work
  together: setting a field succeeds, its getter returns the value cut to the field's width, every
  other field keeps its value and the fields fill the unit; and the accessors through a pointer
  read and write exactly the unit's bytes, as the accessors on the storage do.
\<close>

theorem bitfield_accessors_ok:
  "unit_ok 4 (offset_of jl_ucontext_fields ''_bitfield_1'') ucontext_unit
    \<and> unit_ok 8 (offset_of jl_taggedvalue_bits_fields ''_bitfield_1'') tagbits_unit
    \<and> unit_ok 1 (offset_of jl_typename_fields ''_bitfield_1'') typename_unit
    \<and> unit_ok 2 (offset_of jl_datatype_layout_anon_fields ''_bitfield_1'') layout_unit
    \<and> unit_ok 2 (offset_of jl_datatype_fields ''_bitfield_1'') datatype_unit"
  unfolding ucontext_unit_eq tagbits_unit_eq typename_unit_eq layout_unit_eq datatype_unit_eq
  by (intro conjI std_unit_ok) simp_all

end
