(* ===== verification/Build_Script.thy ===== *)
theory Build_Script
  imports Prelude
begin

text \<open>
  \<^verbatim>\<open>build.rs\<close>: the program Cargo runs before the crate is compiled, which generates the FFI types
  with bindgen unless they are there. The environment, the file system, \<^verbatim>\<open>make\<close>, bindgen and the
  crate \<^verbatim>\<open>built\<close> are arguments over a state \<open>'s\<close>; what the script asks of them, in which order, and
  where it gives up is the model.
\<close>

section \<open>What the script relies on\<close>

record command =
  cmd_program :: string
  cmd_dir :: string
  cmd_env :: "(string \<times> string) list"
  cmd_args :: "string list"

record bindgen_builder =
  bg_headers :: "string list"
  bg_clang_args :: "string list"
  bg_allowlist :: "string list"
  bg_opaque :: "string list"

text \<open>
  \<open>run\<close> gives \<open>None\<close> when the program cannot be started and its exit status otherwise; \<open>generate\<close>
  the text of the bindings, unless bindgen fails; the writers say whether they succeeded.
\<close>

record 's host =
  path_exists :: "string \<Rightarrow> 's \<Rightarrow> bool"
  run :: "command \<Rightarrow> 's \<Rightarrow> int option \<times> 's"
  generate :: "bindgen_builder \<Rightarrow> 's \<Rightarrow> string option"
  write_to_file :: "string \<Rightarrow> string \<Rightarrow> 's \<Rightarrow> bool \<times> 's"
  write_built_file :: "'s \<Rightarrow> bool \<times> 's"

text \<open>A step ends in a panic or not, and changes the state; after a panic nothing more is done.\<close>

type_synonym 's build_step = "'s \<Rightarrow> fault option \<times> 's"

definition and_then :: "'s build_step \<Rightarrow> 's build_step \<Rightarrow> 's build_step" where
  "and_then f g = (\<lambda>s. case f s of (None, s') \<Rightarrow> g s' | (Some e, s') \<Rightarrow> (Some e, s'))"

definition expect :: "string \<Rightarrow> bool \<times> 's \<Rightarrow> fault option \<times> 's" where
  "expect msg r = (case r of (ok, s) \<Rightarrow> (if ok then None else Some (Panic msg), s))"

section \<open>The script\<close>

definition run_make :: "'s host \<Rightarrow> command \<Rightarrow> 's build_step" where
  "run_make h c s = (case run h c s of (status, s') \<Rightarrow> expect ''failed to execute process'' (status \<noteq> None, s'))"

definition make_julia_version :: "'s host \<Rightarrow> string \<Rightarrow> string \<Rightarrow> 's build_step" where
  "make_julia_version h julia_dir buildroot_dir s =
     (if path_exists h (buildroot_dir @ ''/src/julia_version.h'') s then (None, s)
      else run_make h \<lparr>cmd_program = ''make'', cmd_dir = julia_dir @ ''/src'',
             cmd_env = [(''BUILDDIR'', buildroot_dir)], cmd_args = [''julia_version.h'']\<rparr> s)"

definition make_deps :: "'s host \<Rightarrow> string \<Rightarrow> string \<Rightarrow> 's build_step" where
  "make_deps h julia_dir buildroot_dir s =
     (if path_exists h (buildroot_dir @ ''/usr/include'') s then (None, s)
      else run_make h \<lparr>cmd_program = ''make'', cmd_dir = julia_dir @ ''/deps'',
             cmd_env = [(''BUILDDIR'', buildroot_dir), (''MMTK_PLAN'', ''None'')], cmd_args = []\<rparr> s)"

definition bindings_builder :: "string \<Rightarrow> string \<Rightarrow> string \<Rightarrow> bindgen_builder" where
  "bindings_builder mmtk_dir julia_dir buildroot_dir =
     \<lparr>bg_headers = [julia_dir @ ''/src/julia.h'', julia_dir @ ''/src/julia_internal.h''],
      bg_clang_args =
        [''-I'', mmtk_dir @ ''/mmtk/api'', ''-I'', julia_dir @ ''/src'',
         ''-I'', julia_dir @ ''/src/support'', ''-I'', buildroot_dir @ ''/usr/include'',
         ''-x'', ''c++'', ''-std=c++14'', ''-DWITH_THIRD_PARTY_HEAP=1'', ''-DMMTK_PLAN_STICKYIMMIX''],
      bg_allowlist =
        [''jl_datatype_layout_t'', ''jl_ucontext_t'', ''jl_small_typeof_tags'', ''jl_*_tag'', ''jl_svec_t'',
         ''jl_module_t'', ''jl_task_t'', ''jl_datatype_t'', ''jl_weakref_t'', ''jl_binding_partition_t'',
         ''jl_bt_element_t'', ''jl_taggedvalue_t'', ''MMTkMutatorContext''],
      bg_opaque = [''MMTkMutatorContext'']\<rparr>"

definition write_bindings :: "'s host \<Rightarrow> bindgen_builder \<Rightarrow> 's build_step" where
  "write_bindings h b s =
     (case generate h b s of
        None \<Rightarrow> (Some (Panic ''Unable to generate bindings''), s)
      | Some bindings \<Rightarrow>
          expect ''Couldn't write bindings!'' (write_to_file h ''src/julia_types.rs'' bindings s))"

definition generate_bindings :: "'s host \<Rightarrow> (string \<Rightarrow> string option) \<Rightarrow> string \<Rightarrow> 's build_step" where
  "generate_bindings h var mmtk_dir s =
     (case var ''JULIA_PATH'' of
        None \<Rightarrow> (Some (Panic ''Must set JULIA_PATH''), s)
      | Some julia_dir \<Rightarrow>
          let buildroot_dir =
            (case var ''JULIA_BUILDROOT'' of Some buildroot_val \<Rightarrow> buildroot_val | None \<Rightarrow> julia_dir)
          in and_then (make_julia_version h julia_dir buildroot_dir)
               (and_then (make_deps h julia_dir buildroot_dir)
                 (write_bindings h (bindings_builder mmtk_dir julia_dir buildroot_dir))) s)"

definition bindings_path :: "(string \<Rightarrow> string option) \<Rightarrow> string" where
  "bindings_path var =
     (case var ''MMTK_JULIA_DIR'' of Some mmtk_val \<Rightarrow> mmtk_val | None \<Rightarrow> ''..'') @ ''/mmtk/src/julia_types.rs''"

definition build_main :: "'s host \<Rightarrow> (string \<Rightarrow> string option) \<Rightarrow> 's build_step" where
  "build_main h var =
     (let mmtk_dir = (case var ''MMTK_JULIA_DIR'' of Some mmtk_val \<Rightarrow> mmtk_val | None \<Rightarrow> ''..'')
      in and_then
           (\<lambda>s. if path_exists h (mmtk_dir @ ''/mmtk/src/julia_types.rs'') s then (None, s)
                else generate_bindings h var mmtk_dir s)
           (\<lambda>s. expect ''Failed to acquire build-time information'' (write_built_file h s)))"

section \<open>When the bindings are generated\<close>

lemma build_existing:
  "path_exists h (bindings_path var) s \<Longrightarrow>
     build_main h var s = expect ''Failed to acquire build-time information'' (write_built_file h s)"
  by (simp add: build_main_def bindings_path_def and_then_def Let_def)

lemma expect_None: "expect msg r = (None, s) \<longleftrightarrow> r = (True, s)"
  by (cases r) (auto simp: expect_def)

lemma and_then_None: "and_then f g s = (None, s') \<longleftrightarrow> (\<exists>s1. f s = (None, s1) \<and> g s1 = (None, s'))"
  by (auto simp: and_then_def split: prod.splits option.splits)

lemma write_bindings_None:
  "write_bindings h b s = (None, s') \<longleftrightarrow>
     (\<exists>t. generate h b s = Some t \<and> write_to_file h ''src/julia_types.rs'' t s = (True, s'))"
  by (auto simp: write_bindings_def expect_None split: option.splits)

text \<open>
  C39: the bindings are generated once. Suppose that the file the script writes is the one it looks
  for, and that writing the build information does not remove it; then after a build that
  succeeded, a second build runs no \<^verbatim>\<open>make\<close> and no bindgen: it writes the build information and
  nothing else, whether or not \<^verbatim>\<open>JULIA_PATH\<close> is still set.
\<close>

theorem bindings_generated_once:
  assumes "\<And>t s s'. write_to_file h ''src/julia_types.rs'' t s = (True, s') \<Longrightarrow>
      path_exists h (bindings_path var) s'"
    and "\<And>s. path_exists h (bindings_path var) s \<Longrightarrow>
      path_exists h (bindings_path var) (snd (write_built_file h s))"
    and "build_main h var s = (None, s')"
  shows "build_main h (var(''JULIA_PATH'' := p)) s'
    = expect ''Failed to acquire build-time information'' (write_built_file h s')"
proof -
  obtain s1 where s1: "path_exists h (bindings_path var) s \<and> s1 = s \<or> generate_bindings h var
      (case var ''MMTK_JULIA_DIR'' of Some mmtk_val \<Rightarrow> mmtk_val | None \<Rightarrow> ''..'') s = (None, s1)"
    and built: "write_built_file h s1 = (True, s')"
    using assms(3) by (auto simp: build_main_def bindings_path_def and_then_None expect_None Let_def
        split: if_splits)
  have "path_exists h (bindings_path var) s1"
    using s1
  proof
    assume "generate_bindings h var
      (case var ''MMTK_JULIA_DIR'' of Some mmtk_val \<Rightarrow> mmtk_val | None \<Rightarrow> ''..'') s = (None, s1)"
    then obtain t s0 where "write_to_file h ''src/julia_types.rs'' t s0 = (True, s1)"
      by (auto simp: generate_bindings_def and_then_None write_bindings_None Let_def split: option.splits)
    then show ?thesis
      by (rule assms(1))
  qed simp
  then have "path_exists h (bindings_path var) s'"
    using assms(2) [of s1] built by simp
  then have "path_exists h (bindings_path (var(''JULIA_PATH'' := p))) s'"
    by (simp add: bindings_path_def)
  then show ?thesis
    by (rule build_existing)
qed

text \<open>A host on which every step succeeds; the state is the list of the files and the commands run.\<close>

definition sample_host :: "(string list \<times> command list) host" where
  "sample_host =
     \<lparr>path_exists = (\<lambda>p s. p \<in> set (fst s)),
      run = (\<lambda>c s. (Some 2, (fst s, c # snd s))),
      generate = (\<lambda>b s. Some ''pub type size_t = usize;''),
      write_to_file = (\<lambda>p t s. (True, ((''../mmtk/'' @ p) # fst s, snd s))),
      write_built_file = (\<lambda>s. (True, s))\<rparr>"

definition sample_env :: "string \<Rightarrow> string option" where
  "sample_env = [''JULIA_PATH'' \<mapsto> ''/julia'']"

lemma sample_build_runs:
  "fst (build_main sample_host sample_env ([], [])) = None"
  "length (snd (snd (build_main sample_host sample_env ([], [])))) = 2"
  by (simp_all add: build_main_def generate_bindings_def make_julia_version_def make_deps_def
      run_make_def write_bindings_def and_then_def expect_def sample_host_def sample_env_def Let_def)

theorem bindings_generated_once_witness:
  "\<exists>s'. build_main sample_host sample_env ([], []) = (None, s')
    \<and> build_main sample_host (sample_env(''JULIA_PATH'' := None)) s' = (None, s')
    \<and> length (snd s') = 2"
proof -
  obtain s' where s': "build_main sample_host sample_env ([], []) = (None, s')" "length (snd s') = 2"
    using sample_build_runs by (cases "build_main sample_host sample_env ([], [])") auto
  have p: "bindings_path sample_env = ''../mmtk/src/julia_types.rs''"
    by (simp add: bindings_path_def sample_env_def)
  have "build_main sample_host (sample_env(''JULIA_PATH'' := None)) s'
    = expect ''Failed to acquire build-time information'' (write_built_file sample_host s')"
    by (rule bindings_generated_once [OF _ _ s'(1)]) (auto simp: p sample_host_def)
  then show ?thesis
    using s' by (simp add: expect_def sample_host_def)
qed

section \<open>What the script does not notice\<close>

text \<open>
  The exit status of \<^verbatim>\<open>make\<close> has no influence on the script: \<^verbatim>\<open>output()\<close> fails only when the program
  cannot be started, so a build goes on to bindgen after a \<^verbatim>\<open>make\<close> that failed.
\<close>

definition all_succeed :: "'s host \<Rightarrow> 's host" where
  "all_succeed h = h\<lparr>run := (\<lambda>c s. case run h c s of (status, s') \<Rightarrow> (map_option (\<lambda>_. 0) status, s'))\<rparr>"

lemma all_succeed_simps [simp]:
  "path_exists (all_succeed h) = path_exists h" "generate (all_succeed h) = generate h"
  "write_to_file (all_succeed h) = write_to_file h"
  "write_built_file (all_succeed h) = write_built_file h"
  by (simp_all add: all_succeed_def)

lemma run_make_status: "run_make (all_succeed h) c = run_make h c"
  by (rule ext) (simp add: run_make_def all_succeed_def split: prod.split)

theorem make_status_ignored: "build_main (all_succeed h) var = build_main h var"
proof -
  have "make_julia_version (all_succeed h) = make_julia_version h" "make_deps (all_succeed h) = make_deps h"
    by (intro ext, simp add: make_julia_version_def make_deps_def run_make_status)+
  moreover have "write_bindings (all_succeed h) = write_bindings h"
    by (intro ext) (simp add: write_bindings_def split: option.split)
  ultimately have g: "generate_bindings (all_succeed h) = generate_bindings h"
    by (intro ext) (simp add: generate_bindings_def split: option.split)
  show ?thesis
    unfolding build_main_def all_succeed_simps g ..
qed

text \<open>Without the bindings and without \<^verbatim>\<open>JULIA_PATH\<close> the build stops before it runs anything.\<close>

theorem build_without_julia_path:
  assumes "\<not> path_exists h (bindings_path var) s" and "var ''JULIA_PATH'' = None"
  shows "build_main h var s = (Some (Panic ''Must set JULIA_PATH''), s)"
  using assms by (simp add: build_main_def bindings_path_def generate_bindings_def and_then_def Let_def)

end
