(* ===== verification/Copied_Stacks.thy ===== *)
theory Copied_Stacks
  imports Julia_Scanning
begin

text \<open>
  The shadow stack of a suspended task whose stack Julia has copied out (\<^verbatim>\<open>copy_stack\<close> tasks): the
  walk of \<^verbatim>\<open>mmtk_scan_gcstack\<close> reads every address of the stack in the saved copy. It finds there
  what it would find on the stack itself once Julia has copied it back to resume the task.
\<close>

section \<open>Reading the copy and reading the restored stack\<close>

definition aligned8 :: "addr \<Rightarrow> bool" where
  "aligned8 a \<longleftrightarrow> 8 dvd unat a"

lemma next_multiple: "(8 :: nat) dvd x \<Longrightarrow> 8 dvd y \<Longrightarrow> x < y \<Longrightarrow> x + 8 \<le> y"
  by (elim dvdE) simp

lemma aligned8_add [intro]: "aligned8 a \<Longrightarrow> aligned8 b \<Longrightarrow> aligned8 (a + b)"
  by (simp add: aligned8_def unat_word_ariths dvd_mod)

lemma aligned8_word [simp]: "aligned8 (of_nat i * 8)"
  by (simp add: aligned8_def unat_word_ariths dvd_mod)

text \<open>The bounds of the copied part are word-aligned, as stacks are.\<close>

definition window_aligned :: "stack_window \<Rightarrow> bool" where
  "window_aligned w \<longleftrightarrow> sw_lb w \<le> sw_ub w \<and> aligned8 (sw_lb w) \<and> aligned8 (sw_ub w)"

definition restored :: "stack_window \<Rightarrow> memory \<Rightarrow> memory" where
  "restored w m = copy_bytes m (sw_lb w + sw_offset w) (sw_lb w) (sw_ub w - sw_lb w)"

text \<open>The window of a task that runs: every address is read where it is.\<close>

definition running_window :: stack_window where
  "running_window = \<lparr>sw_offset = 0, sw_lb = 0, sw_ub = - 1\<rparr>"

lemma read_running [simp]: "read_stack running_window m a = load64 m a"
  by (simp add: read_stack_def get_stack_addr_def running_window_def)

lemma outside_window:
  assumes "lb \<le> ub" and "aligned8 lb" and "aligned8 a" and "a < lb \<or> ub \<le> a" and "i < 8"
  shows "\<not> a + of_nat i - lb < ub - lb"
proof -
  have a: "unat (a + of_nat i) = unat a + i"
  proof -
    have "unat a + 8 \<le> 2 ^ 64"
      using assms(3) word_max_64 [of a] unfolding aligned8_def by (intro next_multiple) simp_all
    then show ?thesis
      using assms(5) unat_add_no_wrap [of a "of_nat i"] by (simp add: unat_of_nat_64)
  qed
  from assms(4) have "unat a + 8 \<le> unat lb \<or> unat ub \<le> unat a"
  proof
    assume "a < lb"
    then have "unat a < unat lb"
      by (simp add: word_less_nat_alt)
    then have "unat a + 8 \<le> unat lb"
      using assms(2,3) unfolding aligned8_def by (intro next_multiple)
    then show ?thesis ..
  qed (simp add: word_le_nat_alt)
  then show ?thesis
  proof
    assume before: "unat a + 8 \<le> unat lb"
    then have "a + of_nat i < lb"
      using a assms(5) by (simp add: word_less_nat_alt)
    then have "unat (a + of_nat i - lb) = 2 ^ 64 + (unat a + i) - unat lb"
      using a by (simp add: unat_sub_wrap)
    moreover have "unat (ub - lb) = unat ub - unat lb"
      using assms(1) by (simp add: unat_sub_if_le)
    ultimately show ?thesis
      using word_max_64 [of ub] word_max_64 [of lb] by (simp add: word_less_nat_alt)
  next
    assume after: "unat ub \<le> unat a"
    then have "lb \<le> a + of_nat i"
      using a assms(1) by (simp add: word_le_nat_alt)
    then show ?thesis
      using a after assms(1) by (simp add: word_less_nat_alt unat_sub_if_le)
  qed
qed

lemma read_restored:
  assumes "window_aligned w" and "aligned8 a"
  shows "read_stack w m a = load64 (restored w m) a"
proof (cases "sw_lb w \<le> a \<and> a < sw_ub w")
  case True
  let ?i = "unat (a - sw_lb w)"
  have "unat a < unat (sw_ub w)" and le: "unat (sw_lb w) \<le> unat a"
    using True by (simp_all add: word_less_nat_alt word_le_nat_alt)
  then have "unat a + 8 \<le> unat (sw_ub w)"
    using assms unfolding window_aligned_def aligned8_def by (intro next_multiple) simp_all
  then have "?i + 8 \<le> unat (sw_ub w - sw_lb w)"
    using True assms(1) le by (simp add: unat_sub_if_le window_aligned_def)
  from load64_copy_bytes [OF this, of m "sw_lb w + sw_offset w" "sw_lb w"]
  show ?thesis
    using True by (simp add: restored_def read_stack_def get_stack_addr_def add.commute)
next
  case False
  then have out: "a < sw_lb w \<or> sw_ub w \<le> a"
    by auto
  have "load64 m a = load64 (restored w m) a"
  proof (rule load64_cong)
    fix i :: nat assume "i < 8"
    then have "\<not> a + of_nat i - sw_lb w < sw_ub w - sw_lb w"
      using assms out by (intro outside_window) (simp_all add: window_aligned_def)
    then show "m (a + of_nat i) = restored w m (a + of_nat i)"
      unfolding restored_def by (rule copy_bytes_other [symmetric])
  qed
  then show ?thesis
    using False by (auto simp: read_stack_def get_stack_addr_def)
qed

section \<open>Frames\<close>

text \<open>A frame is word-aligned, and so are the variables an indirect frame points to.\<close>

definition frame_aligned :: "stack_window \<Rightarrow> memory \<Rightarrow> addr \<Rightarrow> bool" where
  "frame_aligned w m s \<longleftrightarrow> aligned8 s \<and>
     (gf_nroots w m s AND 1 \<noteq> 0 \<longrightarrow>
        list_all aligned8 (frame_entries w m (s + 16) 0 (unat (gf_nroots w m s) div 4)))"

lemma aligned8_numeral [simp]: "aligned8 8" "aligned8 16"
  by (simp_all add: aligned8_def)

lemma frame_fields_restored:
  assumes "window_aligned w" and "aligned8 s"
  shows "gf_nroots running_window (restored w m) s = gf_nroots w m s"
    and "gf_prev running_window (restored w m) s = gf_prev w m s"
  using assms by (simp_all add: gf_nroots_def gf_prev_def read_restored aligned8_add)

lemma frame_entries_restored:
  assumes "window_aligned w" and "aligned8 s"
  shows "frame_entries running_window (restored w m) (s + 16) i n = frame_entries w m (s + 16) i n"
  using assms by (simp add: frame_entries_def read_restored aligned8_add)

lemma frame_refs_restored:
  assumes "window_aligned w" and "frame_aligned w m s"
  shows "frame_refs running_window (restored w m) s = frame_refs w m s"
  using assms
  by (auto simp: frame_refs_def Let_def frame_aligned_def frame_fields_restored
      frame_entries_restored read_restored list_all_iff)

lemma gc_chain_restored:
  assumes "window_aligned w" and "gc_chain w m s fs" and "list_all (frame_aligned w m) fs"
  shows "gc_chain running_window (restored w m) s fs"
  using assms(2,3)
proof (induction fs arbitrary: s)
  case (Cons f fs)
  then show ?case
    using assms(1) by (auto simp: frame_fields_restored frame_aligned_def split: if_splits)
qed simp

text \<open>
  C19: the shadow stack of a suspended task whose stack was copied out is scanned as if the task
  had been resumed. When the bounds of the stack and its frames are word-aligned, the walk over
  the saved copy returns, and it finds the references, in the same order, that the walk over
  the stack finds once Julia has copied the saved bytes back.
\<close>

theorem suspended_stack_refs:
  assumes "copied_stack rt m ta" and "load64 m (ta + offset_of jl_task_fields ''ptls'') = 0"
    and "stack_window_of rt m ta = Inr w" and "window_aligned w"
    and "gc_chain w m s fs" and "list_all (frame_aligned w m) fs"
    and "live = copy_bytes m (load64 m (ta_stkbuf_slot ta)) (sw_lb w) (sw_ub w - sw_lb w)"
  shows "\<exists>ss live_ss. gcstack_slots w m s = Some ss
    \<and> gcstack_slots \<lparr>sw_offset = 0, sw_lb = 0, sw_ub = - 1\<rparr> live s = Some live_ss
    \<and> map (slot_load word_slot m) ss = map (slot_load word_slot live) live_ss"
proof -
  have "sw_lb w + sw_offset w = load64 m (ta_stkbuf_slot ta)"
    using assms(1-3) by (auto simp: stack_window_of_def Let_def rbind_eq_Inr split: if_splits)
  then have live: "live = restored w m"
    using assms(7) by (simp add: restored_def)
  have refs: "map (slot_load word_slot m') (concat (map (gcframe_slots w' m') fs))
      = concat (map (frame_refs w' m') fs)" for w' m'
    by (simp add: map_concat comp_def gcframe_slots_refs)
  have "map (frame_refs running_window live) fs = map (frame_refs w m) fs"
    using assms(4,6) by (simp add: live frame_refs_restored list_all_iff)
  then show ?thesis
    using gcstack_slots_chain [OF assms(5)] gcstack_slots_chain [OF gc_chain_restored [OF assms(4-6)]]
    by (simp add: refs live cong: map_cong flip: running_window_def)
qed

text \<open>A task whose stack, from \<open>0x6800\<close> to \<open>0x7000\<close>, was copied to \<open>0xe000\<close>, with one frame on it.\<close>

definition suspended_task :: memory where
  "suspended_task = poke [(0x90c8, 0xe000), (0x90d8, 0x800), (0xe100, 4), (0xe110, 0xb000)]"

definition suspended_window :: stack_window where
  "suspended_window = \<lparr>sw_offset = 0x7800, sw_lb = 0x6800, sw_ub = 0x7000\<rparr>"

lemma suspended_bits: "ta_ctx_bits suspended_task 0x9000 = [0, 8, 0, 0]"
  by (simp add: ta_ctx_bits_def ta_ctx_def bytes_at_def upt_rec suspended_task_def poke_byte)

lemma suspended_loads:
  "load64 suspended_task (ta_stkbuf_slot 0x9000) = 0xe000"
  "load64 suspended_task 0x90a8 = 0" "load16 suspended_task 0x9090 = 0"
  by (simp_all add: suspended_task_def ta_stkbuf_slot_def ta_ctx_def load64_poke load16_bytes
      apart_def poke_byte)

lemma suspended_copied: "copied_stack sample_runtime suspended_task 0x9000"
  by (simp add: copied_stack_def suspended_loads suspended_bits copy_stack_custom_def
      sample_runtime_def)

lemma suspended_window_of: "stack_window_of sample_runtime suspended_task 0x9000 = Inr suspended_window"
proof -
  have "copy_stack (ta_ctx_bits suspended_task 0x9000) = Inr 2048"
    unfolding suspended_bits by code_simp
  moreover have "rt_stackbase sample_runtime tid = 0x7000" for tid
    by (simp add: sample_runtime_def)
  ultimately show ?thesis
    by (simp add: stack_window_of_def suspended_copied suspended_loads suspended_window_def Let_def)
qed

lemma suspended_frame:
  "gf_nroots suspended_window suspended_task 0x6900 = 4"
  "gf_prev suspended_window suspended_task 0x6900 = 0"
  "frame_entries suspended_window suspended_task 0x6910 0 (Suc 0) = [0xb000]"
  by (simp_all add: gf_nroots_def gf_prev_def frame_entries_def read_stack_def get_stack_addr_def
      suspended_window_def suspended_task_def load64_poke apart_def)

theorem suspended_stack_refs_witness:
  "\<exists>ss live_ss. gcstack_slots suspended_window suspended_task 0x6900 = Some ss
    \<and> gcstack_slots \<lparr>sw_offset = 0, sw_lb = 0, sw_ub = - 1\<rparr>
        (copy_bytes suspended_task 0xe000 0x6800 2048) 0x6900 = Some live_ss
    \<and> map (slot_load word_slot (copy_bytes suspended_task 0xe000 0x6800 2048)) live_ss = [Some 0xb000]"
proof -
  have chain: "gc_chain suspended_window suspended_task 0x6900 [0x6900]"
    by (simp add: suspended_frame)
  have "map (slot_load word_slot suspended_task) ss = [Some 0xb000]"
    if "gcstack_slots suspended_window suspended_task 0x6900 = Some ss" for ss
    using that gcstack_slots_chain [OF chain] gcframe_slots_refs [of suspended_task suspended_window "0x6900"]
    by (simp add: frame_refs_def suspended_frame gc_ptr_tag_def objref_def)
  moreover have "window_aligned suspended_window" "frame_aligned suspended_window suspended_task 0x6900"
    by (simp_all add: window_aligned_def frame_aligned_def aligned8_def suspended_window_def
        suspended_frame [unfolded suspended_window_def])
  ultimately show ?thesis
    using suspended_stack_refs [OF suspended_copied _ suspended_window_of _ chain _ refl] suspended_loads
    by (fastforce simp: suspended_window_def)
qed

end
