(* ===== verification/Debug_Checks.thy ===== *)
theory Debug_Checks
  imports Julia_Scanning
begin

text \<open>
  The scan of an object in a build with debug assertions: \<^verbatim>\<open>process_slot\<close> and \<^verbatim>\<open>process_offset_slot\<close>
  check what a slot holds before they hand it to mmtk-core, \<^verbatim>\<open>OffsetSlot::load\<close> checks that it does
  not load null, and the scan checks the layouts it reads. Two assertions always hold and are left
  out: the number of roots of a frame is at most \<^verbatim>\<open>u32::MAX\<close> after it is cut to 32 bits, and the
  bit fields lie inside their storage. The overflow checks that such a build adds to arithmetic are
  not modelled, and a loop that does not end is not followed.
\<close>

section \<open>The checks on slots\<close>

definition process_slot_check :: "(addr \<Rightarrow> bool) \<Rightarrow> memory \<Rightarrow> addr \<Rightarrow> unit res" where
  "process_slot_check in_spaces m slot =
     (case objref (load64 m slot) of
        None \<Rightarrow> Inr ()
      | Some obj \<Rightarrow>
          if \<not> in_spaces obj then Inl DebugAssert
          else if \<not> (obj mod 16 = 0 \<or> obj mod 8 = 0) then Inl DebugAssert
          else Inr ())"

text \<open>The load of an offset slot, with its assertion.\<close>

definition offset_load_debug :: "memory \<Rightarrow> offset_slot \<Rightarrow> addr option res" where
  "offset_load_debug m s =
     (let middle = load64 m (slot_addr s); begin' = middle - slot_offset s
      in if begin' = 0 then Inl DebugAssert else Inr (objref begin'))"

definition process_offset_slot_check :: "(addr \<Rightarrow> bool) \<Rightarrow> memory \<Rightarrow> offset_slot \<Rightarrow> unit res" where
  "process_offset_slot_check in_spaces m slot =
     rbind (offset_load_debug m slot) (\<lambda>loaded.
       case loaded of
         None \<Rightarrow> Inr ()
       | Some obj \<Rightarrow> if \<not> in_spaces obj then Inl DebugAssert else Inr ())"

fun slot_check :: "(addr \<Rightarrow> bool) \<Rightarrow> memory \<Rightarrow> vm_slot \<Rightarrow> unit res" where
  "slot_check in_spaces m (Simple a) = process_slot_check in_spaces m a"
| "slot_check in_spaces m (Offset s) = process_offset_slot_check in_spaces m s"

text \<open>The slots are checked in the order they are visited; the first that fails stops the scan.\<close>

fun checked_slots :: "(addr \<Rightarrow> bool) \<Rightarrow> memory \<Rightarrow> vm_slot list \<Rightarrow> vm_slot list res" where
  "checked_slots in_spaces m [] = Inr []"
| "checked_slots in_spaces m (s # ss) =
     rbind (slot_check in_spaces m s) (\<lambda>_.
       rbind (checked_slots in_spaces m ss) (\<lambda>ss'. Inr (s # ss')))"

abbreviation visit_checked :: "(addr \<Rightarrow> bool) \<Rightarrow> memory \<Rightarrow> vm_slot list res \<Rightarrow> vm_slot list res" where
  "visit_checked in_spaces m r \<equiv> rbind r (checked_slots in_spaces m)"

section \<open>The scan\<close>

definition debug_assert :: "bool \<Rightarrow> unit res" where
  "debug_assert b = (if b then Inr () else Inl DebugAssert)"

text \<open>One part of a scan after another.\<close>

definition and_then :: "vm_slot list res \<Rightarrow> vm_slot list res \<Rightarrow> vm_slot list res" where
  "and_then r r' = rbind r (\<lambda>xs. rbind r' (\<lambda>ys. Inr (xs @ ys)))"

text \<open>The pointer table of a layout; \<^verbatim>\<open>mmtk_jl_fielddesc_size\<close> checks the kind of the layout.\<close>

definition debug_layout_ptrs :: "memory \<Rightarrow> addr \<Rightarrow> addr res" where
  "debug_layout_ptrs m layout =
     rbind (debug_assert (fielddesc_type_custom (ly_flags m layout) \<le> 2))
       (\<lambda>_. Inr (mmtk_jl_dt_layout_ptrs m layout))"

definition debug_fields :: "(addr \<Rightarrow> bool) \<Rightarrow> memory \<Rightarrow> addr \<Rightarrow> addr \<Rightarrow> vm_slot list res" where
  "debug_fields in_spaces m obj layout =
     (let npointers = ly_npointers m layout; ft = fielddesc_type_custom (ly_flags m layout);
          table = (\<lambda>w. rbind (debug_layout_ptrs m layout) (\<lambda>t.
            visit_checked in_spaces m (table_slots w m obj t npointers)))
      in if npointers \<noteq> 0
         then rbind (debug_assert (0 < ly_nfields m layout \<and> ft \<noteq> 3)) (\<lambda>_.
                if ft = 0 then table 1 else if ft = 1 then table 2 else if ft = 2 then table 4
                else rbind (debug_assert (ft = 3)) (\<lambda>_. Inl Unimplemented))
         else Inr [])"

definition debug_inline_elements ::
    "(addr \<Rightarrow> bool) \<Rightarrow> memory \<Rightarrow> addr \<Rightarrow> usize \<Rightarrow> addr \<Rightarrow> vm_slot list res" where
  "debug_inline_elements in_spaces m objary_begin len layout =
     (let npointers = ly_npointers m layout;
          elsize = ucast (ly_size m layout) div 8;
          objary_end = objary_begin + len * elsize * 8;
          elements = (\<lambda>w. rbind (debug_layout_ptrs m layout) (\<lambda>_.
            visit_checked in_spaces m (element_slots w m objary_begin objary_end elsize layout)))
      in if npointers = 1
         then visit_checked in_spaces m
           (range_slots (objary_begin + scast (ly_first_ptr m layout) * 8) objary_end elsize)
         else if fielddesc_type_custom (ly_flags m layout) = 0 then elements 1
         else if fielddesc_type_custom (ly_flags m layout) = 1 then elements 2
         else Inl Unimplemented)"

definition debug_genericmemory ::
    "(addr \<Rightarrow> bool) \<Rightarrow> runtime \<Rightarrow> memory \<Rightarrow> addr \<Rightarrow> addr \<Rightarrow> vm_slot list res" where
  "debug_genericmemory in_spaces rt m obj vt =
     (if rt_genericmemory_how rt m obj = 3
      then checked_slots in_spaces m [process_slot (rt_owner_address rt m obj)]
      else if gm_length m obj = 0 then Inr []
      else let layout = dt_layout m vt; len = gm_length m obj; objary_begin = gm_ptr m obj
           in rbind (arrayelem_isboxed (ly_flags m layout)) (\<lambda>isboxed.
                if isboxed \<noteq> 0
                then visit_checked in_spaces m (range_slots objary_begin (objary_begin + len * 8) 1)
                else if 0 \<le> sint (ly_first_ptr m layout)
                     then debug_inline_elements in_spaces m objary_begin len layout
                else Inr []))"

definition debug_with_type ::
    "(addr \<Rightarrow> bool) \<Rightarrow> runtime \<Rightarrow> memory \<Rightarrow> addr \<Rightarrow> addr \<Rightarrow> vm_slot list res" where
  "debug_with_type in_spaces rt m obj vt =
     and_then (checked_slots in_spaces m
         (if dt_name m vt = rt_array_typename rt then scan_array_ref rt m obj else []))
       (if dt_name m vt = rt_genericmemory_typename rt then debug_genericmemory in_spaces rt m obj vt
        else if vt = rt_weakref_type rt then Inr []
        else debug_fields in_spaces m obj (dt_layout m vt))"

definition debug_module :: "(addr \<Rightarrow> bool) \<Rightarrow> runtime \<Rightarrow> memory \<Rightarrow> addr \<Rightarrow> vm_slot list res" where
  "debug_module in_spaces rt m mo =
     (let field = (\<lambda>f. process_slot (mo + offset_of jl_module_fields f));
          usings = mo + offset_of jl_module_fields ''usings'';
          items_slot = usings + offset_of arraylist_fields ''items'';
          items = load64 m items_slot;
          inlined = (if object_is_managed_by_mmtk rt items
                     then [process_offset_slot items_slot OFFSET_OF_INLINED_SPACE_IN_MODULE] else []);
          nusings = load64 m (usings + offset_of arraylist_fields ''len'')
      in and_then (checked_slots in_spaces m ([field ''bindings'', field ''bindingkeyset'', field ''parent'',
             field ''usings_backedges'', field ''scanned_methods''] @ inlined))
           (if 0 < nusings then visit_checked in_spaces m (range_slots items (items + nusings * 8) 4)
            else Inr []))"

definition debug_gcstack :: "(addr \<Rightarrow> bool) \<Rightarrow> runtime \<Rightarrow> memory \<Rightarrow> addr \<Rightarrow> vm_slot list res" where
  "debug_gcstack in_spaces rt m ta =
     (let s = load64 m (ta + offset_of jl_task_fields ''gcstack'');
          exc = (if load64 m (ta + offset_of jl_task_fields ''excstack'') \<noteq> 0
                 then map process_slot (rt_exc_slots rt m ta) else [])
      in and_then (checked_slots in_spaces m
             (if copied_stack rt m ta then [process_slot (ta_stkbuf_slot ta)] else []))
           (rbind (stack_window_of rt m ta) (\<lambda>w.
              and_then (if s \<noteq> 0 then visit_checked in_spaces m (returns (gcstack_slots w m s)) else Inr [])
                (checked_slots in_spaces m exc))))"

definition debug_task :: "(addr \<Rightarrow> bool) \<Rightarrow> runtime \<Rightarrow> memory \<Rightarrow> addr \<Rightarrow> vm_slot list res" where
  "debug_task in_spaces rt m ta =
     and_then (debug_gcstack in_spaces rt m ta)
       (let layout = dt_layout m (rt_task_type rt)
        in rbind (debug_assert (fielddesc_type_custom (ly_flags m layout) = 0)) (\<lambda>_.
           rbind (debug_assert (0 < ly_nfields m layout)) (\<lambda>_.
           rbind (debug_layout_ptrs m layout) (\<lambda>table.
             visit_checked in_spaces m (table_slots 1 m ta table (ly_npointers m layout))))))"

definition debug_small_tag ::
    "(addr \<Rightarrow> bool) \<Rightarrow> runtime \<Rightarrow> memory \<Rightarrow> addr \<Rightarrow> usize \<Rightarrow> vm_slot list res" where
  "debug_small_tag in_spaces rt m obj vtag =
     (if vtag = tag_word Jl_simplevector_tag then visit_checked in_spaces m (scan_simplevector m obj)
      else if vtag = tag_word Jl_module_tag then debug_module in_spaces rt m obj
      else if vtag = tag_word Jl_task_tag then debug_task in_spaces rt m obj
      else Inr [])"

definition debug_scan :: "(addr \<Rightarrow> bool) \<Rightarrow> runtime \<Rightarrow> memory \<Rightarrow> addr \<Rightarrow> vm_slot list res" where
  "debug_scan in_spaces rt m obj =
     (let vtag = mmtk_jl_typetagof m obj
      in if vtag = rt_symbol_type rt \<or> vtag = JULIA_BUFF_TAG rt then Inr []
         else if vtag \<in> set plain_small_tags
              then rbind (small_typeof rt (vtag div 8)) (\<lambda>vt. debug_with_type in_spaces rt m obj vt)
         else if vtag < max_tag_word then debug_small_tag in_spaces rt m obj vtag
         else rbind (scan_check_datatype m vtag) (\<lambda>_. debug_with_type in_spaces rt m obj vtag))"

section \<open>When the assertions hold\<close>

text \<open>
  What they ask of a slot: a simple slot holds null or a reference to a space of mmtk-core that is
  a multiple of 8; an offset slot holds a reference to such a space. And of the layouts: those with
  pointers have fields, and tasks have 8-bit field descriptors.
\<close>

fun sound_slot :: "(addr \<Rightarrow> bool) \<Rightarrow> memory \<Rightarrow> vm_slot \<Rightarrow> bool" where
  "sound_slot in_spaces m (Simple a) \<longleftrightarrow>
     load64 m a = 0 \<or> in_spaces (load64 m a) \<and> 8 dvd unat (load64 m a)"
| "sound_slot in_spaces m (Offset s) \<longleftrightarrow>
     load64 m (slot_addr s) \<noteq> slot_offset s \<and> in_spaces (load64 m (slot_addr s) - slot_offset s)"

definition sound_type :: "runtime \<Rightarrow> memory \<Rightarrow> addr \<Rightarrow> bool" where
  "sound_type rt m vt \<longleftrightarrow> dt_name m vt = rt_genericmemory_typename rt \<or> vt = rt_weakref_type rt
     \<or> ly_npointers m (dt_layout m vt) = 0 \<or> ly_nfields m (dt_layout m vt) \<noteq> 0"

definition sound_layout :: "runtime \<Rightarrow> memory \<Rightarrow> addr \<Rightarrow> bool" where
  "sound_layout rt m a \<longleftrightarrow>
     (let vtag = mmtk_jl_typetagof m a; task_layout = dt_layout m (rt_task_type rt)
      in if vtag = rt_symbol_type rt \<or> vtag = JULIA_BUFF_TAG rt then True
         else if vtag \<in> set plain_small_tags then sound_type rt m (rt_small_typeof rt (unat vtag div 8))
         else if vtag = tag_word Jl_task_tag
              then fielddesc_type_custom (ly_flags m task_layout) = 0 \<and> ly_nfields m task_layout \<noteq> 0
         else vtag < max_tag_word \<or> sound_type rt m vtag)"

text \<open>The slots, when a condition holds and each is sound.\<close>

definition guarded :: "(addr \<Rightarrow> bool) \<Rightarrow> memory \<Rightarrow> bool \<Rightarrow> vm_slot list \<Rightarrow> vm_slot list res" where
  "guarded in_spaces m P ss =
     (if P \<and> (\<forall>s \<in> set ss. sound_slot in_spaces m s) then Inr ss else Inl DebugAssert)"

lemma aligned_8_iff: "(obj mod 16 = 0 \<or> obj mod 8 = 0) \<longleftrightarrow> 8 dvd unat (obj :: addr)"
proof -
  have "obj mod 16 = 0 \<longleftrightarrow> unat obj mod 16 = 0" "obj mod 8 = 0 \<longleftrightarrow> unat obj mod 8 = 0"
    by (simp_all add: word_unat_eq_iff unat_mod_distrib)
  then show ?thesis
    by presburger
qed

lemma slot_check_sound:
  "slot_check in_spaces m s = (if sound_slot in_spaces m s then Inr () else Inl DebugAssert)"
proof (cases s)
  case (Simple a)
  then show ?thesis
    by (simp add: process_slot_check_def objref_def aligned_8_iff [symmetric] del: not_mod_2_eq_0_eq_1)
next
  case (Offset x)
  then show ?thesis
    by (auto simp: process_offset_slot_check_def offset_load_debug_def objref_def Let_def)
qed

lemma checked_slots_guarded: "checked_slots in_spaces m ss = guarded in_spaces m True ss"
  by (induction ss) (simp_all add: guarded_def slot_check_sound)

lemma and_then_guarded:
  "and_then (guarded in_spaces m P xs) (guarded in_spaces m Q ys) = guarded in_spaces m (P \<and> Q) (xs @ ys)"
  by (auto simp: and_then_def guarded_def)

lemma and_then_Nil [simp]: "and_then r (Inr []) = r"
  by (cases r) (simp_all add: and_then_def)

lemma guarded_Nil: "Inr [] = guarded in_spaces m True []"
  by (simp add: guarded_def)

lemma assert_guarded:
  "rbind (debug_assert P) (\<lambda>_. guarded in_spaces m Q ss) = guarded in_spaces m (P \<and> Q) ss"
  by (simp add: debug_assert_def guarded_def)

lemmas guard_rules = checked_slots_guarded assert_guarded debug_layout_ptrs_def rbind_assoc

lemma debug_fields_guarded:
  assumes "scan_fields m obj l = Inr ss"
  shows "debug_fields in_spaces m obj l
    = guarded in_spaces m (ly_npointers m l = 0 \<or> ly_nfields m l \<noteq> 0) ss"
  using assms
  by (auto simp: scan_fields_def debug_fields_def Let_def guard_rules word_gt_0 guarded_def debug_assert_def
      split: if_splits)

lemma debug_inline_guarded:
  assumes "scan_inline_elements m b n l = Inr ss"
  shows "debug_inline_elements in_spaces m b n l = guarded in_spaces m True ss"
  using assms
  by (auto simp: scan_inline_elements_def debug_inline_elements_def Let_def guard_rules split: if_splits)

lemma debug_memory_guarded:
  assumes "scan_genericmemory rt m obj vt = Inr ss"
  shows "debug_genericmemory in_spaces rt m obj vt = guarded in_spaces m True ss"
  using assms
  by (auto simp: scan_genericmemory_def debug_genericmemory_def Let_def guard_rules guarded_Nil [symmetric]
      rbind_eq_Inr debug_inline_guarded split: if_splits)

lemma debug_typed_guarded:
  assumes "scan_with_type rt m obj vt = Inr ss"
  shows "debug_with_type in_spaces rt m obj vt = guarded in_spaces m (sound_type rt m vt) ss"
proof -
  let ?arr = "if dt_name m vt = rt_array_typename rt then scan_array_ref rt m obj else []"
  let ?scan = "if dt_name m vt = rt_genericmemory_typename rt then scan_genericmemory rt m obj vt
    else if vt = rt_weakref_type rt then Inr [] else scan_fields m obj (dt_layout m vt)"
  obtain rest where r: "?scan = Inr rest" "ss = ?arr @ rest"
    using assms by (auto simp: scan_with_type_def Let_def rbind_eq_Inr)
  have "(if dt_name m vt = rt_genericmemory_typename rt then debug_genericmemory in_spaces rt m obj vt
      else if vt = rt_weakref_type rt then Inr [] else debug_fields in_spaces m obj (dt_layout m vt))
    = guarded in_spaces m (sound_type rt m vt) rest"
    using r(1) debug_memory_guarded debug_fields_guarded
    by (auto simp: sound_type_def guarded_Nil [symmetric] split: if_splits)
  then show ?thesis
    by (simp add: debug_with_type_def checked_slots_guarded and_then_guarded r(2))
qed

lemma debug_module_guarded:
  assumes "scan_module rt m mo = Inr ss"
  shows "debug_module in_spaces rt m mo = guarded in_spaces m True ss"
  using assms
  by (auto simp: scan_module_def debug_module_def Let_def rbind_eq_Inr checked_slots_guarded and_then_guarded
      simp flip: append_assoc split: if_splits)

lemma debug_gcstack_guarded:
  assumes "mmtk_scan_gcstack rt m ta = Inr ss"
  shows "debug_gcstack in_spaces rt m ta = guarded in_spaces m True ss"
proof -
  let ?s = "load64 m (ta + offset_of jl_task_fields ''gcstack'')"
  obtain w fs where w: "stack_window_of rt m ta = Inr w"
    and f: "(if ?s \<noteq> 0 then returns (gcstack_slots w m ?s) else Inr []) = Inr fs"
    and ss: "ss = (if copied_stack rt m ta then [process_slot (ta_stkbuf_slot ta)] else []) @ fs
      @ (if load64 m (ta + offset_of jl_task_fields ''excstack'') \<noteq> 0
         then map process_slot (rt_exc_slots rt m ta) else [])"
    using assms unfolding mmtk_scan_gcstack_def Let_def rbind_eq_Inr sum.inject by blast
  have "(if ?s \<noteq> 0 then visit_checked in_spaces m (returns (gcstack_slots w m ?s)) else Inr [])
      = guarded in_spaces m True fs"
    using f by (auto simp: checked_slots_guarded guarded_def split: if_splits)
  then show ?thesis
    by (simp only: debug_gcstack_def Let_def w rbind_simps checked_slots_guarded and_then_guarded ss simp_thms)
qed

lemma debug_task_guarded:
  assumes "scan_task rt m ta = Inr ss"
  shows "debug_task in_spaces rt m ta
    = guarded in_spaces m (fielddesc_type_custom (ly_flags m (dt_layout m (rt_task_type rt))) = 0
        \<and> ly_nfields m (dt_layout m (rt_task_type rt)) \<noteq> 0) ss"
proof -
  let ?l = "dt_layout m (rt_task_type rt)"
  obtain st fl where s: "mmtk_scan_gcstack rt m ta = Inr st" "ss = st @ fl"
    and f: "table_slots 1 m ta (mmtk_jl_dt_layout_ptrs m ?l) (ly_npointers m ?l) = Inr fl"
    using assms by (auto simp: scan_task_def Let_def rbind_eq_Inr)
  show ?thesis
    using debug_gcstack_guarded [OF s(1)] f
    by (auto simp: debug_task_def Let_def guard_rules and_then_guarded s(2) word_gt_0 guarded_def and_then_def
        debug_assert_def)
qed

text \<open>
  C31: a build with debug assertions scans every object the release build scans, visiting the same
  slots, when each simple slot holds null or a reference to a space of mmtk-core that is a multiple
  of 8, each offset slot a reference to such a space, the layout of the object has fields if it
  has pointers, and the layout of a task has fields and 8-bit descriptors. Otherwise it stops at an
  assertion, whatever else it would visit.
\<close>

theorem debug_scan_checks:
  assumes "scan_julia_object rt m a = Inr ss"
  shows "debug_scan in_spaces rt m a
    = (if sound_layout rt m a \<and> (\<forall>s \<in> set ss. sound_slot in_spaces m s) then Inr ss else Inl DebugAssert)"
proof -
  let ?t = "mmtk_jl_typetagof m a"
  consider (special) "?t = rt_symbol_type rt \<or> ?t = JULIA_BUFF_TAG rt"
    | (plain) "?t \<noteq> rt_symbol_type rt" "?t \<noteq> JULIA_BUFF_TAG rt" "?t \<in> set plain_small_tags"
    | (small) "?t \<noteq> rt_symbol_type rt" "?t \<noteq> JULIA_BUFF_TAG rt" "?t \<notin> set plain_small_tags" "?t < max_tag_word"
    | (typed) "?t \<noteq> rt_symbol_type rt" "?t \<noteq> JULIA_BUFF_TAG rt" "?t \<notin> set plain_small_tags" "\<not> ?t < max_tag_word"
    by blast
  then have "debug_scan in_spaces rt m a = guarded in_spaces m (sound_layout rt m a) ss"
  proof cases
    case special
    then show ?thesis
      using assms by (auto simp: scan_julia_object_def debug_scan_def sound_layout_def guarded_def)
  next
    case plain
    then show ?thesis
      using assms debug_typed_guarded
      by (simp add: scan_julia_object_def debug_scan_def sound_layout_def Let_def small_typeof_plain)
  next
    case small
    then have "scan_small_tag rt m a ?t = Inr ss"
      using assms by (simp add: scan_julia_object_def Let_def)
    then have "debug_small_tag in_spaces rt m a ?t
        = guarded in_spaces m (?t = tag_word Jl_task_tag \<longrightarrow>
            fielddesc_type_custom (ly_flags m (dt_layout m (rt_task_type rt))) = 0
            \<and> ly_nfields m (dt_layout m (rt_task_type rt)) \<noteq> 0) ss"
      using debug_module_guarded debug_task_guarded
      by (auto simp: scan_small_tag_def debug_small_tag_def checked_slots_guarded split: if_splits)
        (simp add: guarded_def)
    then show ?thesis
      using small by (simp add: debug_scan_def sound_layout_def Let_def cong: if_cong)
  next
    case typed
    then have "scan_with_type rt m a ?t = Inr ss" "scan_check_datatype m ?t = Inr ()"
      using assms by (auto simp: scan_julia_object_def Let_def rbind_eq_Inr)
    moreover have "?t \<noteq> tag_word Jl_task_tag"
      using typed(4) by auto
    ultimately show ?thesis
      using typed debug_typed_guarded by (simp add: debug_scan_def sound_layout_def Let_def)
  qed
  then show ?thesis
    by (simp add: guarded_def)
qed

text \<open>
  A vector of one element: sound when the element is in a space, and a failed assertion when it is
  not.
\<close>

definition checked_vector :: memory where
  "checked_vector = poke [(0xaff8, 144), (0xb000, 1), (0xb008, 0xd000)]"

theorem debug_scan_checks_witness:
  "debug_scan (\<lambda>b. b < 0x10000) sample_runtime checked_vector 0xb000 = Inr [Simple 0xb008]
    \<and> debug_scan (\<lambda>b. b < 0xc000) sample_runtime checked_vector 0xb000 = Inl DebugAssert"
proof -
  have l: "mmtk_jl_typetagof checked_vector 0xb000 = 144" "mmtk_jl_svec_len checked_vector 0xb000 = 1"
    "load64 checked_vector 0xb008 = 0xd000"
    by (simp_all add: checked_vector_def mmtk_jl_typetagof_def mmtk_jl_svec_len_def load64_poke apart_def)
  have "scan_julia_object sample_runtime checked_vector 0xb000 = Inr [Simple 0xb008]"
    using simplevector_slots [of "0xb000" checked_vector]
    by (simp add: scan_simps l not_special_def slots_at_def)
  from debug_scan_checks [OF this] show ?thesis
    by (simp add: l sound_layout_def plain_small_tags_eq Let_def)
qed

end
