(* ===== verification/C_Strings.thy ===== *)
theory C_Strings
  imports Memory
begin

text \<open>
  The strings that cross the C interface: \<^verbatim>\<open>CStr::from_ptr\<close>, \<^verbatim>\<open>CStr::to_str\<close> and \<^verbatim>\<open>CString::new\<close> of Rust's
  standard library, as the binding uses them. A Rust string is a list of Unicode scalar values;
  decoding is the table of well-formed byte sequences, shown to accept the encodings of scalar
  values and nothing else.
\<close>

section \<open>Null-terminated bytes\<close>

text \<open>The bytes before the first zero; \<open>None\<close> when there is none in the address space.\<close>

partial_function (option) cstr_bytes :: "memory \<Rightarrow> addr \<Rightarrow> nat list option" where
  "cstr_bytes m a =
     (if m a = 0 then Some []
      else Option.bind (cstr_bytes m (a + 1)) (\<lambda>bs. Some (unat (m a) # bs)))"

definition stored :: "memory \<Rightarrow> addr \<Rightarrow> nat list \<Rightarrow> bool" where
  "stored m a bs \<longleftrightarrow> (\<forall>i < length bs. unat (m (a + of_nat i)) = bs ! i)"

lemma stored_Nil [simp]: "stored m a []"
  by (simp add: stored_def)

lemma stored_Cons: "stored m a (b # bs) \<longleftrightarrow> unat (m a) = b \<and> stored m (a + 1) bs"
proof
  assume s: "stored m a (b # bs)"
  have "unat (m (a + 1 + of_nat i)) = bs ! i" if "i < length bs" for i
    using s [unfolded stored_def, rule_format, of "Suc i"] that by (simp add: add.assoc)
  moreover have "unat (m a) = b"
    using s [unfolded stored_def, rule_format, of 0] by simp
  ultimately show "unat (m a) = b \<and> stored m (a + 1) bs"
    by (simp add: stored_def)
next
  assume s: "unat (m a) = b \<and> stored m (a + 1) bs"
  show "stored m a (b # bs)"
    unfolding stored_def
  proof (intro allI impI)
    fix i assume "i < length (b # bs)"
    then show "unat (m (a + of_nat i)) = (b # bs) ! i"
      using s by (cases i) (simp_all add: stored_def add.assoc)
  qed
qed

lemma cstr_bytes_stored:
  "stored m a (bs @ [0]) \<Longrightarrow> 0 \<notin> set bs \<Longrightarrow> cstr_bytes m a = Some bs"
proof (induction bs arbitrary: a)
  case Nil
  then show ?case
    by (subst cstr_bytes.simps) (simp add: stored_Cons unat_eq_0)
next
  case (Cons b bs)
  then have "m a \<noteq> 0"
    by (auto simp: stored_Cons)
  then show ?case
    using Cons by (subst cstr_bytes.simps) (simp add: stored_Cons)
qed

text \<open>\<^verbatim>\<open>CString::new\<close>: the bytes with a terminator, unless there is a zero among them.\<close>

definition cstring_new :: "nat list \<Rightarrow> nat list option" where
  "cstring_new bs = (if 0 \<in> set bs then None else Some (bs @ [0]))"

lemma cstring_roundtrip: "cstring_new bs = Some cs \<Longrightarrow> stored m a cs \<Longrightarrow> cstr_bytes m a = Some bs"
  by (auto simp: cstring_new_def cstr_bytes_stored split: if_splits)

section \<open>UTF-8\<close>

definition scalar :: "nat \<Rightarrow> bool" where
  "scalar c \<longleftrightarrow> c < 0xd800 \<or> 0xe000 \<le> c \<and> c < 0x110000"

definition utf8_char :: "nat \<Rightarrow> nat list" where
  "utf8_char c =
     (if c < 0x80 then [c]
      else if c < 0x800 then [0xc0 + c div 64, 0x80 + c mod 64]
      else if c < 0x10000 then [0xe0 + c div 4096, 0x80 + c div 64 mod 64, 0x80 + c mod 64]
      else [0xf0 + c div 262144, 0x80 + c div 4096 mod 64, 0x80 + c div 64 mod 64, 0x80 + c mod 64])"

definition utf8 :: "nat list \<Rightarrow> nat list" where
  "utf8 cs = concat (map utf8_char cs)"

definition continuation :: "nat \<Rightarrow> bool" where
  "continuation b \<longleftrightarrow> 0x80 \<le> b \<and> b \<le> 0xbf"

text \<open>
  The first character of a byte sequence and the rest. The second byte of a longer sequence is
  restricted after \<^verbatim>\<open>E0\<close>, \<^verbatim>\<open>ED\<close>, \<^verbatim>\<open>F0\<close> and \<^verbatim>\<open>F4\<close>, which excludes overlong encodings, surrogates and
  values above \<^verbatim>\<open>10FFFF\<close>.
\<close>

fun utf8_next :: "nat list \<Rightarrow> (nat \<times> nat list) option" where
  "utf8_next [] = None"
| "utf8_next (b # bs) =
     (if b < 0x80 then Some (b, bs)
      else if 0xc2 \<le> b \<and> b \<le> 0xdf then
        (case bs of c # bs' \<Rightarrow>
           if continuation c then Some ((b - 0xc0) * 64 + (c - 0x80), bs') else None
         | _ \<Rightarrow> None)
      else if 0xe0 \<le> b \<and> b \<le> 0xef then
        (case bs of c # d # bs' \<Rightarrow>
           if continuation c \<and> continuation d \<and> (b = 0xe0 \<longrightarrow> 0xa0 \<le> c) \<and> (b = 0xed \<longrightarrow> c \<le> 0x9f)
           then Some ((b - 0xe0) * 4096 + (c - 0x80) * 64 + (d - 0x80), bs') else None
         | _ \<Rightarrow> None)
      else if 0xf0 \<le> b \<and> b \<le> 0xf4 then
        (case bs of c # d # e # bs' \<Rightarrow>
           if continuation c \<and> continuation d \<and> continuation e
             \<and> (b = 0xf0 \<longrightarrow> 0x90 \<le> c) \<and> (b = 0xf4 \<longrightarrow> c \<le> 0x8f)
           then Some ((b - 0xf0) * 262144 + (c - 0x80) * 4096 + (d - 0x80) * 64 + (e - 0x80), bs')
           else None
         | _ \<Rightarrow> None)
      else None)"

lemma utf8_next_shorter: "utf8_next bs = Some (c, bs') \<Longrightarrow> length bs' < length bs"
  by (cases bs) (auto split: if_splits list.splits)

function utf8_decode :: "nat list \<Rightarrow> nat list option" where
  "utf8_decode bs =
     (if bs = [] then Some []
      else case utf8_next bs of
        None \<Rightarrow> None
      | Some (c, bs') \<Rightarrow> Option.bind (utf8_decode bs') (\<lambda>cs. Some (c # cs)))"
  by pat_completeness auto
termination
  by (relation "measure length") (auto dest: utf8_next_shorter)

declare utf8_decode.simps [simp del]

text \<open>The six-bit digits of a character.\<close>

lemma digits2: "r < 64 \<Longrightarrow> (q * 64 + r) div 64 = (q :: nat)" "r < 64 \<Longrightarrow> (q * 64 + r) mod 64 = (r :: nat)"
  by simp_all

lemma digits3:
  assumes "q < 64" and "r < 64"
  shows "(p * 4096 + q * 64 + r) div 4096 = (p :: nat)" "(p * 4096 + q * 64 + r) div 64 mod 64 = q"
    "(p * 4096 + q * 64 + r) mod 64 = r"
proof -
  show "(p * 4096 + q * 64 + r) div 4096 = p"
    by (rule div_nat_eqI) (use assms in simp_all)
  have "(p * 4096 + q * 64 + r) div 64 = p * 64 + q"
    by (rule div_nat_eqI) (use assms in simp_all)
  then show "(p * 4096 + q * 64 + r) div 64 mod 64 = q"
    using assms by simp
  show "(p * 4096 + q * 64 + r) mod 64 = r"
    using digits2(2) [of r "p * 64 + q"] assms by (simp add: algebra_simps)
qed

lemma digits4:
  assumes "p < 64" and "q < 64" and "r < 64"
  shows "(n * 262144 + p * 4096 + q * 64 + r) div 262144 = (n :: nat)"
    "(n * 262144 + p * 4096 + q * 64 + r) div 4096 mod 64 = p"
    "(n * 262144 + p * 4096 + q * 64 + r) div 64 mod 64 = q"
    "(n * 262144 + p * 4096 + q * 64 + r) mod 64 = r"
proof -
  show "(n * 262144 + p * 4096 + q * 64 + r) div 262144 = n"
    by (rule div_nat_eqI) (use assms in simp_all)
  have d: "(n * 262144 + p * 4096 + q * 64 + r) div 64 = n * 4096 + p * 64 + q"
    by (rule div_nat_eqI) (use assms in simp_all)
  then show "(n * 262144 + p * 4096 + q * 64 + r) div 64 mod 64 = q"
    using digits2(2) [of q "n * 64 + p"] assms by (simp add: algebra_simps)
  have "(n * 262144 + p * 4096 + q * 64 + r) div 4096 = n * 64 + p"
    by (rule div_nat_eqI) (use assms in simp_all)
  then show "(n * 262144 + p * 4096 + q * 64 + r) div 4096 mod 64 = p"
    using digits2(2) [of p n] assms by simp
  show "(n * 262144 + p * 4096 + q * 64 + r) mod 64 = r"
    using digits2(2) [of r "n * 4096 + p * 64 + q"] assms by (simp add: algebra_simps)
qed

lemma utf8_char1: "b < 0x80 \<Longrightarrow> utf8_char b = [b]"
  by (simp add: utf8_char_def)

lemma utf8_char2:
  assumes "r < 64" and "2 \<le> q" and "q < 32"
  shows "utf8_char (q * 64 + r) = [0xc0 + q, 0x80 + r]"
proof -
  have "\<not> q * 64 + r < 0x80" "q * 64 + r < 0x800"
    using assms by linarith+
  then show ?thesis
    unfolding utf8_char_def using digits2 [OF assms(1), of q] by (simp only: if_True if_False simp_thms)
qed

lemma utf8_char3:
  assumes "q < 64" and "r < 64" and "p < 16" and "32 \<le> p * 64 + q"
  shows "utf8_char (p * 4096 + q * 64 + r) = [0xe0 + p, 0x80 + q, 0x80 + r]"
proof -
  have "\<not> p * 4096 + q * 64 + r < 0x80" "\<not> p * 4096 + q * 64 + r < 0x800" "p * 4096 + q * 64 + r < 0x10000"
    using assms by linarith+
  then show ?thesis
    unfolding utf8_char_def using digits3 [OF assms(1,2), of p] by (simp only: if_True if_False simp_thms)
qed

lemma utf8_char4:
  assumes "p < 64" and "q < 64" and "r < 64" and "16 \<le> n * 64 + p"
  shows "utf8_char (n * 262144 + p * 4096 + q * 64 + r) = [0xf0 + n, 0x80 + p, 0x80 + q, 0x80 + r]"
proof -
  let ?c = "n * 262144 + p * 4096 + q * 64 + r"
  have "\<not> ?c < 0x80" "\<not> ?c < 0x800" "\<not> ?c < 0x10000"
    using assms by linarith+
  then show ?thesis
    unfolding utf8_char_def using digits4 [OF assms(1-3), of n] by (simp only: if_True if_False simp_thms)
qed

text \<open>The decoder of one character is the inverse of the encoder.\<close>

lemma continuationE:
  assumes "continuation b"
  obtains q where "b = 0x80 + q" and "q < 64"
proof (rule that)
  show "b = 0x80 + (b - 0x80)" and "b - 0x80 < 64"
    using assms unfolding continuation_def by linarith+
qed

lemma continuation_digit [simp]: "continuation (0x80 + q) \<longleftrightarrow> q < 64"
  by (auto simp: continuation_def)

lemma scalar_three: "p < 16 \<Longrightarrow> q < 64 \<Longrightarrow> r < 64 \<Longrightarrow>
    scalar (p * 4096 + q * 64 + r) \<longleftrightarrow> (p = 13 \<longrightarrow> q < 32)"
  unfolding scalar_def by (cases "p < 13"; cases "p = 13") (simp_all, linarith+)

lemma utf8_next_decoded:
  assumes "utf8_next bs = Some (c, bs')"
  shows "scalar c \<and> bs = utf8_char c @ bs'"
proof -
  obtain b rest where bs: "bs = b # rest"
    using assms by (cases bs) simp_all
  consider "b < 0x80" | "0xc2 \<le> b" "b \<le> 0xdf" | "0xe0 \<le> b" "b \<le> 0xef" | "0xf0 \<le> b" "b \<le> 0xf4"
    using assms unfolding bs by (force split: if_splits)
  then show ?thesis
  proof cases
    case 1
    then show ?thesis
      using assms by (simp add: bs utf8_char1 scalar_def)
  next
    case 2
    then obtain x where x: "rest = x # bs'" "continuation x" "c = (b - 0xc0) * 64 + (x - 0x80)"
      using assms by (auto simp: bs split: list.splits if_splits)
    obtain r where r: "x = 0x80 + r" "r < 64"
      using x(2) by (rule continuationE)
    then have "utf8_char c = [b, x]"
      using utf8_char2 [of r "b - 0xc0"] 2 x by simp
    moreover have "b - 0xc0 < 32"
      using 2 by linarith
    then have "scalar c"
      using r x(3) unfolding scalar_def by linarith
    ultimately show ?thesis
      by (simp add: bs x)
  next
    case 3
    then obtain x y where x: "rest = x # y # bs'" "continuation x" "continuation y"
      "b = 0xe0 \<longrightarrow> 0xa0 \<le> x" "b = 0xed \<longrightarrow> x \<le> 0x9f"
      "c = (b - 0xe0) * 4096 + (x - 0x80) * 64 + (y - 0x80)"
      using assms by (auto simp: bs split: list.splits if_splits)
    obtain q r where qr: "x = 0x80 + q" "q < 64" "y = 0x80 + r" "r < 64"
      using x(2,3) by (elim continuationE) (rule that)
    obtain p where p: "b = 0xe0 + p"
      using 3(1) le_iff_add by blast
    have c: "c = p * 4096 + q * 64 + r" and "p < 16"
      using 3(2) x(6) by (simp_all add: p qr)
    moreover have "32 \<le> p * 64 + q"
      using x(4) by (cases "p = 0") (simp_all add: p qr)
    moreover have "p = 13 \<longrightarrow> q < 32"
      using x(5) by (auto simp: p qr)
    ultimately show ?thesis
      using utf8_char3 [OF qr(2,4), of p] scalar_three [OF _ qr(2,4), of p] qr(1,3) by (simp add: bs x(1) p c)
  next
    case 4
    then obtain x y z where x: "rest = x # y # z # bs'" "continuation x" "continuation y" "continuation z"
      "b = 0xf0 \<longrightarrow> 0x90 \<le> x" "b = 0xf4 \<longrightarrow> x \<le> 0x8f"
      "c = (b - 0xf0) * 262144 + (x - 0x80) * 4096 + (y - 0x80) * 64 + (z - 0x80)"
      using assms by (auto simp: bs split: list.splits if_splits)
    obtain p q r where pqr: "x = 0x80 + p" "p < 64" "y = 0x80 + q" "q < 64" "z = 0x80 + r" "r < 64"
      using x(2-4) by (elim continuationE) (rule that)
    obtain n where n: "b = 0xf0 + n"
      using 4(1) le_iff_add by blast
    have c: "c = n * 262144 + p * 4096 + q * 64 + r" and "n \<le> 4"
      using 4(2) x(7) by (simp_all add: n pqr)
    have lo: "16 \<le> n * 64 + p"
      using x(5) by (cases "n = 0") (simp_all add: n pqr)
    have "n = 4 \<longrightarrow> p < 16"
      using x(6) by (auto simp: n pqr)
    then have "0x10000 \<le> c" "c < 0x110000"
      using lo \<open>n \<le> 4\<close> pqr(2,4,6) unfolding c by linarith+
    then have "scalar c"
      by (simp add: scalar_def)
    then show ?thesis
      using utf8_char4 [OF pqr(2,4,6) lo] pqr(1,3,5) by (simp add: bs x(1) n c)
  qed
qed

lemma utf8_next_encoded:
  assumes "scalar c"
  shows "utf8_next (utf8_char c @ bs) = Some (c, bs)"
proof -
  let ?r = "c mod 64" and ?q = "c div 64 mod 64" and ?p = "c div 4096 mod 64" and ?n = "c div 262144"
  have d: "?r < 64" "?q < 64" "?p < 64"
    by simp_all
  consider "c < 0x80" | "0x80 \<le> c" "c < 0x800" | "0x800 \<le> c" "c < 0x10000" | "0x10000 \<le> c"
    by linarith
  then show ?thesis
  proof cases
    case 1
    then show ?thesis
      by (simp add: utf8_char1)
  next
    case 2
    let ?m = "c div 64"
    have m: "2 \<le> ?m" "?m < 32"
      using 2 by simp_all
    have "utf8_char c = [0xc0 + ?m, 0x80 + ?r]"
      using utf8_char2 [OF d(1) m] by simp
    then show ?thesis
      using m d by simp
  next
    case 3
    let ?m = "c div 4096"
    have "c = c div 64 * 64 + ?r" "c div 64 = ?m * 64 + ?q"
      using div_mult_mod_eq [of c 64] div_mult_mod_eq [of "c div 64" 64]
      by (simp_all add: div_mult2_eq [symmetric])
    then have c: "c = ?m * 4096 + ?q * 64 + ?r" and "c div 64 = ?m * 64 + ?q"
      by linarith+
    then have m: "?m < 16" "32 \<le> ?m * 64 + ?q"
      using 3 by (simp_all add: less_mult_imp_div_less)
    have "utf8_char c = [0xe0 + ?m, 0x80 + ?q, 0x80 + ?r]"
      using utf8_char3 [OF d(2,1) m] c by simp
    moreover have "?m = 13 \<longrightarrow> ?q < 32"
      using assms scalar_three [OF m(1) d(2,1)] c by simp
    then have "?m = 13 \<longrightarrow> ?q \<le> 31"
      by auto
    moreover have "?m = 0 \<longrightarrow> 32 \<le> ?q"
      using m(2) by (intro impI) linarith
    ultimately show ?thesis
      using m(1) d c by simp
  next
    case 4
    have c: "c = ?n * 262144 + ?p * 4096 + ?q * 64 + ?r" and n: "16 \<le> ?n * 64 + ?p" "?n \<le> 4"
      "?n = 4 \<longrightarrow> ?p < 16"
    proof -
      have "c div 64 div 64 div 64 = ?n" "c div 64 div 64 = c div 4096"
        by (simp_all add: div_mult2_eq [symmetric])
      then have "c = c div 64 * 64 + ?r" "c div 64 = c div 4096 * 64 + ?q" "c div 4096 = ?n * 64 + ?p"
        using div_mult_mod_eq [of c 64] div_mult_mod_eq [of "c div 64" 64]
          div_mult_mod_eq [of "c div 4096" 64] by (simp_all add: div_mult2_eq [symmetric])
      moreover have "16 \<le> c div 4096" "c div 4096 < 272"
        using 4 assms by (simp_all add: scalar_def less_mult_imp_div_less)
      ultimately show "c = ?n * 262144 + ?p * 4096 + ?q * 64 + ?r" "16 \<le> ?n * 64 + ?p" "?n \<le> 4"
        "?n = 4 \<longrightarrow> ?p < 16"
        by linarith+
    qed
    have "utf8_char c = [0xf0 + ?n, 0x80 + ?p, 0x80 + ?q, 0x80 + ?r]"
      using utf8_char4 [OF d(3,2,1) n(1)] c by simp
    moreover have "?n = 0 \<longrightarrow> 16 \<le> ?p"
      using n(1) by (intro impI) linarith
    moreover have "?n = 4 \<longrightarrow> ?p \<le> 15"
      using n(3) by auto
    ultimately show ?thesis
      using n d c by simp
  qed
qed

lemma utf8_char_nonempty [simp]: "utf8_char c \<noteq> []"
  by (simp add: utf8_char_def)

lemma utf8_decode_Nil [simp]: "utf8_decode [] = Some []"
  by (simp add: utf8_decode.simps)

lemma utf8_simps [simp]: "utf8 [] = []" "utf8 (c # cs) = utf8_char c @ utf8 cs"
  by (simp_all add: utf8_def)

lemma utf8_decode_encoded: "list_all scalar cs \<Longrightarrow> utf8_decode (utf8 cs) = Some cs"
  by (induction cs) (simp_all add: utf8_decode.simps [of "_ @ _"] utf8_next_encoded)

lemma utf8_decode_decoded: "utf8_decode bs = Some cs \<Longrightarrow> list_all scalar cs \<and> bs = utf8 cs"
proof (induction bs arbitrary: cs rule: utf8_decode.induct)
  case (1 bs)
  show ?case
  proof (cases "bs = []")
    case False
    then obtain c bs' cs' where n: "utf8_next bs = Some (c, bs')" and d: "utf8_decode bs' = Some cs'"
      and cs: "cs = c # cs'"
      using "1.prems" by (subst (asm) utf8_decode.simps) (auto split: option.splits bind_splits)
    then show ?thesis
      using "1.IH" [OF False n refl d] utf8_next_decoded [OF n] by simp
  qed (use "1.prems" in simp)
qed

lemma utf8_decode_iff: "utf8_decode bs = Some cs \<longleftrightarrow> list_all scalar cs \<and> bs = utf8 cs"
  using utf8_decode_decoded utf8_decode_encoded by blast

lemma ascii_utf8: "list_all (\<lambda>c. c < 0x80) cs \<Longrightarrow> utf8 cs = cs"
  by (induction cs) (simp_all add: utf8_char1)

end
