(* ===== verification/Build_Info.thy ===== *)
theory Build_Info
  imports C_Strings
begin

text \<open>
  \<^verbatim>\<open>build_info.rs\<close> and \<^verbatim>\<open>get_mmtk_version\<close> of \<^verbatim>\<open>api.rs\<close>: the version text the binding shows, and the C
  string Julia reads it through. The constants the build writes into \<^verbatim>\<open>built.rs\<close> and the description
  of mmtk-core are arguments. A Rust string is the list of its Unicode scalar values.
\<close>

type_synonym rust_str = "nat list"

definition codes :: "string \<Rightarrow> rust_str" where
  "codes s = map of_char s"

section \<open>Slicing by bytes\<close>

text \<open>
  \<^verbatim>\<open>str::split_at\<close> counts bytes of UTF-8; an index past the end or inside a character panics
  (\<open>None\<close>).
\<close>

primrec split_at :: "rust_str \<Rightarrow> nat \<Rightarrow> (rust_str \<times> rust_str) option" where
  "split_at [] n = (if n = 0 then Some ([], []) else None)"
| "split_at (c # cs) n =
     (if n = 0 then Some ([], c # cs)
      else if n < length (utf8_char c) then None
      else map_option (map_prod ((#) c) id) (split_at cs (n - length (utf8_char c))))"

lemma split_at_Some_iff:
  "split_at cs n = Some (a, b) \<longleftrightarrow> cs = a @ b \<and> length (utf8 a) = n"
proof (induction cs arbitrary: n a)
  case (Cons c cs)
  let ?k = "length (utf8_char c)"
  have k: "0 < ?k"
    by simp
  consider "n = 0" | "0 < n" "n < ?k" | "?k \<le> n" "0 < n"
    by linarith
  then show ?case
  proof cases
    case 1
    then show ?thesis
      by (cases a) auto
  next
    case 2
    then show ?thesis
      by (cases a) auto
  next
    case 3
    then have "split_at (c # cs) n = Some (a, b) \<longleftrightarrow>
        (\<exists>a'. split_at cs (n - ?k) = Some (a', b) \<and> a = c # a')"
      by (auto simp: map_prod_def split: prod.splits)
    also have "\<dots> \<longleftrightarrow> (\<exists>a'. cs = a' @ b \<and> length (utf8 a') = n - ?k \<and> a = c # a')"
      by (auto simp: Cons.IH)
    also have "\<dots> \<longleftrightarrow> c # cs = a @ b \<and> length (utf8 a) = n"
      using 3 by (cases a) auto
    finally show ?thesis .
  qed
qed auto

section \<open>The version text\<close>

record build_constants =
  PKG_VERSION :: rust_str
  GIT_COMMIT_HASH :: "rust_str option"
  GIT_DIRTY :: "bool option"

definition short_hash :: "rust_str \<Rightarrow> rust_str res" where
  "short_hash hash = (case split_at hash 7 of Some (h, _) \<Rightarrow> Inr h | None \<Rightarrow> Inl (Panic ''split_at''))"

definition BINDING_VERSION_STRING :: "build_constants \<Rightarrow> rust_str res" where
  "BINDING_VERSION_STRING b =
     (case (GIT_COMMIT_HASH b, GIT_DIRTY b) of
        (Some hash, Some dirty) \<Rightarrow>
          rbind (short_hash hash) (\<lambda>h. Inr (codes ''Built with MMTk Julia '' @ PKG_VERSION b @ codes '' (''
            @ h @ (if dirty then codes ''-dirty'' else []) @ codes '')''))
      | (Some hash, None) \<Rightarrow>
          rbind (short_hash hash) (\<lambda>h. Inr (codes ''Built with MMTk Julia '' @ PKG_VERSION b @ codes '' (''
            @ h @ codes ''-?'' @ codes '')''))
      | _ \<Rightarrow> Inr (codes ''Built with MMTk Julia '' @ PKG_VERSION b))"

definition MMTK_JULIA_FULL_VERSION_STRING :: "build_constants \<Rightarrow> rust_str \<Rightarrow> nat list res" where
  "MMTK_JULIA_FULL_VERSION_STRING b core_info =
     rbind (BINDING_VERSION_STRING b) (\<lambda>binding.
       case cstring_new (utf8 (binding @ codes '', using '' @ core_info)) of
         Some cs \<Rightarrow> Inr cs
       | None \<Rightarrow> Inl (Panic ''NulError''))"

text \<open>
  The string is a lazy static: the first call builds it in a block at \<open>a\<close>, later calls return the
  same pointer. The state is that pointer, once there is one, and the memory.
\<close>

definition store_bytes :: "memory \<Rightarrow> addr \<Rightarrow> nat list \<Rightarrow> memory" where
  "store_bytes m a bs = (\<lambda>x. if unat (x - a) < length bs then of_nat (bs ! unat (x - a)) else m x)"

definition get_mmtk_version ::
    "build_constants \<Rightarrow> rust_str \<Rightarrow> addr \<Rightarrow> addr option \<times> memory \<Rightarrow> (addr \<times> addr option \<times> memory) res" where
  "get_mmtk_version b core_info a st =
     (case st of
        (Some p, m) \<Rightarrow> Inr (p, Some p, m)
      | (None, m) \<Rightarrow>
          rbind (MMTK_JULIA_FULL_VERSION_STRING b core_info) (\<lambda>cs. Inr (a, Some a, store_bytes m a cs)))"

section \<open>What C reads\<close>

lemma stored_store_bytes:
  assumes "length bs \<le> 2 ^ 64" and "list_all (\<lambda>b. b < 256) bs"
  shows "stored (store_bytes m a bs) a bs"
  unfolding stored_def
proof (intro allI impI)
  fix i assume i: "i < length bs"
  then have "unat (of_nat i :: addr) = i"
    using assms(1) by (intro unat_of_nat_64) linarith
  moreover have "bs ! i < 256"
    using assms(2) i by (simp add: list_all_length)
  ultimately show "unat (store_bytes m a bs (a + of_nat i)) = bs ! i"
    using i by (simp add: store_bytes_def unat_of_nat take_bit_nat_eq_self)
qed

lemma utf8_char_bytes: "scalar c \<Longrightarrow> list_all (\<lambda>b. b < 256) (utf8_char c)"
proof -
  assume "scalar c"
  then have "c < 1114112"
    by (auto simp: scalar_def)
  then have "c div 262144 < 5"
    by (simp add: less_mult_imp_div_less)
  moreover have "c div 64 < 32" if "c < 2048"
    using that by (simp add: less_mult_imp_div_less)
  moreover have "c div 4096 < 16" if "c < 65536"
    using that by (simp add: less_mult_imp_div_less)
  moreover have "c mod 64 < 64" "c div 64 mod 64 < 64" "c div 4096 mod 64 < 64"
    by simp_all
  ultimately show ?thesis
    unfolding utf8_char_def by (auto simp del: mod_less_divisor)
qed

lemma utf8_bytes: "list_all scalar cs \<Longrightarrow> list_all (\<lambda>b. b < 256) (utf8 cs)"
  by (induction cs) (simp_all add: utf8_char_bytes)

lemma utf8_char_zero: "0 \<in> set (utf8_char c) \<longleftrightarrow> c = 0"
  by (auto simp: utf8_char_def)

lemma utf8_zero: "0 \<in> set (utf8 cs) \<longleftrightarrow> 0 \<in> set cs"
  by (induction cs) (auto simp: utf8_char_zero)

text \<open>The parenthesis with the commit, in the three cases, for a commit abbreviated to \<open>h\<close>.\<close>

definition commit_note :: "rust_str \<Rightarrow> bool option \<Rightarrow> rust_str" where
  "commit_note h dirty = codes '' ('' @ h
     @ (case dirty of None \<Rightarrow> codes ''-?'' | Some d \<Rightarrow> if d then codes ''-dirty'' else []) @ codes '')''"

definition version_text :: "build_constants \<Rightarrow> rust_str \<Rightarrow> rust_str \<Rightarrow> rust_str" where
  "version_text b note core_info =
     codes ''Built with MMTk Julia '' @ PKG_VERSION b @ note @ codes '', using '' @ core_info"

definition version_note :: "build_constants \<Rightarrow> rust_str \<Rightarrow> bool" where
  "version_note b note \<longleftrightarrow>
     (case GIT_COMMIT_HASH b of
        None \<Rightarrow> note = []
      | Some hash \<Rightarrow> \<exists>h t. hash = h @ t \<and> length (utf8 h) = 7 \<and> note = commit_note h (GIT_DIRTY b))"

lemma short_hash_iff: "short_hash hash = Inr h \<longleftrightarrow> (\<exists>t. hash = h @ t \<and> length (utf8 h) = 7)"
  by (auto simp: short_hash_def split_at_Some_iff [symmetric] split: option.splits)

lemma binding_version_iff:
  "BINDING_VERSION_STRING b = Inr t \<longleftrightarrow>
     (\<exists>note. version_note b note \<and> t = codes ''Built with MMTk Julia '' @ PKG_VERSION b @ note)"
proof (cases "GIT_COMMIT_HASH b")
  case None
  then show ?thesis
    by (auto simp: BINDING_VERSION_STRING_def version_note_def split: option.split)
next
  case (Some hash)
  have "BINDING_VERSION_STRING b
    = rbind (short_hash hash) (\<lambda>h. Inr (codes ''Built with MMTk Julia '' @ PKG_VERSION b
        @ commit_note h (GIT_DIRTY b)))"
    by (simp add: BINDING_VERSION_STRING_def commit_note_def Some split: option.split)
  then show ?thesis
    by (auto simp: rbind_eq_Inr short_hash_iff version_note_def Some)
qed

lemma cstring_new_utf8: "cstring_new (utf8 t) = Some cs \<longleftrightarrow> 0 \<notin> set t \<and> cs = utf8 t @ [0]"
  by (auto simp: cstring_new_def utf8_zero)

lemma full_version_iff:
  "MMTK_JULIA_FULL_VERSION_STRING b core_info = Inr cs \<longleftrightarrow>
     (\<exists>note. version_note b note \<and> 0 \<notin> set (version_text b note core_info)
       \<and> cs = utf8 (version_text b note core_info) @ [0])"
proof -
  have "MMTK_JULIA_FULL_VERSION_STRING b core_info = Inr cs \<longleftrightarrow>
      (\<exists>t. BINDING_VERSION_STRING b = Inr t
        \<and> cstring_new (utf8 (t @ codes '', using '' @ core_info)) = Some cs)"
    by (auto simp: MMTK_JULIA_FULL_VERSION_STRING_def rbind_eq_Inr split: option.splits)
  also have "\<dots> \<longleftrightarrow> (\<exists>note. version_note b note
      \<and> cstring_new (utf8 (version_text b note core_info)) = Some cs)"
    unfolding binding_version_iff version_text_def by (metis append_assoc)
  finally show ?thesis
    by (simp only: cstring_new_utf8)
qed

text \<open>
  When the version text has no zero character and the commit hash, if the build has one, has a
  character boundary after its seventh byte, \<^verbatim>\<open>get_mmtk_version\<close> returns a pointer from which C reads
  back the text, whole and as valid UTF-8: the package version, the first seven bytes of the hash
  with \<^verbatim>\<open>-dirty\<close> or \<^verbatim>\<open>-?\<close> as the build found the work tree, and mmtk-core's description. Later calls
  return the same pointer and write nothing.
\<close>

theorem mmtk_version_read:
  assumes "version_note b note" and "0 \<notin> set (version_text b note core_info)"
    and "list_all scalar (version_text b note core_info)"
    and "length (utf8 (version_text b note core_info)) < 2 ^ 64"
  shows "\<exists>p m'. get_mmtk_version b core_info a (None, m) = Inr (p, Some p, m')
    \<and> Option.bind (cstr_bytes m' p) utf8_decode = Some (version_text b note core_info)
    \<and> get_mmtk_version b core_info a' (Some p, m') = Inr (p, Some p, m')"
proof -
  let ?t = "version_text b note core_info"
  have "MMTK_JULIA_FULL_VERSION_STRING b core_info = Inr (utf8 ?t @ [0])"
    using assms(1,2) full_version_iff by blast
  moreover have "stored (store_bytes m a (utf8 ?t @ [0])) a (utf8 ?t @ [0])"
    using assms(3,4) by (intro stored_store_bytes) (simp_all add: utf8_bytes)
  then have "cstr_bytes (store_bytes m a (utf8 ?t @ [0])) a = Some (utf8 ?t)"
    using assms(2) by (intro cstr_bytes_stored) (simp_all add: utf8_zero)
  ultimately show ?thesis
    using assms(3) by (simp add: get_mmtk_version_def utf8_decode_encoded)
qed

definition sample_build :: build_constants where
  "sample_build = \<lparr>PKG_VERSION = codes ''0.32.0'', GIT_COMMIT_HASH = Some (codes ''cfc755f0d1''),
     GIT_DIRTY = Some True\<rparr>"

lemma sample_note: "version_note sample_build (codes '' (cfc755f-dirty)'')"
proof -
  have "codes ''cfc755f0d1'' = codes ''cfc755f'' @ codes ''0d1''"
    by (simp add: codes_def)
  moreover have "length (utf8 (codes ''cfc755f'')) = 7"
    by (simp add: codes_def utf8_char_def)
  moreover have "codes '' (cfc755f-dirty)'' = commit_note (codes ''cfc755f'') (Some True)"
    by (simp add: codes_def commit_note_def)
  ultimately show ?thesis
    unfolding version_note_def sample_build_def by auto
qed

theorem mmtk_version_read_witness:
  "\<exists>p m'. get_mmtk_version sample_build (codes ''MMTk 0.32'') 64 (None, \<lambda>x. 0) = Inr (p, Some p, m')
    \<and> Option.bind (cstr_bytes m' p) utf8_decode
      = Some (codes ''Built with MMTk Julia 0.32.0 (cfc755f-dirty), using MMTk 0.32'')
    \<and> get_mmtk_version sample_build (codes ''MMTk 0.32'') 0 (Some p, m') = Inr (p, Some p, m')"
proof -
  let ?t = "version_text sample_build (codes '' (cfc755f-dirty)'') (codes ''MMTk 0.32'')"
  have t: "?t = codes ''Built with MMTk Julia 0.32.0 (cfc755f-dirty), using MMTk 0.32''"
    by (simp add: version_text_def sample_build_def codes_def)
  have ascii: "list_all (\<lambda>c. 0 < c \<and> c < 0x80) ?t" and small: "length ?t < 2 ^ 64"
    unfolding t by (simp_all add: codes_def)
  have "list_all (\<lambda>c. c < 0x80) ?t"
    using ascii by (rule list.pred_mono_strong) simp
  then have l: "length (utf8 ?t) < 2 ^ 64"
    using small by (simp only: ascii_utf8)
  have v: "list_all scalar ?t"
    using ascii by (rule list.pred_mono_strong) (simp add: scalar_def)
  have z: "0 \<notin> set ?t"
    using ascii unfolding list_all_iff by blast
  show ?thesis
    by (rule mmtk_version_read [OF sample_note z v l, unfolded t])
qed

text \<open>
  The first call panics, and so aborts the process, exactly when a hash has no character boundary
  after seven bytes or a zero character would cut the text short.
\<close>

theorem mmtk_version_panics_iff:
  "(\<exists>e. get_mmtk_version b core_info a (None, m) = Inl e) \<longleftrightarrow>
     (\<forall>note. version_note b note \<longrightarrow> 0 \<in> set (version_text b note core_info))"
proof -
  have "(\<exists>e. get_mmtk_version b core_info a (None, m) = Inl e)
    \<longleftrightarrow> \<not> (\<exists>cs. MMTK_JULIA_FULL_VERSION_STRING b core_info = Inr cs)"
    by (cases "MMTK_JULIA_FULL_VERSION_STRING b core_info") (simp_all add: get_mmtk_version_def)
  then show ?thesis
    using full_version_iff [of b core_info] by auto
qed

end
