(* ===== verification/Mutators.thy ===== *)
theory Mutators
  imports Prelude "HOL-Library.AList" "HOL-Library.Multiset"
begin

text \<open>
  \<^verbatim>\<open>active_plan.rs\<close>, the table \<^verbatim>\<open>MUTATORS\<close> of \<^verbatim>\<open>lib.rs\<close> and the functions of \<^verbatim>\<open>api.rs\<close> that bind and
  destroy mutators. A thread's mutator is allocated in a box by mmtk-core and copied into the
  thread's state; the table maps the address of the copy to the address of the box, which must
  live as long as the copy and be dropped exactly once.

  The locale \<open>hash_table\<close> is the interface of the \<^verbatim>\<open>HashMap\<close> behind the table; it is interpreted on
  the association lists of the model. The order in which the standard library iterates over the
  keys is not specified: it is the parameter \<open>hash_order\<close>.
\<close>

section \<open>The table of mutators\<close>

type_synonym mutator_map = "(addr \<times> addr) list"

definition hm_get :: "mutator_map \<Rightarrow> addr \<Rightarrow> addr option" where
  "hm_get t k = map_of t k"

definition hm_insert :: "mutator_map \<Rightarrow> addr \<Rightarrow> addr \<Rightarrow> mutator_map" where
  "hm_insert t k v = AList.update k v t"

definition hm_remove :: "mutator_map \<Rightarrow> addr \<Rightarrow> mutator_map" where
  "hm_remove t k = AList.delete k t"

definition hm_keys :: "mutator_map \<Rightarrow> addr list" where
  "hm_keys t = map fst t"

definition hm_wf :: "mutator_map \<Rightarrow> bool" where
  "hm_wf t \<longleftrightarrow> distinct (map fst t)"

locale hash_table =
  fixes get :: "'m \<Rightarrow> addr \<Rightarrow> addr option"
    and insert_kv :: "'m \<Rightarrow> addr \<Rightarrow> addr \<Rightarrow> 'm"
    and remove_k :: "'m \<Rightarrow> addr \<Rightarrow> 'm"
    and keys :: "'m \<Rightarrow> addr list"
    and wf :: "'m \<Rightarrow> bool"
  assumes get_insert: "wf t \<Longrightarrow> get (insert_kv t k v) k' = (if k' = k then Some v else get t k')"
    and get_remove: "wf t \<Longrightarrow> get (remove_k t k) k' = (if k' = k then None else get t k')"
    and wf_insert: "wf t \<Longrightarrow> wf (insert_kv t k v)"
    and wf_remove: "wf t \<Longrightarrow> wf (remove_k t k)"
    and keys_get: "wf t \<Longrightarrow> set (keys t) = {k. get t k \<noteq> None}"
    and keys_distinct: "wf t \<Longrightarrow> distinct (keys t)"
begin

lemma keys_insert: "wf t \<Longrightarrow> set (keys (insert_kv t k v)) = insert k (set (keys t))"
  by (auto simp: keys_get wf_insert get_insert)

lemma keys_remove: "wf t \<Longrightarrow> set (keys (remove_k t k)) = set (keys t) - {k}"
  by (auto simp: keys_get wf_remove get_remove)

lemma count_insert:
  assumes "wf t" and "get t k = None"
  shows "length (keys (insert_kv t k v)) = Suc (length (keys t))"
proof -
  have "card (set (keys (insert_kv t k v))) = Suc (card (set (keys t)))"
    using assms keys_get [OF assms(1)] by (simp add: keys_insert)
  then show ?thesis
    using assms(1) by (simp add: distinct_card keys_distinct wf_insert)
qed

lemma count_remove:
  assumes "wf t" and "get t k = Some v"
  shows "Suc (length (keys (remove_k t k))) = length (keys t)"
proof -
  have "k \<in> set (keys t)"
    using assms by (simp add: keys_get)
  then have "Suc (card (set (keys (remove_k t k)))) = card (set (keys t))"
    using card.remove [of "set (keys t)" k] assms(1) by (simp add: keys_remove)
  then show ?thesis
    using assms(1) by (simp add: distinct_card keys_distinct wf_remove)
qed

end

interpretation mutator_hash: hash_table hm_get hm_insert hm_remove hm_keys hm_wf
  by unfold_locales
    (auto simp: hm_get_def hm_insert_def hm_remove_def hm_keys_def hm_wf_def update_conv'
      delete_conv' distinct_update distinct_delete dom_map_of_conv_image_fst [symmetric] dom_def)

section \<open>Binding and destroying mutators\<close>

text \<open>
  \<open>mutators\<close> is the table, \<open>boxes\<close> the boxed mutators that have not been dropped, and \<open>readers\<close> the
  number of read guards on the table's \<^verbatim>\<open>RwLock\<close>. A writer that finds the lock taken waits
  (\<open>Lock_busy\<close>); dropping a box that is not live is \<open>Double_free\<close>. \<open>destroyed\<close> lists the mutators that
  were handed to \<^verbatim>\<open>memory_manager::destroy_mutator\<close> of mmtk-core, the first thing
  \<^verbatim>\<open>mmtk_destroy_mutator\<close> does, before it waits for the lock.
\<close>

record registry =
  mutators :: mutator_map
  boxes :: "addr list"
  readers :: nat
  destroyed :: "addr list"

datatype registry_fault = Lock_busy | No_entry | Double_free

definition empty_registry :: registry where
  "empty_registry = \<lparr>mutators = [], boxes = [], readers = 0, destroyed = []\<rparr>"

text \<open>The box mmtk-core allocates for a new mutator is at \<open>b\<close>.\<close>

definition mmtk_bind_mutator :: "registry \<Rightarrow> addr \<Rightarrow> addr \<times> registry" where
  "mmtk_bind_mutator r b = (b, r\<lparr>boxes := b # boxes r\<rparr>)"

definition mmtk_post_bind_mutator ::
    "registry \<Rightarrow> addr \<Rightarrow> addr \<Rightarrow> registry_fault + registry" where
  "mmtk_post_bind_mutator r mutator original_box =
     (if readers r \<noteq> 0 then Inl Lock_busy
      else Inr (r\<lparr>mutators := hm_insert (mutators r) mutator original_box\<rparr>))"

definition drop_box :: "registry \<Rightarrow> addr \<Rightarrow> registry_fault + registry" where
  "drop_box r b =
     (if b \<in> set (boxes r) then Inr (r\<lparr>boxes := remove1 b (boxes r)\<rparr>) else Inl Double_free)"

definition mmtk_destroy_mutator :: "registry \<Rightarrow> addr \<Rightarrow> registry_fault + registry" where
  "mmtk_destroy_mutator r mutator =
     (let r = r\<lparr>destroyed := destroyed r @ [mutator]\<rparr>
      in if readers r \<noteq> 0 then Inl Lock_busy
         else case hm_get (mutators r) mutator of
           None \<Rightarrow> Inl No_entry
         | Some orig_mutator \<Rightarrow>
             rbind (drop_box r orig_mutator) (\<lambda>r'.
               Inr (r'\<lparr>mutators := hm_remove (mutators r') mutator\<rparr>)))"

section \<open>Iterating over the mutators\<close>

record mutator_iter =
  it_vec :: "addr list"
  it_cursor :: usize

definition mutator_iter_new :: "(addr list \<Rightarrow> addr list) \<Rightarrow> registry \<Rightarrow> mutator_iter" where
  "mutator_iter_new hash_order r =
     \<lparr>it_vec = hash_order (hm_keys (mutators r)), it_cursor = 0\<rparr>"

definition mutator_iter_next :: "mutator_iter \<Rightarrow> addr option \<times> mutator_iter" where
  "mutator_iter_next it =
     (let mutator_idx = unat (it_cursor it); it' = it\<lparr>it_cursor := it_cursor it + 1\<rparr>
      in (if mutator_idx < length (it_vec it) then Some (it_vec it ! mutator_idx) else None, it'))"

text \<open>A \<^verbatim>\<open>for\<close> loop over the iterator; \<open>None\<close> is a loop that does not end.\<close>

partial_function (option) mutator_iter_collect :: "mutator_iter \<Rightarrow> addr list option" where
  "mutator_iter_collect it =
     (case mutator_iter_next it of
        (None, _) \<Rightarrow> Some []
      | (Some m, it') \<Rightarrow> Option.bind (mutator_iter_collect it') (\<lambda>ms. Some (m # ms)))"

definition all_mutators :: "(addr list \<Rightarrow> addr list) \<Rightarrow> registry \<Rightarrow> addr list option" where
  "all_mutators hash_order r = mutator_iter_collect (mutator_iter_new hash_order r)"

definition number_of_mutators :: "(addr list \<Rightarrow> addr list) \<Rightarrow> registry \<Rightarrow> usize option" where
  "number_of_mutators hash_order r =
     Option.bind (all_mutators hash_order r) (\<lambda>ms. Some (of_nat (length ms)))"

text \<open>The mutator of a given thread is never asked for.\<close>

definition active_plan_mutator :: "addr \<Rightarrow> addr res" where
  "active_plan_mutator tls = Inl Unimplemented"

text \<open>\<open>tls_of\<close> reads the field \<^verbatim>\<open>mutator_tls\<close> of the mutator at an address.\<close>

definition is_mutator :: "(addr \<Rightarrow> addr) \<Rightarrow> registry \<Rightarrow> addr \<Rightarrow> bool" where
  "is_mutator tls_of r tls \<longleftrightarrow> list_ex (\<lambda>m. tls_of m = tls) (hm_keys (mutators r))"

text \<open>The iterator C holds keeps its read guard until it is closed.\<close>

definition mmtk_new_mutator_iterator ::
    "(addr list \<Rightarrow> addr list) \<Rightarrow> registry \<Rightarrow> mutator_iter \<times> registry" where
  "mmtk_new_mutator_iterator hash_order r =
     (mutator_iter_new hash_order r, r\<lparr>readers := Suc (readers r)\<rparr>)"

definition mmtk_get_next_mutator_tls ::
    "(addr \<Rightarrow> addr) \<Rightarrow> mutator_iter \<Rightarrow> addr \<times> mutator_iter" where
  "mmtk_get_next_mutator_tls tls_of it =
     (case mutator_iter_next it of (Some m, it') \<Rightarrow> (tls_of m, it') | (None, it') \<Rightarrow> (0, it'))"

definition mmtk_close_mutator_iterator :: "registry \<Rightarrow> registry" where
  "mmtk_close_mutator_iterator r = r\<lparr>readers := readers r - 1\<rparr>"

text \<open>The results of \<open>n\<close> calls from C.\<close>

primrec next_tls_results :: "(addr \<Rightarrow> addr) \<Rightarrow> nat \<Rightarrow> mutator_iter \<Rightarrow> addr list" where
  "next_tls_results tls_of 0 it = []"
| "next_tls_results tls_of (Suc n) it =
     (case mmtk_get_next_mutator_tls tls_of it of (t, it') \<Rightarrow> t # next_tls_results tls_of n it')"

definition vm_trace_object :: "addr list \<Rightarrow> addr \<Rightarrow> addr \<times> addr list" where
  "vm_trace_object queue obj = (obj, queue @ [obj])"

section \<open>Every mutator is visited once\<close>

lemma iter_collect_from:
  assumes "unat (it_cursor it) \<le> length (it_vec it)" and "length (it_vec it) < 2 ^ 64"
  shows "mutator_iter_collect it = Some (drop (unat (it_cursor it)) (it_vec it))"
  using assms
proof (induction "length (it_vec it) - unat (it_cursor it)" arbitrary: it)
  case 0
  then show ?case
    by (subst mutator_iter_collect.simps) (simp add: mutator_iter_next_def Let_def)
next
  case (Suc k)
  let ?i = "unat (it_cursor it)"
  let ?it' = "it\<lparr>it_cursor := it_cursor it + 1\<rparr>"
  from Suc have i: "?i < length (it_vec it)"
    by simp
  then have u: "unat (it_cursor it + 1) = Suc ?i"
    using Suc.prems by (simp add: unat_add_no_wrap)
  have "mutator_iter_collect ?it' = Some (drop (Suc ?i) (it_vec it))"
    using Suc.hyps(1) [of ?it'] Suc.hyps(2) Suc.prems i u by simp
  then show ?case
    using i by (subst mutator_iter_collect.simps)
      (simp add: mutator_iter_next_def Let_def Cons_nth_drop_Suc)
qed

lemma next_tls_results_from:
  assumes "unat (it_cursor it) + n < 2 ^ 64"
  shows "next_tls_results tls_of n it
    = take n (map tls_of (drop (unat (it_cursor it)) (it_vec it)))
        @ replicate (n - (length (it_vec it) - unat (it_cursor it))) 0"
  using assms
proof (induction n arbitrary: it)
  case (Suc n)
  let ?i = "unat (it_cursor it)"
  let ?it' = "it\<lparr>it_cursor := it_cursor it + 1\<rparr>"
  have u: "unat (it_cursor it + 1) = Suc ?i"
    using Suc.prems by (simp add: unat_add_no_wrap)
  have IH: "next_tls_results tls_of n ?it' = take n (map tls_of (drop (Suc ?i) (it_vec it)))
      @ replicate (n - (length (it_vec it) - Suc ?i)) 0"
    using Suc.IH [of ?it'] Suc.prems u by simp
  show ?case
  proof (cases "?i < length (it_vec it)")
    case True
    then have "drop ?i (it_vec it) = it_vec it ! ?i # drop (Suc ?i) (it_vec it)"
      by (simp add: Cons_nth_drop_Suc)
    moreover have "Suc n - (length (it_vec it) - ?i) = n - (length (it_vec it) - Suc ?i)"
      using True by simp
    ultimately show ?thesis
      using True IH by (simp add: mmtk_get_next_mutator_tls_def mutator_iter_next_def Let_def)
  next
    case False
    then show ?thesis
      using IH by (simp add: mmtk_get_next_mutator_tls_def mutator_iter_next_def Let_def)
  qed
qed simp

text \<open>
  C24: whatever the order of the hash map, iterating over the mutators ends and visits the address
  of every registered mutator exactly once, and their number is the number of entries of the
  table; the C iterator yields the thread of each of them in the same order, and null in every
  call after that. While the iterator is open no mutator can be added or removed.
\<close>

theorem mutators_visited_once:
  assumes "hm_wf (mutators r)" and "\<And>ks. mset (hash_order ks) = mset ks"
    and "length (mutators r) + extra < 2 ^ 64"
    and "mmtk_new_mutator_iterator hash_order r = (it, r')"
  shows "\<exists>ms. all_mutators hash_order r = Some ms \<and> distinct ms
    \<and> set ms = {m. hm_get (mutators r) m \<noteq> None}
    \<and> number_of_mutators hash_order r = Some (of_nat (length (mutators r)))
    \<and> next_tls_results tls_of (length (mutators r) + extra) it
        = map tls_of ms @ replicate extra 0
    \<and> mmtk_post_bind_mutator r' a b = Inl Lock_busy \<and> mmtk_destroy_mutator r' a = Inl Lock_busy"
proof -
  let ?ms = "hash_order (hm_keys (mutators r))"
  have len: "length ?ms = length (mutators r)"
    using mset_eq_length [OF assms(2)] by (simp add: hm_keys_def)
  have it: "it = \<lparr>it_vec = ?ms, it_cursor = 0\<rparr>" "r' = r\<lparr>readers := Suc (readers r)\<rparr>"
    using assms(4) by (simp_all add: mmtk_new_mutator_iterator_def mutator_iter_new_def)
  have all: "all_mutators hash_order r = Some ?ms"
    using iter_collect_from [of it] it len assms(3)
    by (simp add: all_mutators_def mutator_iter_new_def)
  have "distinct ?ms" "set ?ms = {m. hm_get (mutators r) m \<noteq> None}"
    using mutator_hash.keys_distinct [OF assms(1)] mutator_hash.keys_get [OF assms(1)]
      mset_eq_imp_distinct_iff [OF assms(2)] mset_eq_setD [OF assms(2)] by simp_all
  moreover have "next_tls_results tls_of (length (mutators r) + extra) it
      = map tls_of ?ms @ replicate extra 0"
    using next_tls_results_from [of it "length (mutators r) + extra"] it len assms(3) by simp
  ultimately show ?thesis
    using all len it(2)
    by (simp add: number_of_mutators_def mmtk_post_bind_mutator_def mmtk_destroy_mutator_def)
qed

theorem mutators_visited_once_witness:
  "\<exists>ms. all_mutators rev \<lparr>mutators = [(0x100, 0x900), (0x200, 0xa00)], boxes = [0xa00, 0x900],
      readers = 0, destroyed = []\<rparr> = Some ms \<and> set ms = {0x100, 0x200} \<and> length ms = 2"
proof -
  let ?r = "\<lparr>mutators = [(0x100, 0x900), (0x200, 0xa00)], boxes = [0xa00, 0x900], readers = 0, destroyed = []\<rparr>"
  have wf: "hm_wf (mutators ?r)"
    by (simp add: hm_wf_def)
  obtain ms where ms: "all_mutators rev ?r = Some ms" "distinct ms"
      "set ms = {m. hm_get (mutators ?r) m \<noteq> None}"
    using mutators_visited_once [of ?r rev 3 _ _ "\<lambda>a. a" 0 0, OF wf _ _ surjective_pairing]
    by auto
  then have s: "set ms = {0x100, 0x200}"
    by (auto simp: hm_get_def split: if_splits)
  then show ?thesis
    using ms(1) distinct_card [OF ms(2)] by simp
qed

section \<open>Boxes are dropped once\<close>

datatype registry_event =
    Bind addr | Post_bind addr addr | Destroy addr | Open_iterator | Close_iterator

fun registry_apply :: "registry \<Rightarrow> registry_event \<Rightarrow> registry_fault + registry" where
  "registry_apply r (Bind b) = Inr (snd (mmtk_bind_mutator r b))"
| "registry_apply r (Post_bind m b) = mmtk_post_bind_mutator r m b"
| "registry_apply r (Destroy m) = mmtk_destroy_mutator r m"
| "registry_apply r Open_iterator = Inr (snd (mmtk_new_mutator_iterator id r))"
| "registry_apply r Close_iterator = Inr (mmtk_close_mutator_iterator r)"

text \<open>
  What the Julia runtime and the allocator promise: a new box is at a free address, a mutator is
  registered once, with the box it was bound to, and only a registered mutator is destroyed.
\<close>

fun event_ok :: "registry \<Rightarrow> registry_event \<Rightarrow> bool" where
  "event_ok r (Bind b) = (b \<notin> set (boxes r))"
| "event_ok r (Post_bind m b) =
     (b \<in> set (boxes r) \<and> b \<notin> snd ` set (mutators r) \<and> hm_get (mutators r) m = None)"
| "event_ok r (Destroy m) = (hm_get (mutators r) m \<noteq> None)"
| "event_ok r Open_iterator = True"
| "event_ok r Close_iterator = (readers r \<noteq> 0)"

inductive registry_reach :: "registry \<Rightarrow> bool" where
  init: "registry_reach empty_registry"
| event: "registry_reach r \<Longrightarrow> event_ok r e \<Longrightarrow> registry_apply r e = Inr r' \<Longrightarrow> registry_reach r'"

definition registry_ok :: "registry \<Rightarrow> bool" where
  "registry_ok r \<longleftrightarrow> hm_wf (mutators r) \<and> distinct (map snd (mutators r)) \<and> distinct (boxes r)
     \<and> snd ` set (mutators r) \<subseteq> set (boxes r)"

lemma insert_fresh:
  "hm_get t k = None \<Longrightarrow> hm_insert t k v = t @ [(k, v)]"
  unfolding hm_get_def hm_insert_def by (induction t) (auto split: if_splits)

lemma hm_remove_filter: "hm_remove t k = filter (\<lambda>p. fst p \<noteq> k) t"
  unfolding hm_remove_def AList.delete_eq by (rule filter_cong) auto

lemma registered_box_only_once:
  assumes "hm_get t m = Some b" and "distinct (map snd t)"
  shows "b \<in> snd ` set t" and "b \<notin> snd ` set (hm_remove t m)"
proof -
  have mb: "(m, b) \<in> set t"
    using assms(1) by (simp add: hm_get_def map_of_SomeD)
  then show "b \<in> snd ` set t"
    by force
  have "k = m" if "(k, b) \<in> set t" for k
    using assms(2) mb that eq_key_imp_eq_value [of "map prod.swap t" b k m]
    by (force simp: comp_def)
  then show "b \<notin> snd ` set (hm_remove t m)"
    by (auto simp: hm_remove_filter)
qed

lemma destroy_registered:
  assumes "registry_ok r" and "hm_get (mutators r) m = Some b" and "readers r = 0"
  shows "mmtk_destroy_mutator r m
      = Inr (r\<lparr>mutators := hm_remove (mutators r) m, boxes := remove1 b (boxes r),
          destroyed := destroyed r @ [m]\<rparr>)"
    and "registry_ok (r\<lparr>mutators := hm_remove (mutators r) m, boxes := remove1 b (boxes r),
          destroyed := destroyed r @ [m]\<rparr>)"
proof -
  have t: "distinct (map snd (mutators r))" and bs: "distinct (boxes r)"
    and sub: "snd ` set (mutators r) \<subseteq> set (boxes r)" and wf: "hm_wf (mutators r)"
    using assms(1) by (simp_all add: registry_ok_def)
  note b = registered_box_only_once [OF assms(2) t]
  show "mmtk_destroy_mutator r m
      = Inr (r\<lparr>mutators := hm_remove (mutators r) m, boxes := remove1 b (boxes r),
          destroyed := destroyed r @ [m]\<rparr>)"
    using b(1) sub assms(2,3) by (auto simp: mmtk_destroy_mutator_def drop_box_def)
  have "snd ` set (hm_remove (mutators r) m) \<subseteq> set (remove1 b (boxes r))"
    using b(2) sub bs by (auto simp: hm_remove_filter image_iff set_remove1_eq [OF bs])
  then show "registry_ok (r\<lparr>mutators := hm_remove (mutators r) m, boxes := remove1 b (boxes r),
          destroyed := destroyed r @ [m]\<rparr>)"
    using t bs mutator_hash.wf_remove [OF wf]
    by (simp add: registry_ok_def hm_remove_filter distinct_map_filter)
qed

lemma snd_subsetD: "snd ` set t \<subseteq> B \<Longrightarrow> (a, b) \<in> set t \<Longrightarrow> b \<in> B"
  by force

lemma registry_ok_step:
  assumes "registry_ok r" and "event_ok r e" and "registry_apply r e = Inr r'"
  shows "registry_ok r'"
proof (cases e)
  case (Bind b)
  then show ?thesis
    using assms by (auto simp: registry_ok_def mmtk_bind_mutator_def dest: snd_subsetD)
next
  case (Post_bind m b)
  then show ?thesis
    using assms mutator_hash.wf_insert [of "mutators r" m b]
    by (auto simp: registry_ok_def mmtk_post_bind_mutator_def insert_fresh
          dest: snd_subsetD split: if_splits)
next
  case (Destroy m)
  then have "readers r = 0"
    using assms(3) by (auto simp: mmtk_destroy_mutator_def Let_def split: if_splits)
  moreover obtain b where "hm_get (mutators r) m = Some b"
    using Destroy assms(2) by auto
  ultimately show ?thesis
    using destroy_registered [OF assms(1)] assms(3) Destroy by auto
next
  case Open_iterator
  then show ?thesis
    using assms by (auto simp: registry_ok_def mmtk_new_mutator_iterator_def dest: snd_subsetD)
next
  case Close_iterator
  then show ?thesis
    using assms by (auto simp: registry_ok_def mmtk_close_mutator_iterator_def dest: snd_subsetD)
qed

lemma registry_reach_ok: "registry_reach r \<Longrightarrow> registry_ok r"
proof (induction rule: registry_reach.induct)
  case init
  then show ?case
    by (simp add: registry_ok_def empty_registry_def hm_wf_def)
qed (rule registry_ok_step)

text \<open>
  C14: for a runtime that registers and destroys each mutator once, no sequence of calls drops a box
  twice, looks up a mutator that is not in the table, or leaves the table with a box that was
  dropped. Destroying a mutator either waits for the iterators to be closed or removes exactly its
  entry and drops exactly its box, after handing it to mmtk-core once: every other registered
  mutator keeps its own.
\<close>

theorem destroy_mutator_safe:
  assumes "registry_reach r" and "hm_get (mutators r) m = Some b"
  shows "snd ` set (mutators r) \<subseteq> set (boxes r) \<and>
    (case mmtk_destroy_mutator r m of
       Inl fault \<Rightarrow> fault = Lock_busy \<and> readers r \<noteq> 0
     | Inr r' \<Rightarrow> set (boxes r') = set (boxes r) - {b}
         \<and> (\<forall>m'. hm_get (mutators r') m' = (if m' = m then None else hm_get (mutators r) m'))
         \<and> length (hm_keys (mutators r')) + 1 = length (hm_keys (mutators r))
         \<and> destroyed r' = destroyed r @ [m])"
proof -
  have ok: "registry_ok r"
    by (rule registry_reach_ok) (rule assms(1))
  then have wf: "hm_wf (mutators r)" and bs: "distinct (boxes r)"
    and sub: "snd ` set (mutators r) \<subseteq> set (boxes r)"
    by (simp_all add: registry_ok_def)
  show ?thesis
  proof (cases "readers r = 0")
    case True
    then show ?thesis
      using destroy_registered(1) [OF ok assms(2)] sub mutator_hash.get_remove [OF wf]
        mutator_hash.count_remove [OF wf assms(2)] by (simp add: set_remove1_eq [OF bs])
  next
    case False
    then show ?thesis
      using sub by (simp add: mmtk_destroy_mutator_def)
  qed
qed

theorem destroy_mutator_safe_witness:
  "\<exists>r'. mmtk_destroy_mutator \<lparr>mutators = [(0x100, 0x900)], boxes = [0x900], readers = 0, destroyed = []\<rparr> 0x100 = Inr r'
    \<and> set (boxes r') = {}"
proof -
  let ?r = "\<lparr>mutators = [(0x100, 0x900)], boxes = [0x900], readers = 0, destroyed = []\<rparr>"
  let ?b = "\<lparr>mutators = [], boxes = [0x900], readers = 0, destroyed = []\<rparr>"
  have "registry_reach ?b"
    by (rule registry_reach.event [OF registry_reach.init, of "Bind 0x900"])
      (simp_all add: empty_registry_def mmtk_bind_mutator_def)
  then have "registry_reach ?r"
    by (rule registry_reach.event [of _ "Post_bind 0x100 0x900"])
      (simp_all add: mmtk_post_bind_mutator_def hm_insert_def hm_get_def)
  then have "case mmtk_destroy_mutator ?r 0x100 of Inl fault \<Rightarrow> fault = Lock_busy \<and> readers ?r \<noteq> 0
      | Inr r' \<Rightarrow> set (boxes r') = set (boxes ?r) - {0x900}"
    using destroy_mutator_safe [of ?r "0x100" "0x900"] by (simp add: hm_get_def split: sum.splits)
  then show ?thesis
    by (auto split: sum.splits)
qed

end
