(* ===== verification/Float64.thy ===== *)
theory Float64
  imports Prelude Complex_Main
begin

text \<open>
  The arithmetic of \<^verbatim>\<open>f64\<close> that \<^verbatim>\<open>gc_trigger.rs\<close> uses, on rational numbers: each operation is the exact
  one followed by rounding to the nearest value with 53 significant bits, ties to even, and a
  square root that is correctly rounded. The exponent is not bounded; the sizes and times the
  trigger computes with lie between \<open>2 ^ - 75\<close> and \<open>2 ^ 170\<close> or are 0, so neither overflow nor a
  subnormal number occurs and the result is that of IEEE 754 binary64.
\<close>

section \<open>The exponent of a number\<close>

fun nbits :: "nat \<Rightarrow> nat" where
  "nbits n = (if n = 0 then 0 else Suc (nbits (n div 2)))"

declare nbits.simps [simp del]

lemma nbits_bounds: "0 < n \<Longrightarrow> 2 ^ (nbits n - 1) \<le> n \<and> n < 2 ^ nbits n"
proof (induction n rule: nbits.induct)
  case (1 n)
  show ?case
  proof (cases "n div 2 = 0")
    case True
    with 1(2) have "n = 1"
      by auto
    then show ?thesis
      by (simp add: nbits.simps)
  next
    case False
    then have "2 ^ (nbits (n div 2) - 1) \<le> n div 2 \<and> n div 2 < 2 ^ nbits (n div 2)"
      using 1 by simp
    moreover have "nbits n = Suc (nbits (n div 2))" "0 < nbits (n div 2)"
      using False 1(2) by (simp_all add: nbits.simps)
    ultimately show ?thesis
      by (cases "nbits (n div 2)") auto
  qed
qed

definition exponent :: "rat \<Rightarrow> int" where
  "exponent x =
     (let (p, q) = quotient_of x; e = int (nbits (nat p)) - int (nbits (nat q))
      in if x < 2 powi e then e - 1 else e)"

lemma powi_nbits:
  assumes "0 < n"
  shows "2 powi (int (nbits n) - 1) \<le> (of_nat n :: rat)" "(of_nat n :: rat) < 2 powi int (nbits n)"
proof -
  have "0 < nbits n"
    using assms by (simp add: nbits.simps)
  then have "(2 :: rat) powi (int (nbits n) - 1) = 2 ^ (nbits n - 1)"
    by (simp add: power_int_def nat_diff_distrib)
  moreover have "(2 :: rat) ^ (nbits n - 1) \<le> of_nat n" "(of_nat n :: rat) < 2 ^ nbits n"
    using nbits_bounds [OF assms] of_nat_le_iff [of "2 ^ (nbits n - 1)" n, where 'a = rat]
      of_nat_less_iff [of n "2 ^ nbits n", where 'a = rat] by simp_all
  ultimately show "2 powi (int (nbits n) - 1) \<le> (of_nat n :: rat)"
    "(of_nat n :: rat) < 2 powi int (nbits n)"
    by simp_all
qed

lemma exponent_bounds:
  assumes "0 < x"
  shows "2 powi exponent x \<le> x" and "x < 2 powi (exponent x + 1)"
proof -
  obtain p q where pq: "quotient_of x = (p, q)"
    by (cases "quotient_of x")
  let ?a = "int (nbits (nat p))" and ?b = "int (nbits (nat q))"
  have q: "0 < q" and x: "x = of_int p / of_int q"
    using quotient_of_denom_pos [OF pq] quotient_of_div [OF pq] by simp_all
  then have p: "0 < p"
    using assms by (simp add: zero_less_divide_iff)
  have P: "2 powi (?a - 1) \<le> (of_int p :: rat)" "(of_int p :: rat) < 2 powi ?a"
    and Q: "2 powi (?b - 1) \<le> (of_int q :: rat)" "(of_int q :: rat) < 2 powi ?b"
    using powi_nbits [of "nat p"] powi_nbits [of "nat q"] p q by simp_all
  have "2 powi (?a - 1) / 2 powi ?b < x"
    unfolding x using P Q q p by (intro frac_less2) simp_all
  then have lo: "2 powi (?a - ?b - 1) < x"
    using power_int_diff [of "2 :: rat" "?a - 1" ?b] by (simp add: algebra_simps)
  have "x < 2 powi ?a / 2 powi (?b - 1)"
    unfolding x using P Q q p by (intro frac_less) simp_all
  then have hi: "x < 2 powi (?a - ?b + 1)"
    using power_int_diff [of "2 :: rat" ?a "?b - 1"] by (simp add: algebra_simps)
  show "2 powi exponent x \<le> x" "x < 2 powi (exponent x + 1)"
    using lo hi by (auto simp: exponent_def pq Let_def)
qed

section \<open>Rounding\<close>

text \<open>Nearest integer, ties to even.\<close>

definition round_even :: "rat \<Rightarrow> int" where
  "round_even x =
     (let f = \<lfloor>x\<rfloor>; d = x - of_int f
      in if d < 1 / 2 then f else if 1 / 2 < d then f + 1 else if even f then f else f + 1)"

definition rnd :: "rat \<Rightarrow> rat" where
  "rnd x =
     (if x = 0 then 0
      else let e = exponent \<bar>x\<bar> - 52; v = of_int (round_even (\<bar>x\<bar> / 2 powi e)) * 2 powi e
           in if 0 < x then v else - v)"

lemma round_even_of_int [simp]: "round_even (of_int n) = n"
  by (simp add: round_even_def)

lemma round_even_le: "x \<le> of_int n \<Longrightarrow> round_even x \<le> n"
  by (auto simp: round_even_def Let_def floor_le_iff)

lemma round_even_ge: "of_int n \<le> x \<Longrightarrow> n \<le> round_even x"
  using le_floor_iff [of n x] by (auto simp: round_even_def Let_def)

lemma rnd_pos_eq:
  "0 < x \<Longrightarrow> rnd x = of_int (round_even (x / 2 powi (exponent x - 52))) * 2 powi (exponent x - 52)"
  by (simp add: rnd_def Let_def)

lemma rnd_0 [simp]: "rnd 0 = 0"
  by (simp add: rnd_def)

lemma rnd_nonneg: "0 \<le> x \<Longrightarrow> 0 \<le> rnd x"
proof (cases "x = 0")
  case False
  assume "0 \<le> x"
  with False have "0 < x"
    by simp
  moreover have "0 \<le> round_even (x / 2 powi (exponent x - 52))"
    by (rule round_even_ge) (use \<open>0 \<le> x\<close> in simp)
  ultimately show ?thesis
    by (simp add: rnd_pos_eq)
qed simp

text \<open>An integer of at most 53 bits, in units of the last place of a smaller number.\<close>

lemma int_in_ulps:
  assumes "k \<le> 52"
  shows "(of_int n :: rat) / 2 powi (k - 52) = of_int (n * 2 ^ nat (52 - k))"
proof -
  have "(2 :: rat) powi (k - 52) = inverse (2 ^ nat (52 - k))"
    using assms by (simp add: power_int_def power_one_over inverse_eq_divide)
  then show ?thesis
    by (simp add: field_simps)
qed

lemma powi_ge: "(m :: int) \<le> k \<Longrightarrow> (2 :: rat) powi m \<le> 2 powi k"
  by (rule power_int_increasing) simp_all

lemma exponent_powi: "exponent (2 powi k) = k"
proof -
  have lo: "(2 :: rat) powi exponent (2 powi k) \<le> 2 powi k"
    and hi: "2 powi k < (2 :: rat) powi (exponent (2 powi k) + 1)"
    using exponent_bounds [of "2 powi k"] by simp_all
  have "\<not> k < exponent (2 powi k)"
    using lo power_int_strict_increasing [of k "exponent (2 powi k)" "2 :: rat"] by force
  moreover have "\<not> exponent (2 powi k) + 1 \<le> k"
    using hi powi_ge [of "exponent (2 powi k) + 1" k] by force
  ultimately show ?thesis
    by linarith
qed

lemma rnd_2_53: "rnd (2 ^ 53) = 2 ^ 53"
  using exponent_powi [of 53] round_even_of_int [of "2 ^ 52"] by (simp add: rnd_pos_eq)

lemma rnd_half: "rnd (1 / 2) = 1 / 2"
proof -
  have "exponent (1 / 2) = - 1"
    using exponent_powi [of "- 1"] by simp
  then show ?thesis
    using round_even_of_int [of "2 ^ 52"] by (simp add: rnd_pos_eq power_int_def power_one_over)
qed

lemma rnd_ge_int:
  assumes "of_int n \<le> x" and "n \<le> 2 ^ 53" and "0 < x"
  shows "of_int n \<le> rnd x"
proof (cases "exponent x \<le> 52")
  case True
  let ?u = "2 powi (exponent x - 52) :: rat"
  have u: "0 < ?u"
    by simp
  have "of_int n / ?u \<le> x / ?u"
    using assms(1) by (intro divide_right_mono) simp_all
  then have "n * 2 ^ nat (52 - exponent x) \<le> round_even (x / ?u)"
    unfolding int_in_ulps [OF True] by (rule round_even_ge)
  then have "of_int n / ?u \<le> of_int (round_even (x / ?u))"
    unfolding int_in_ulps [OF True] by (simp only: of_int_le_iff)
  then show ?thesis
    using u by (simp only: rnd_pos_eq [OF assms(3)] pos_divide_le_eq)
next
  case False
  let ?u = "2 powi (exponent x - 52) :: rat"
  have "(2 :: rat) powi exponent x = 2 ^ 52 * ?u"
    using power_int_add [of "2 :: rat" 52 "exponent x - 52"] by simp
  then have "2 ^ 52 \<le> x / ?u"
    using exponent_bounds(1) [OF assms(3)] by (simp add: field_simps)
  then have "2 ^ 52 \<le> round_even (x / ?u)"
    by (intro round_even_ge) simp
  then have "2 ^ 52 * ?u \<le> of_int (round_even (x / ?u)) * ?u"
    using of_int_le_iff [of "2 ^ 52" "round_even (x / ?u)", where 'a = rat]
    by (intro mult_right_mono) simp_all
  then have "2 powi exponent x \<le> rnd x"
    using \<open>(2 :: rat) powi exponent x = 2 ^ 52 * ?u\<close> by (simp add: rnd_pos_eq [OF assms(3)])
  moreover have "(2 :: rat) powi 53 \<le> 2 powi exponent x"
    using False by (intro powi_ge) simp
  moreover have "(of_int n :: rat) \<le> 2 powi 53"
    using assms(2) of_int_le_iff [of n "2 ^ 53", where 'a = rat] by simp
  ultimately show ?thesis
    by linarith
qed

lemma rnd_le_int:
  assumes "x \<le> of_int n" and "n \<le> 2 ^ 53" and "0 \<le> x"
  shows "rnd x \<le> of_int n"
proof (cases "x = 0 \<or> 2 ^ 53 \<le> x")
  case True
  then consider "x = 0" | "x = 2 ^ 53" "n = 2 ^ 53"
    using assms(1,2) of_int_le_iff [of n "2 ^ 53", where 'a = rat] by force
  then show ?thesis
  proof cases
    case 2
    then show ?thesis
      using rnd_2_53 by simp
  qed (use assms in simp)
next
  case False
  then have x: "0 < x" "x < 2 ^ 53"
    using assms(3) by simp_all
  let ?u = "2 powi (exponent x - 52) :: rat"
  have "(2 :: rat) powi exponent x < 2 powi 53"
    using exponent_bounds(1) [OF x(1)] x(2) by simp
  then have k: "exponent x \<le> 52"
    using powi_ge [of 53 "exponent x"] by linarith
  have "x / ?u \<le> of_int n / ?u"
    using assms(1) by (intro divide_right_mono) simp_all
  then have "round_even (x / ?u) \<le> n * 2 ^ nat (52 - exponent x)"
    unfolding int_in_ulps [OF k] by (rule round_even_le)
  then have "of_int (round_even (x / ?u)) \<le> of_int n / ?u"
    unfolding int_in_ulps [OF k] by (simp only: of_int_le_iff)
  moreover have "0 < ?u"
    by simp
  ultimately show ?thesis
    by (simp only: rnd_pos_eq [OF x(1)] pos_le_divide_eq)
qed

lemma rnd_of_int: "0 \<le> n \<Longrightarrow> n \<le> 2 ^ 53 \<Longrightarrow> rnd (of_int n) = of_int n"
  by (cases "n = 0") (simp_all add: antisym rnd_le_int rnd_ge_int)

section \<open>The operations\<close>

type_synonym f64 = rat

definition f64_of_usize :: "usize \<Rightarrow> f64" where
  "f64_of_usize w = rnd (of_nat (unat w))"

text \<open>\<^verbatim>\<open>as usize\<close> truncates and saturates.\<close>

definition usize_of_f64 :: "f64 \<Rightarrow> usize" where
  "usize_of_f64 x = (if x < 0 then 0 else if 2 ^ 64 \<le> x then - 1 else of_int \<lfloor>x\<rfloor>)"

definition fadd :: "f64 \<Rightarrow> f64 \<Rightarrow> f64" where
  "fadd x y = rnd (x + y)"

definition fsub :: "f64 \<Rightarrow> f64 \<Rightarrow> f64" where
  "fsub x y = rnd (x - y)"

definition fmul :: "f64 \<Rightarrow> f64 \<Rightarrow> f64" where
  "fmul x y = rnd (x * y)"

definition fdiv :: "f64 \<Rightarrow> f64 \<Rightarrow> f64" where
  "fdiv x y = rnd (x / y)"

fun isqrt :: "nat \<Rightarrow> nat" where
  "isqrt n =
     (if n = 0 then 0
      else let r = 2 * isqrt (n div 4) in if (r + 1) * (r + 1) \<le> n then r + 1 else r)"

declare isqrt.simps [simp del]

lemma isqrt_spec: "isqrt n * isqrt n \<le> n \<and> n < (isqrt n + 1) * (isqrt n + 1)"
proof (induction n rule: isqrt.induct)
  case (1 n)
  show ?case
  proof (cases "n = 0")
    case True
    then show ?thesis
      by (simp add: isqrt.simps)
  next
    case False
    let ?r = "isqrt (n div 4)"
    have "?r * ?r \<le> n div 4" "n div 4 < (?r + 1) * (?r + 1)"
      using 1 False by simp_all
    then have "2 * ?r * (2 * ?r) \<le> n" "n < (2 * ?r + 2) * (2 * ?r + 2)"
      by (simp_all add: algebra_simps) presburger+
    then show ?thesis
      using False by (subst (1 2 3 4) isqrt.simps) (simp add: Let_def)
  qed
qed

text \<open>
  The square root, scaled so that the integer root has at least 56 bits, with a sticky half for an
  inexact one: it never lies between the two candidates of a tie, so rounding is correct.
\<close>

definition fsqrt :: "f64 \<Rightarrow> f64" where
  "fsqrt x =
     (if x \<le> 0 then 0
      else let s = 56 - exponent x div 2; y = x * 2 powi (2 * s); r = isqrt (nat \<lfloor>y\<rfloor>);
               root = (if of_nat (r * r) = y then of_nat r else of_nat r + 1 / 2)
           in rnd (root / 2 powi s))"

lemma fsqrt_nonneg: "0 \<le> fsqrt x"
  by (simp add: fsqrt_def Let_def rnd_nonneg)

lemma f64_of_usize_nonneg: "0 \<le> f64_of_usize w"
  unfolding f64_of_usize_def by (rule rnd_nonneg, rule of_nat_0_le_iff)

lemma f64_of_usize_exact: "unat w \<le> 2 ^ 53 \<Longrightarrow> f64_of_usize w = of_nat (unat w)"
  using rnd_of_int [of "int (unat w)"] of_nat_le_iff [of "unat w" "2 ^ 53", where 'a = int]
  by (simp add: f64_of_usize_def)

lemma unat_usize_of_f64:
  assumes "0 \<le> x" and "x < 2 ^ 64"
  shows "unat (usize_of_f64 x) = nat \<lfloor>x\<rfloor>"
proof -
  have "\<lfloor>x\<rfloor> < 2 ^ 64"
    using assms(2) by (simp add: floor_less_iff)
  then have "nat \<lfloor>x\<rfloor> < 2 ^ 64"
    using assms(1) by (simp add: nat_less_iff)
  moreover have "usize_of_f64 x = of_nat (nat \<lfloor>x\<rfloor>)"
    using assms by (simp add: usize_of_f64_def)
  ultimately show ?thesis
    by (simp only: unat_of_nat_64)
qed

text \<open>The float in an interval of integers: so is its truncation.\<close>

lemma usize_of_f64_bounds:
  assumes "of_nat lo \<le> x" and "x \<le> of_nat hi" and "hi < 2 ^ 64"
  shows "lo \<le> unat (usize_of_f64 x)" and "unat (usize_of_f64 x) \<le> hi"
proof -
  have "(of_nat hi :: rat) < of_nat (2 ^ 64)"
    using assms(3) by (simp only: of_nat_less_iff)
  then have x: "0 \<le> x" "x < 2 ^ 64"
    using assms(1,2) by (simp_all add: order.trans [OF of_nat_0_le_iff])
  have "int lo \<le> \<lfloor>x\<rfloor>" "\<lfloor>x\<rfloor> \<le> int hi"
    using assms(1,2) by (simp_all add: le_floor_iff floor_le_iff)
  then show "lo \<le> unat (usize_of_f64 x)" "unat (usize_of_f64 x) \<le> hi"
    using unat_usize_of_f64 [OF x] by linarith+
qed

end
