(* ===== verification/GC_Trigger.thy ===== *)
theory GC_Trigger
  imports Float64
begin

text \<open>
  \<^verbatim>\<open>gc_trigger.rs\<close>: the heuristic that decides when to collect and how large the heap may grow. Its
  state is \<open>trigger\<close>, one field per atomic of \<^verbatim>\<open>JuliaGCTrigger\<close>; the callbacks run one at a time while
  the world is stopped, except \<^verbatim>\<open>on_pending_allocation\<close>, which only adds to a counter. What the
  callbacks ask of the plan and of the clock is the argument \<open>plan_view\<close>.
\<close>

section \<open>Smoothing and overallocation\<close>

definition DEFAULT_COLLECT_INTERVAL :: usize where
  "DEFAULT_COLLECT_INTERVAL = 5600 * 1024 * 8"

definition GC_ALWAYS_SWEEP_FULL :: bool where
  "GC_ALWAYS_SWEEP_FULL = False"

definition mmtk_jl_gc_smooth :: "usize \<Rightarrow> usize \<Rightarrow> f64 \<Rightarrow> usize" where
  "mmtk_jl_gc_smooth old_val new_val factor =
     (let est = fadd (fmul factor (f64_of_usize old_val)) (fmul (fsub 1 factor) (f64_of_usize new_val))
      in if est \<le> 1 then 1
         else if f64_of_usize (push_bit 36 2) < est then push_bit 36 2
         else usize_of_f64 est)"

definition mmtk_overallocation :: "usize \<Rightarrow> usize \<Rightarrow> usize \<Rightarrow> usize" where
  "mmtk_overallocation old_val val max_val =
     (let exp2 = nbits (unat old_val);
          inc = push_bit (exp2 * 7 div 8) 1 * 4 + old_val div 8
      in if max_val < inc + val \<and> max_val div 20 < inc then max_val div 20 else inc)"

section \<open>The state\<close>

record trigger =
  heap_target :: usize
  max_total_memory :: usize
  old_pause_time :: usize
  old_mut_time :: usize
  old_heap_size :: usize
  old_alloc_diff :: usize
  old_freed_diff :: usize
  gc_start_time :: usize
  gc_end_time :: usize
  mutator_time :: usize
  thrash_counter :: usize
  thrashing :: usize
  before_free_heap_size :: usize
  prev_sweep_full :: bool
  pending_pages :: usize

definition trigger_new :: "usize \<Rightarrow> trigger" where
  "trigger_new max_total_mem =
     \<lparr>heap_target = DEFAULT_COLLECT_INTERVAL, max_total_memory = max_total_mem,
      old_pause_time = usize_of_f64 10000000, old_mut_time = usize_of_f64 1000000000,
      old_heap_size = 0, old_alloc_diff = DEFAULT_COLLECT_INTERVAL,
      old_freed_diff = DEFAULT_COLLECT_INTERVAL, gc_start_time = 0, gc_end_time = 0,
      mutator_time = 0, thrash_counter = 0, thrashing = 0, before_free_heap_size = 0,
      prev_sweep_full = True, pending_pages = 0\<rparr>"

text \<open>
  What mmtk-core answers: the reserved pages, \<^verbatim>\<open>last_collection_full_heap\<close> of a generational plan
  (\<open>None\<close> for a plan that is not), whether the user asked for the collection and whether the plan
  itself requires one; its page size and conversion; and the time of \<^verbatim>\<open>jl_hrtime\<close>.
\<close>

record plan_view =
  get_reserved_pages :: usize
  generational :: "bool option"
  is_user_triggered_collection :: bool
  collection_required :: bool
  pages_to_bytes :: "usize \<Rightarrow> usize"
  bytes_in_page :: usize
  jl_hrtime :: u64

definition trigger_heap_size :: "plan_view \<Rightarrow> trigger \<Rightarrow> usize" where
  "trigger_heap_size p t = pages_to_bytes p (get_reserved_pages p + pending_pages t)"

definition on_gc_start :: "plan_view \<Rightarrow> trigger \<Rightarrow> trigger" where
  "on_gc_start p t =
     (let now = jl_hrtime p
      in t\<lparr>gc_start_time := now,
           mutator_time := (if gc_end_time t = 0 then old_mut_time t else now - gc_end_time t),
           before_free_heap_size := trigger_heap_size p t,
           prev_sweep_full := (case generational p of Some full \<Rightarrow> full | None \<Rightarrow> False)\<rparr>)"

section \<open>The end of a collection\<close>

definition target_by_rates :: "usize \<Rightarrow> usize \<Rightarrow> usize \<Rightarrow> usize \<Rightarrow> usize \<Rightarrow> f64" where
  "target_by_rates heap_size alloc_mem alloc_time gc_mem gc_time =
     (if alloc_mem \<noteq> 0 \<and> alloc_time \<noteq> 0 \<and> gc_mem \<noteq> 0 \<and> gc_time \<noteq> 0
      then let alloc_rate = fdiv (f64_of_usize alloc_mem) (f64_of_usize alloc_time);
               gc_rate = fdiv (f64_of_usize gc_mem) (f64_of_usize gc_time)
           in fmul (fsqrt (fdiv (fmul (f64_of_usize heap_size) alloc_rate) gc_rate)) 20000
      else 0)"

definition update_thrash_counter :: "usize \<Rightarrow> trigger \<Rightarrow> trigger" where
  "update_thrash_counter pause t =
     (if mutator_time t < pause \<and> 4 \<le> thrash_counter t
      then t\<lparr>thrash_counter := thrash_counter t + 1\<rparr>
      else if 0 < thrash_counter t then t\<lparr>thrash_counter := thrash_counter t - 1\<rparr>
      else t)"

definition update_thrashing :: "trigger \<Rightarrow> trigger" where
  "update_thrashing t =
     (if thrashing t = 0 \<and> 3 \<le> thrash_counter t then t\<lparr>thrashing := 1, thrash_counter := 6\<rparr>
      else if thrashing t = 1 \<and> thrash_counter t \<le> 2 then t\<lparr>thrashing := 0\<rparr>
      else t)"

definition min_target_allocs :: "usize \<Rightarrow> usize" where
  "min_target_allocs heap_size =
     (let min_allocs = heap_size div 20
      in if min_allocs < DEFAULT_COLLECT_INTERVAL div 8 then DEFAULT_COLLECT_INTERVAL div 8
         else min_allocs)"

definition max_target_allocs :: "usize \<Rightarrow> usize \<Rightarrow> usize \<Rightarrow> usize" where
  "max_target_allocs before_free heap_size user_max =
     (let max_allocs = mmtk_overallocation before_free heap_size user_max
      in if max_allocs < min_target_allocs heap_size then min_target_allocs heap_size else max_allocs)"

definition user_limit_allocs :: "f64 \<Rightarrow> usize \<Rightarrow> usize \<Rightarrow> f64" where
  "user_limit_allocs allocs heap_size user_max =
     (let target_heap = fadd allocs (f64_of_usize heap_size)
      in if f64_of_usize user_max < target_heap
         then if heap_size < user_max
              then fsub (f64_of_usize user_max) (f64_of_usize heap_size) else 1
         else allocs)"

definition thrashing_limit_allocs :: "f64 \<Rightarrow> usize \<Rightarrow> usize \<Rightarrow> usize \<Rightarrow> f64" where
  "thrashing_limit_allocs allocs thrash min_allocs max_allocs =
     (if thrash \<noteq> 0
      then let thrashing_allocs = fsqrt (fmul (f64_of_usize min_allocs) (f64_of_usize max_allocs))
           in if allocs < thrashing_allocs then thrashing_allocs else allocs
      else allocs)"

definition guard_allocs :: "f64 \<Rightarrow> usize \<Rightarrow> usize \<Rightarrow> f64" where
  "guard_allocs allocs min_allocs max_allocs =
     (let allocs' = (if f64_of_usize max_allocs < allocs then f64_of_usize max_allocs else allocs)
      in if allocs' < f64_of_usize min_allocs then f64_of_usize min_allocs else allocs')"

definition clamp_target ::
    "f64 \<Rightarrow> usize \<Rightarrow> usize \<Rightarrow> usize \<Rightarrow> usize \<Rightarrow> f64" where
  "clamp_target allocs0 heap_size before_free user_max thrash =
     (let min_allocs = min_target_allocs heap_size;
          max_allocs = max_target_allocs before_free heap_size user_max;
          allocs1 = user_limit_allocs allocs0 heap_size user_max;
          allocs2 = thrashing_limit_allocs allocs1 thrash min_allocs max_allocs;
          target_allocs = guard_allocs allocs2 min_allocs max_allocs;
          target_heap = fadd target_allocs (f64_of_usize heap_size)
      in if target_heap < f64_of_usize DEFAULT_COLLECT_INTERVAL
         then f64_of_usize DEFAULT_COLLECT_INTERVAL else target_heap)"

definition update_heap_target ::
    "usize \<Rightarrow> usize \<Rightarrow> usize \<Rightarrow> usize \<Rightarrow> usize \<Rightarrow> trigger \<Rightarrow> trigger" where
  "update_heap_target heap_size user_max alloc_diff freed_diff pause t =
     (let alloc_mem = mmtk_jl_gc_smooth (old_alloc_diff t) alloc_diff (rnd (95 / 100));
          alloc_time = mmtk_jl_gc_smooth (old_mut_time t) (mutator_time t) (rnd (95 / 100));
          gc_mem = mmtk_jl_gc_smooth (old_freed_diff t) freed_diff (1 / 2);
          gc_time = mmtk_jl_gc_smooth (old_pause_time t) pause (1 / 2);
          t1 = t\<lparr>old_alloc_diff := alloc_mem, old_mut_time := alloc_time, old_freed_diff := gc_mem,
                 old_pause_time := gc_time\<rparr>;
          t2 = update_thrash_counter pause t1;
          allocs0 = target_by_rates heap_size alloc_mem alloc_time gc_mem gc_time;
          t3 = update_thrashing t2
      in t3\<lparr>heap_target := usize_of_f64 (clamp_target allocs0 heap_size (before_free_heap_size t3)
                                         user_max (thrashing t3))\<rparr>)"

text \<open>Whether the next collection is forced to be a full one; only a generational plan can be.\<close>

definition force_full_heap :: "usize \<Rightarrow> usize \<Rightarrow> bool \<Rightarrow> bool \<Rightarrow> bool option \<Rightarrow> bool" where
  "force_full_heap heap_size user_max gc_auto prev generational_plan =
     (let sweep_full = (GC_ALWAYS_SWEEP_FULL \<or> user_max < heap_size \<or> \<not> gc_auto \<and> \<not> prev)
      in sweep_full \<and> generational_plan \<noteq> None)"

text \<open>The result is the new state and whether the next collection is forced to be a full one.\<close>

definition on_gc_end :: "plan_view \<Rightarrow> trigger \<Rightarrow> trigger \<times> bool" where
  "on_gc_end p t =
     (let now = jl_hrtime p;
          pause = now - gc_start_time t;
          heap_size = trigger_heap_size p t;
          user_max = max_total_memory t * 80 div 100;
          alloc_diff = before_free_heap_size t - old_heap_size t;
          freed_diff = before_free_heap_size t - heap_size;
          t1 = t\<lparr>gc_end_time := now, old_heap_size := heap_size\<rparr>;
          gc_auto = (\<not> is_user_triggered_collection p);
          t2 = (if gc_auto then update_heap_target heap_size user_max alloc_diff freed_diff pause t1
                else t1);
          full = force_full_heap heap_size user_max gc_auto (prev_sweep_full t2) (generational p)
      in (t2, full))"

section \<open>The other callbacks\<close>

definition on_pending_allocation :: "usize \<Rightarrow> trigger \<Rightarrow> trigger" where
  "on_pending_allocation pages t = t\<lparr>pending_pages := pending_pages t + pages\<rparr>"

definition is_heap_full :: "plan_view \<Rightarrow> trigger \<Rightarrow> bool" where
  "is_heap_full p t \<longleftrightarrow> heap_target t \<le> trigger_heap_size p t"

definition is_gc_required :: "plan_view \<Rightarrow> trigger \<Rightarrow> bool" where
  "is_gc_required p t = (if is_heap_full p t then True else collection_required p)"

definition get_current_heap_size_in_pages :: "plan_view \<Rightarrow> trigger \<Rightarrow> usize" where
  "get_current_heap_size_in_pages p t = heap_target t div bytes_in_page p"

definition get_max_heap_size_in_pages :: "plan_view \<Rightarrow> trigger \<Rightarrow> usize" where
  "get_max_heap_size_in_pages p t = max_total_memory t div bytes_in_page p"

definition can_heap_size_grow :: bool where
  "can_heap_size_grow = True"

section \<open>Bounds of the heuristics\<close>

lemma f64_literals:
  "f64_of_usize 137438953472 = 2 ^ 37" "f64_of_usize DEFAULT_COLLECT_INTERVAL = 45875200"
  by (subst f64_of_usize_exact; simp add: DEFAULT_COLLECT_INTERVAL_def)+

text \<open>
  The smoothed estimate of memory or time is between 1 and \<open>2 ^ 37\<close>, whatever the samples and
  the factor; in particular it is never 0, so the rates computed from it are defined.
\<close>

theorem gc_smooth_bounds:
  "1 \<le> unat (mmtk_jl_gc_smooth old_val new_val factor)
    \<and> unat (mmtk_jl_gc_smooth old_val new_val factor) \<le> 2 ^ 37"
proof -
  let ?est = "fadd (fmul factor (f64_of_usize old_val)) (fmul (fsub 1 factor) (f64_of_usize new_val))"
  consider "?est \<le> 1" | "2 ^ 37 < ?est" | "1 < ?est" "?est \<le> 2 ^ 37"
    by linarith
  then show ?thesis
  proof cases
    case 3
    then have "\<not> ?est \<le> 1" "\<not> 2 ^ 37 < ?est"
      by simp_all
    then have "mmtk_jl_gc_smooth old_val new_val factor = usize_of_f64 ?est"
      by (simp add: mmtk_jl_gc_smooth_def f64_literals Let_def)
    then show ?thesis
      using usize_of_f64_bounds [of 1 ?est "2 ^ 37"] 3 by simp
  qed (auto simp: mmtk_jl_gc_smooth_def f64_literals Let_def)
qed

text \<open>
  When the sizes are below \<open>2 ^ 60\<close>, the overallocation does not take the heap past the user's
  maximum by more than a twentieth of that maximum, and unless it is cut by the maximum it is at
  least an eighth of the old size.
\<close>

theorem overallocation_bounds:
  assumes "unat old_val < 2 ^ 60" and "unat val < 2 ^ 60"
  shows "(unat (mmtk_overallocation old_val val max_val) + unat val \<le> unat max_val
      \<or> unat (mmtk_overallocation old_val val max_val) \<le> unat max_val div 20)
    \<and> (unat old_val div 8 \<le> unat (mmtk_overallocation old_val val max_val)
      \<or> mmtk_overallocation old_val val max_val = max_val div 20)"
proof -
  let ?k = "nbits (unat old_val) * 7 div 8"
  let ?inc = "push_bit ?k 1 * 4 + old_val div 8 :: usize"
  have "nbits (unat old_val) \<le> 60"
  proof (rule ccontr)
    assume "\<not> nbits (unat old_val) \<le> 60"
    then have "0 < unat old_val" "60 \<le> nbits (unat old_val) - 1"
      using nbits.simps [of 0] by (auto intro: gr0I)
    moreover from this(2) have "(2 :: nat) ^ 60 \<le> 2 ^ (nbits (unat old_val) - 1)"
      by (rule power_increasing) simp
    ultimately show False
      using nbits_bounds [of "unat old_val"] assms(1) by linarith
  qed
  then have "nbits (unat old_val) * 7 \<le> 420"
    by simp
  then have "?k \<le> 420 div 8"
    by (rule div_le_mono)
  then have "?k \<le> 52"
    by simp
  then have "(2 :: nat) ^ ?k \<le> 2 ^ 52"
    by (intro power_increasing) simp_all
  then have p: "(2 :: nat) ^ ?k * 4 \<le> 2 ^ 54"
    by simp
  have "unat (push_bit ?k 1 * 4 :: usize) = 2 ^ ?k * 4"
    using unat_of_nat_64 [of "2 ^ ?k * 4"] p by (simp add: push_bit_eq_mult)
  moreover have "unat (old_val div 8) = unat old_val div 8"
    by (simp add: unat_div_distrib)
  ultimately have inc: "unat ?inc = 2 ^ ?k * 4 + unat old_val div 8"
    using p assms(1) by (subst unat_add_no_wrap) auto
  then have sum: "unat (?inc + val) = unat ?inc + unat val"
    using p assms by (subst unat_add_no_wrap) auto
  have m: "unat (max_val div 20) = unat max_val div 20"
    by (simp add: unat_div_distrib)
  show ?thesis
    using inc sum m
    by (auto simp: mmtk_overallocation_def Let_def word_less_nat_alt not_less)
qed

theorem overallocation_bounds_witness:
  "mmtk_overallocation 1024 1000 1000000 = 2176 \<and> (2176 :: nat) + 1000 \<le> 1000000"
proof -
  have v: "mmtk_overallocation 1024 1000 1000000 = 2176"
    by (simp add: mmtk_overallocation_def nbits.simps)
  then show ?thesis
    using overallocation_bounds [of 1024 1000 1000000] by simp
qed

section \<open>The heap target\<close>

lemma unat_min_target: "unat (min_target_allocs h) = max (unat h div 20) 5734400"
  by (simp add: min_target_allocs_def DEFAULT_COLLECT_INTERVAL_def Let_def word_less_nat_alt
      unat_div_distrib)

lemma max_target_eq:
  "unat (max_target_allocs b h u) = max (unat (mmtk_overallocation b h u)) (unat (min_target_allocs h))"
  by (simp add: max_target_allocs_def Let_def word_less_nat_alt)

lemma guard_allocs_bounds:
  assumes "unat mn \<le> unat mx" and "unat mx \<le> 2 ^ 53"
  shows "of_nat (unat mn) \<le> guard_allocs a mn mx" and "guard_allocs a mn mx \<le> of_nat (unat mx)"
proof -
  note of_nat_unat [simp del]
  have "f64_of_usize mn = of_nat (unat mn)" "f64_of_usize mx = of_nat (unat mx)"
    using assms by (auto intro!: f64_of_usize_exact)
  then show "of_nat (unat mn) \<le> guard_allocs a mn mx" "guard_allocs a mn mx \<le> of_nat (unat mx)"
    using assms(1) by (simp_all add: guard_allocs_def Let_def not_less)
qed

lemma clamp_target_bounds:
  assumes "unat h \<le> 2 ^ 52" and "unat (max_target_allocs b h u) \<le> 2 ^ 52"
  shows "of_nat (max 45875200 (unat h + unat (min_target_allocs h))) \<le> clamp_target a h b u th"
    and "clamp_target a h b u th \<le> of_nat (max 45875200 (unat h + unat (max_target_allocs b h u)))"
proof -
  note of_nat_unat [simp del]
  let ?mn = "min_target_allocs h" and ?mx = "max_target_allocs b h u"
  let ?a = "guard_allocs (thrashing_limit_allocs (user_limit_allocs a h u) th ?mn ?mx) ?mn ?mx"
  have le: "unat ?mn \<le> unat ?mx"
    by (simp add: max_target_eq)
  have h: "f64_of_usize h = of_nat (unat h)"
    using assms by (intro f64_of_usize_exact) simp
  have g: "of_nat (unat ?mn) \<le> ?a" "?a \<le> of_nat (unat ?mx)"
    using guard_allocs_bounds [OF le] assms(2) by simp_all
  let ?s = "?a + of_nat (unat h)"
  have "0 < unat ?mn"
    by (simp add: unat_min_target)
  then have "(0 :: rat) < of_nat (unat ?mn)"
    by simp
  then have pos: "0 < ?s"
    using g(1) by linarith
  have "of_int (int (unat ?mn + unat h)) \<le> ?s" "?s \<le> of_int (int (unat ?mx + unat h))"
    using g by simp_all
  moreover have "int (unat ?mx + unat h) \<le> 2 ^ 53"
    using assms by simp
  ultimately have "of_int (int (unat ?mn + unat h)) \<le> rnd ?s" "rnd ?s \<le> of_int (int (unat ?mx + unat h))"
    using le pos rnd_ge_int [of "int (unat ?mn + unat h)" ?s] rnd_le_int [of ?s "int (unat ?mx + unat h)"]
    by linarith+
  then have r: "of_nat (unat h + unat ?mn) \<le> fadd ?a (of_nat (unat h))"
    "fadd ?a (of_nat (unat h)) \<le> of_nat (unat h + unat ?mx)"
    by (simp_all add: fadd_def add.commute)
  have "clamp_target a h b u th = max 45875200 (fadd ?a (of_nat (unat h)))"
    by (simp add: clamp_target_def Let_def h f64_literals max_def)
  then show "of_nat (max 45875200 (unat h + unat ?mn)) \<le> clamp_target a h b u th"
    "clamp_target a h b u th \<le> of_nat (max 45875200 (unat h + unat ?mx))"
    using r by (auto simp: max_def)
qed

lemma thrash_updates [simp]:
  "before_free_heap_size (update_thrash_counter pause t) = before_free_heap_size t"
  "before_free_heap_size (update_thrashing t) = before_free_heap_size t"
  "old_freed_diff (update_thrash_counter pause t) = old_freed_diff t"
  "old_freed_diff (update_thrashing t) = old_freed_diff t"
  "pending_pages (update_thrash_counter pause t) = pending_pages t"
  "pending_pages (update_thrashing t) = pending_pages t"
  "max_total_memory (update_thrash_counter pause t) = max_total_memory t"
  "max_total_memory (update_thrashing t) = max_total_memory t"
  "prev_sweep_full (update_thrash_counter pause t) = prev_sweep_full t"
  "prev_sweep_full (update_thrashing t) = prev_sweep_full t"
  by (simp_all add: update_thrash_counter_def update_thrashing_def)

text \<open>
  C17: after a collection the user did not force, the new heap target is at least the default
  interval of 5600 * 1024 words and at least the heap size plus the minimal allowance (a twentieth
  of the heap, or an eighth of the interval); and it is at most the heap size plus the maximal
  allowance (the overallocation, if larger than the minimum), or the default interval. The square
  root, the rates and the rounding of the estimate cannot take it out of these bounds.
\<close>

theorem heap_target_bounds:
  assumes "\<not> is_user_triggered_collection p" and "h = trigger_heap_size p t" and "unat h \<le> 2 ^ 52"
    and "mx = max_target_allocs (before_free_heap_size t) h (max_total_memory t * 80 div 100)"
    and "unat mx \<le> 2 ^ 52"
  shows "max 45875200 (unat h + max (unat h div 20) 5734400) \<le> unat (heap_target (fst (on_gc_end p t)))
    \<and> unat (heap_target (fst (on_gc_end p t))) \<le> max 45875200 (unat h + unat mx)"
proof -
  obtain a th where t: "heap_target (fst (on_gc_end p t)) = usize_of_f64
      (clamp_target a h (before_free_heap_size t) (max_total_memory t * 80 div 100) th)"
    using assms(1,2) by (auto simp: on_gc_end_def update_heap_target_def Let_def)
  have "max 45875200 (unat h + unat mx) < 2 ^ 64"
    using assms(3,5) by simp
  then show ?thesis
    unfolding t unat_min_target [symmetric]
    using clamp_target_bounds [OF assms(3) assms(5) [unfolded assms(4)]] assms(4)
    by (intro conjI usize_of_f64_bounds) (simp_all add: max_def split: if_splits)
qed

definition sample_plan :: "bool \<Rightarrow> usize \<Rightarrow> plan_view" where
  "sample_plan user pages =
     \<lparr>get_reserved_pages = pages, generational = None, is_user_triggered_collection = user,
      collection_required = False, pages_to_bytes = push_bit 12, bytes_in_page = 4096,
      jl_hrtime = 5000\<rparr>"

lemma sample_heap_size:
  "trigger_heap_size (sample_plan user 25600) (trigger_new n) = 104857600"
  by (simp add: trigger_heap_size_def sample_plan_def trigger_new_def push_bit_eq_mult)

theorem heap_target_bounds_witness:
  "heap_target (fst (on_gc_end (sample_plan False 25600) (trigger_new 1000000000))) = 110592000"
proof -
  let ?mx = "max_target_allocs 0 104857600 8000000"
  have mx: "unat ?mx = 5734400"
    by (simp add: max_target_eq unat_min_target mmtk_overallocation_def nbits.simps)
  let ?r = "heap_target (fst (on_gc_end (sample_plan False 25600) (trigger_new 1000000000)))"
  have "max 45875200 (unat (104857600 :: usize) + max (unat (104857600 :: usize) div 20) 5734400) \<le> unat ?r
    \<and> unat ?r \<le> max 45875200 (unat (104857600 :: usize) + unat ?mx)"
  proof (rule heap_target_bounds)
    show "?mx = max_target_allocs (before_free_heap_size (trigger_new 1000000000)) 104857600
        (max_total_memory (trigger_new 1000000000) * 80 div 100)"
      by (simp add: trigger_new_def max_target_allocs_def mmtk_overallocation_def nbits.simps)
  qed (simp_all add: mx sample_heap_size, simp add: sample_plan_def)
  then have "unat ?r = 110592000"
    unfolding mx by simp
  then have "unat ?r = unat (110592000 :: usize)"
    by simp
  then show ?thesis
    by (simp only: word_unat_eq_iff)
qed

text \<open>
  A collection the user forced changes neither the heap target nor the history of allocation and
  collection rates; it only records the end time and the heap size.
\<close>

theorem forced_gc_keeps_target:
  assumes "is_user_triggered_collection p"
  shows "fst (on_gc_end p t) = t\<lparr>gc_end_time := jl_hrtime p, old_heap_size := trigger_heap_size p t\<rparr>"
  using assms by (simp add: on_gc_end_def Let_def)

theorem forced_gc_keeps_target_witness:
  "heap_target (fst (on_gc_end (sample_plan True 25600) (trigger_new 1000000000))) = 45875200"
  using forced_gc_keeps_target [of "sample_plan True 25600" "trigger_new 1000000000"]
  by (simp add: sample_plan_def trigger_new_def DEFAULT_COLLECT_INTERVAL_def)

text \<open>
  The next collection is forced to be a full one exactly when the plan is generational and
  either the heap is over 80% of the memory limit, or the user forced this collection and the
  collection last recorded was not a full one.
\<close>

theorem sweep_full_iff:
  "snd (on_gc_end p t) \<longleftrightarrow> generational p \<noteq> None \<and>
    (max_total_memory t * 80 div 100 < trigger_heap_size p t
     \<or> is_user_triggered_collection p \<and> \<not> prev_sweep_full t)"
  by (auto simp: on_gc_end_def force_full_heap_def Let_def GC_ALWAYS_SWEEP_FULL_def
      update_heap_target_def)

section \<open>Runs of the trigger\<close>

text \<open>The callbacks in any order, as mmtk-core may call them.\<close>

inductive trigger_step :: "trigger \<Rightarrow> trigger \<Rightarrow> bool" where
  gc_start: "trigger_step t (on_gc_start p t)"
| gc_end: "trigger_step t (fst (on_gc_end p t))"
| pending: "trigger_step t (on_pending_allocation pages t)"

inductive_cases trigger_stepE: "trigger_step t t'"

inductive trigger_run :: "trigger \<Rightarrow> trigger \<Rightarrow> bool" where
  start: "trigger_run t t"
| step: "trigger_run t t' \<Longrightarrow> trigger_step t' t'' \<Longrightarrow> trigger_run t t''"

definition never_thrashing :: "trigger \<Rightarrow> bool" where
  "never_thrashing t \<longleftrightarrow> thrash_counter t = 0 \<and> thrashing t = 0"

lemma never_thrashing_step: "trigger_step t t' \<Longrightarrow> never_thrashing t \<Longrightarrow> never_thrashing t'"
  by (erule trigger_stepE)
    (auto simp: never_thrashing_def on_gc_start_def on_gc_end_def on_pending_allocation_def
      update_heap_target_def update_thrash_counter_def update_thrashing_def Let_def)

text \<open>
  C37: from the state \<^verbatim>\<open>new\<close> builds, no sequence of callbacks ever counts a thrashing cycle or enters
  the thrashing mode, whatever the pause and mutator times: the counter is only incremented once
  it is at least 4, and it starts at 0.
\<close>

theorem thrashing_unreachable:
  assumes "trigger_run (trigger_new max_mem) t"
  shows "thrash_counter t = 0 \<and> thrashing t = 0"
proof -
  have "trigger_run t t' \<Longrightarrow> never_thrashing t \<Longrightarrow> never_thrashing t'" for t t'
    by (induction rule: trigger_run.induct) (auto dest: never_thrashing_step)
  moreover have "never_thrashing (trigger_new max_mem)"
    by (simp add: never_thrashing_def trigger_new_def)
  ultimately show ?thesis
    using assms by (auto simp: never_thrashing_def)
qed

theorem thrashing_unreachable_witness:
  "thrash_counter (fst (on_gc_end (sample_plan False 1000) (trigger_new (2 ^ 34)))) = 0
    \<and> thrashing (fst (on_gc_end (sample_plan False 1000) (trigger_new (2 ^ 34)))) = 0"
  by (rule thrashing_unreachable) (rule trigger_run.intros trigger_step.intros)+

text \<open>
  The collections of a run never lower the count of pending pages: with only \<^verbatim>\<open>on_gc_start\<close> and
  \<^verbatim>\<open>on_gc_end\<close> between, it stays what the failed allocations added up to, so pages that were
  allocated after the collection keep being added to the heap size.
\<close>

theorem pending_pages_kept:
  "pending_pages (on_gc_start p t) = pending_pages t
    \<and> pending_pages (fst (on_gc_end p t)) = pending_pages t
    \<and> (\<forall>n. pending_pages (on_pending_allocation n t) = pending_pages t + n)
    \<and> trigger_heap_size p' (fst (on_gc_end p (on_gc_start p t)))
        = pages_to_bytes p' (get_reserved_pages p' + pending_pages t)"
  by (simp add: on_gc_start_def on_gc_end_def on_pending_allocation_def update_heap_target_def Let_def
      trigger_heap_size_def)

lemma smooth_of_huge:
  assumes "2 ^ 53 \<le> unat new_val"
  shows "mmtk_jl_gc_smooth old_val new_val (1 / 2) = push_bit 36 2"
proof -
  note of_nat_unat [simp del]
  let ?new = "fmul (fsub 1 (1 / 2)) (f64_of_usize new_val)"
  let ?old = "fmul (1 / 2) (f64_of_usize old_val)"
  have "(of_nat (2 ^ 53) :: rat) \<le> of_nat (unat new_val)"
    using assms by (simp only: of_nat_le_iff)
  then have "of_int (2 ^ 53) \<le> f64_of_usize new_val"
    unfolding f64_of_usize_def by (intro rnd_ge_int) simp_all
  then have "of_int (2 ^ 52) \<le> ?new"
    unfolding fmul_def fsub_def by (intro rnd_ge_int) (simp_all add: rnd_half)
  moreover have "0 \<le> ?old"
    unfolding fmul_def by (intro rnd_nonneg) (simp add: f64_of_usize_nonneg)
  ultimately have "of_int (2 ^ 52) \<le> fadd ?old ?new"
    unfolding fadd_def [of ?old] by (intro rnd_ge_int) simp_all
  then show ?thesis
    by (simp add: mmtk_jl_gc_smooth_def f64_literals Let_def)
qed

text \<open>
  C38: the freed bytes are an unsigned difference. When the heap is larger at the end of a collection
  than it was at the start, the difference wraps around and the history records the largest
  possible amount, \<open>2 ^ 37\<close> bytes, as freed.
\<close>

theorem freed_diff_wraps:
  assumes "\<not> is_user_triggered_collection p"
    and "before_free_heap_size t < trigger_heap_size p t"
    and "unat (trigger_heap_size p t) \<le> 2 ^ 60"
  shows "unat (old_freed_diff (fst (on_gc_end p t))) = 2 ^ 37"
proof -
  have "unat (before_free_heap_size t - trigger_heap_size p t)
      = 2 ^ 64 + unat (before_free_heap_size t) - unat (trigger_heap_size p t)"
    using assms(2) by (simp add: unat_sub_if' word_less_nat_alt)
  then have "2 ^ 53 \<le> unat (before_free_heap_size t - trigger_heap_size p t)"
    using assms(3) by simp
  from smooth_of_huge [OF this] show ?thesis
    using assms(1) by (simp add: on_gc_end_def update_heap_target_def Let_def)
qed

theorem freed_diff_wraps_witness:
  "unat (old_freed_diff (fst (on_gc_end (sample_plan False 25600) (trigger_new 1000000000)))) = 2 ^ 37"
  by (rule freed_diff_wraps)
    (simp_all add: sample_heap_size, simp_all add: sample_plan_def trigger_new_def)

end
