(* ===== verification/Collection.thy ===== *)
theory Collection
  imports Mutators GC_Trigger
begin

text \<open>
  \<^verbatim>\<open>collection.rs\<close>: the set of GC threads, and the handshake that stops and resumes the world.

  One Julia thread at a time runs \<^verbatim>\<open>mmtk_block_thread_for_gc\<close>: the C function
  \<^verbatim>\<open>jl_gc_prepare_to_collect\<close> elects it and has stopped all the others at their safepoints. A GC
  worker runs \<^verbatim>\<open>stop_all_mutators\<close> and, after the collection, \<^verbatim>\<open>resume_mutators\<close>. The two share the
  flags \<^verbatim>\<open>BLOCK_FOR_GC\<close> and \<^verbatim>\<open>WORLD_HAS_STOPPED\<close> and the condition variable \<^verbatim>\<open>STW_COND\<close>. Every access
  to one of them is a step of its own, and the steps of the two threads interleave in any order;
  the atomics are sequentially consistent in the code.
\<close>

section \<open>GC threads\<close>

type_synonym thread_id = u64

definition register_gc_thread :: "thread_id set \<Rightarrow> thread_id \<Rightarrow> thread_id set" where
  "register_gc_thread gc_threads i = insert i gc_threads"

definition unregister_gc_thread :: "thread_id set \<Rightarrow> thread_id \<Rightarrow> thread_id set" where
  "unregister_gc_thread gc_threads i = gc_threads - {i}"

definition is_gc_thread :: "thread_id set \<Rightarrow> thread_id \<Rightarrow> bool" where
  "is_gc_thread gc_threads i \<longleftrightarrow> i \<in> gc_threads"

text \<open>
  The body of a spawned GC thread. The worker loop of mmtk-core, which may change the set through
  other threads, returns the set or panics; a panic unwinds without unregistering the thread.
\<close>

definition spawn_gc_thread ::
    "(thread_id set \<Rightarrow> thread_id \<Rightarrow> fault + thread_id set) \<Rightarrow> thread_id set \<Rightarrow> thread_id
      \<Rightarrow> fault + thread_id set" where
  "spawn_gc_thread start_worker gc_threads i =
     rbind (start_worker (register_gc_thread gc_threads i) i)
       (\<lambda>ts. Inr (unregister_gc_thread ts i))"

text \<open>The panic hook: a panic in a GC thread aborts the process, any other goes to the old hook.\<close>

datatype panic_outcome = Abort | Old_hook

definition panic_hook :: "thread_id set \<Rightarrow> thread_id \<Rightarrow> panic_outcome" where
  "panic_hook gc_threads i = (if is_gc_thread gc_threads i then Abort else Old_hook)"

section \<open>Queries of mmtk-core\<close>

text \<open>The plan is \<open>Some nursery\<close> when it is generational.\<close>

definition is_current_gc_nursery :: "bool option \<Rightarrow> bool" where
  "is_current_gc_nursery generational_plan = (case generational_plan of Some gen \<Rightarrow> gen | None \<Rightarrow> False)"

definition is_collection_enabled :: "u32 \<Rightarrow> bool" where
  "is_collection_enabled gc_disable_counter \<longleftrightarrow> gc_disable_counter = 0"

definition create_gc_trigger :: "usize \<Rightarrow> usize \<Rightarrow> trigger" where
  "create_gc_trigger max_memory total_memory =
     (let heap_size = min max_memory total_memory in trigger_new heap_size)"

section \<open>The handshake\<close>

text \<open>Where the blocking thread is in \<^verbatim>\<open>mmtk_block_thread_for_gc\<close>.\<close>

datatype block_pc =
    B_outside      \<comment> \<open>not called; Julia code may run\<close>
  | B_called       \<comment> \<open>about to set \<^verbatim>\<open>BLOCK_FOR_GC\<close>\<close>
  | B_lock         \<comment> \<open>about to take the mutex\<close>
  | B_store_world  \<comment> \<open>about to set \<^verbatim>\<open>WORLD_HAS_STOPPED\<close>\<close>
  | B_test         \<comment> \<open>about to load \<^verbatim>\<open>BLOCK_FOR_GC\<close> in the loop\<close>
  | B_sleep        \<comment> \<open>has loaded true, about to wait\<close>
  | B_asleep       \<comment> \<open>waits on the condition variable, the mutex released\<close>
  | B_woken        \<comment> \<open>woken, about to take the mutex again\<close>
  | B_leave        \<comment> \<open>has loaded false, about to reset \<^verbatim>\<open>USER_TRIGGERED_GC\<close>\<close>

text \<open>Where the GC worker is in \<^verbatim>\<open>stop_all_mutators\<close> and \<^verbatim>\<open>resume_mutators\<close>.\<close>

datatype gc_pc =
    G_idle               \<comment> \<open>no collection\<close>
  | G_spin               \<comment> \<open>spins on \<^verbatim>\<open>WORLD_HAS_STOPPED\<close>\<close>
  | G_visit "addr list"  \<comment> \<open>mutators still to be visited\<close>
  | G_collect            \<comment> \<open>\<^verbatim>\<open>stop_all_mutators\<close> has returned\<close>
  | G_unblock            \<comment> \<open>in \<^verbatim>\<open>resume_mutators\<close>, about to clear \<^verbatim>\<open>BLOCK_FOR_GC\<close>\<close>
  | G_clear_world        \<comment> \<open>about to clear \<^verbatim>\<open>WORLD_HAS_STOPPED\<close>\<close>
  | G_notify             \<comment> \<open>about to notify the condition variable\<close>

record handshake =
  block_for_gc :: bool
  world_has_stopped :: bool
  user_triggered_gc :: u64
  gc_start_clock :: u64
  gc_requested :: bool
  lock_free :: bool
  block_at :: block_pc
  gc_at :: gc_pc
  visited_mutators :: "addr list"
  reported_times :: "u64 list"

definition initial_handshake :: handshake where
  "initial_handshake = \<lparr>block_for_gc = False, world_has_stopped = False, user_triggered_gc = 0,
     gc_start_clock = 0, gc_requested = False, lock_free = True, block_at = B_outside,
     gc_at = G_idle, visited_mutators = [], reported_times = []\<rparr>"

text \<open>
  One step of each function; \<open>None\<close> when it cannot move. The mutex guard \<^verbatim>\<open>count\<close> is dropped when
  \<^verbatim>\<open>mmtk_block_thread_for_gc\<close> returns.
\<close>

definition block_thread_step :: "handshake \<Rightarrow> handshake option" where
  "block_thread_step s =
     (case block_at s of
        B_outside \<Rightarrow> None
      | B_called \<Rightarrow> Some (s\<lparr>block_for_gc := True, block_at := B_lock\<rparr>)
      | B_lock \<Rightarrow> if lock_free s then Some (s\<lparr>lock_free := False, block_at := B_store_world\<rparr>) else None
      | B_store_world \<Rightarrow> Some (s\<lparr>world_has_stopped := True, block_at := B_test\<rparr>)
      | B_test \<Rightarrow> Some (s\<lparr>block_at := (if block_for_gc s then B_sleep else B_leave)\<rparr>)
      | B_sleep \<Rightarrow> Some (s\<lparr>lock_free := True, block_at := B_asleep\<rparr>)
      | B_asleep \<Rightarrow> None
      | B_woken \<Rightarrow> if lock_free s then Some (s\<lparr>lock_free := False, block_at := B_test\<rparr>) else None
      | B_leave \<Rightarrow> Some (s\<lparr>user_triggered_gc := 0, lock_free := True, block_at := B_outside\<rparr>))"

definition stop_all_mutators_step :: "addr list \<Rightarrow> u64 \<Rightarrow> handshake \<Rightarrow> handshake option" where
  "stop_all_mutators_step ms now s =
     (case gc_at s of
        G_spin \<Rightarrow> if world_has_stopped s then Some (s\<lparr>gc_at := G_visit ms\<rparr>) else None
      | G_visit (m # rest) \<Rightarrow>
          Some (s\<lparr>visited_mutators := visited_mutators s @ [m], gc_at := G_visit rest\<rparr>)
      | G_visit [] \<Rightarrow> Some (s\<lparr>gc_start_clock := now, gc_at := G_collect\<rparr>)
      | _ \<Rightarrow> None)"

definition resume_mutators_step :: "u64 \<Rightarrow> handshake \<Rightarrow> handshake option" where
  "resume_mutators_step now s =
     (case gc_at s of
        G_collect \<Rightarrow> Some (s\<lparr>reported_times := reported_times s @ [now - gc_start_clock s],
                            gc_at := G_unblock\<rparr>)
      | G_unblock \<Rightarrow> Some (s\<lparr>block_for_gc := False, gc_at := G_clear_world\<rparr>)
      | G_clear_world \<Rightarrow> Some (s\<lparr>world_has_stopped := False, gc_at := G_notify\<rparr>)
      | G_notify \<Rightarrow> Some (s\<lparr>block_at := (if block_at s = B_asleep then B_woken else block_at s),
                           gc_at := G_idle\<rparr>)
      | _ \<Rightarrow> None)"

text \<open>
  The steps of the system: the two functions, and what mmtk-core, C and the condition variable add.
  A mutator that needs a collection requests it and calls \<^verbatim>\<open>block_for_gc\<close>; the GC worker takes the
  request; a wait may return without a notification.
\<close>

datatype stw_event = Poll | Block | Gc u64 | Spurious

fun stw_fire :: "addr list \<Rightarrow> stw_event \<Rightarrow> handshake \<Rightarrow> handshake option" where
  "stw_fire ms Poll s =
     (if block_at s = B_outside then Some (s\<lparr>gc_requested := True, block_at := B_called\<rparr>) else None)"
| "stw_fire ms Block s = block_thread_step s"
| "stw_fire ms (Gc now) s =
     (if gc_at s = G_idle
      then if gc_requested s then Some (s\<lparr>gc_requested := False, gc_at := G_spin\<rparr>) else None
      else case stop_all_mutators_step ms now s of
        Some s' \<Rightarrow> Some s' | None \<Rightarrow> resume_mutators_step now s)"
| "stw_fire ms Spurious s =
     (if block_at s = B_asleep then Some (s\<lparr>block_at := B_woken\<rparr>) else None)"

fun stw_schedule :: "addr list \<Rightarrow> stw_event list \<Rightarrow> handshake \<Rightarrow> handshake option" where
  "stw_schedule ms [] s = Some s"
| "stw_schedule ms (e # es) s = Option.bind (stw_fire ms e s) (stw_schedule ms es)"

inductive stw_run :: "addr list \<Rightarrow> handshake \<Rightarrow> handshake \<Rightarrow> bool" for ms where
  stop: "stw_run ms s s"
| step: "stw_run ms s s' \<Longrightarrow> stw_fire ms e s' = Some s'' \<Longrightarrow> stw_run ms s s''"

abbreviation stw_reach :: "addr list \<Rightarrow> handshake \<Rightarrow> bool" where
  "stw_reach ms \<equiv> stw_run ms initial_handshake"

lemma stw_schedule_run:
  assumes "stw_run ms s0 s" and "stw_schedule ms es s = Some s'"
  shows "stw_run ms s0 s'"
  using assms
  by (induction es arbitrary: s) (auto simp: Option.bind_eq_Some_conv intro: stw_run.step)

section \<open>The invariant\<close>

text \<open>The thread is in the block; the worker is in the collection.\<close>

fun parked :: "block_pc \<Rightarrow> bool" where
  "parked B_test = True"
| "parked B_sleep = True"
| "parked B_asleep = True"
| "parked B_woken = True"
| "parked _ = False"

fun entering :: "block_pc \<Rightarrow> bool" where
  "entering B_called = True"
| "entering B_lock = True"
| "entering B_store_world = True"
| "entering _ = False"

fun collecting :: "gc_pc \<Rightarrow> bool" where
  "collecting (G_visit ms) = True"
| "collecting G_collect = True"
| "collecting G_unblock = True"
| "collecting _ = False"

fun has_lock :: "block_pc \<Rightarrow> bool" where
  "has_lock B_store_world = True"
| "has_lock B_test = True"
| "has_lock B_sleep = True"
| "has_lock B_leave = True"
| "has_lock _ = False"

definition world_inv :: "handshake \<Rightarrow> bool" where
  "world_inv s \<longleftrightarrow>
     (collecting (gc_at s) \<longrightarrow> block_for_gc s \<and> world_has_stopped s \<and> parked (block_at s))
     \<and> (world_has_stopped s \<longrightarrow> gc_at s \<noteq> G_clear_world \<longrightarrow> block_for_gc s \<and> parked (block_at s))
     \<and> (entering (block_at s) \<longrightarrow> block_at s \<noteq> B_called \<longrightarrow> block_for_gc s)
     \<and> lock_free s = (\<not> has_lock (block_at s))"

text \<open>The thread waits for a collection exactly while one is requested, starting or running.\<close>

definition awaits_gc :: "handshake \<Rightarrow> bool" where
  "awaits_gc s \<longleftrightarrow> entering (block_at s) \<or> parked (block_at s) \<and> block_for_gc s"

definition request_inv :: "handshake \<Rightarrow> bool" where
  "request_inv s \<longleftrightarrow>
     awaits_gc s = (gc_requested s \<or> gc_at s = G_spin \<or> collecting (gc_at s))
     \<and> (gc_requested s \<longrightarrow> \<not> collecting (gc_at s) \<and> gc_at s \<noteq> G_spin)"

lemma parked_not_entering: "parked b \<Longrightarrow> \<not> entering b"
  by (cases b) simp_all

lemma woken_facts [simp]:
  "parked (if b = B_asleep then B_woken else b) = parked b"
  "entering (if b = B_asleep then B_woken else b) = entering b"
  "has_lock (if b = B_asleep then B_woken else b) = has_lock b"
  "(if b = B_asleep then B_woken else b) = B_called \<longleftrightarrow> b = B_called"
  by (cases b; simp)+

lemmas stw_defs = block_thread_step_def stop_all_mutators_step_def resume_mutators_step_def

lemma gc_step_cases [consumes 1]:
  assumes "stw_fire ms (Gc now) s = Some s'"
  obtains (accept) "gc_at s = G_idle" "gc_requested s" "s' = s\<lparr>gc_requested := False, gc_at := G_spin\<rparr>"
  | (stopped) "gc_at s = G_spin" "world_has_stopped s" "s' = s\<lparr>gc_at := G_visit ms\<rparr>"
  | (visit) mutator rest where "gc_at s = G_visit (mutator # rest)"
      "s' = s\<lparr>visited_mutators := visited_mutators s @ [mutator], gc_at := G_visit rest\<rparr>"
  | (all_visited) "gc_at s = G_visit []" "s' = s\<lparr>gc_start_clock := now, gc_at := G_collect\<rparr>"
  | (report) "gc_at s = G_collect"
      "s' = s\<lparr>reported_times := reported_times s @ [now - gc_start_clock s], gc_at := G_unblock\<rparr>"
  | (unblock) "gc_at s = G_unblock" "s' = s\<lparr>block_for_gc := False, gc_at := G_clear_world\<rparr>"
  | (clear) "gc_at s = G_clear_world" "s' = s\<lparr>world_has_stopped := False, gc_at := G_notify\<rparr>"
  | (notify) "gc_at s = G_notify"
      "s' = s\<lparr>block_at := (if block_at s = B_asleep then B_woken else block_at s), gc_at := G_idle\<rparr>"
proof (cases "gc_at s")
  case G_idle
  with assms show thesis
    by (intro accept) (simp_all add: stw_defs split: if_split_asm)
next
  case G_spin
  with assms show thesis
    by (intro stopped) (simp_all add: stw_defs split: if_split_asm)
next
  case (G_visit ms')
  with assms show thesis
    by (cases ms') (simp_all add: stw_defs all_visited visit)
next
  case G_collect
  with assms show thesis
    by (intro report) (simp_all add: stw_defs split: if_split_asm)
next
  case G_unblock
  with assms show thesis
    by (intro unblock) (simp_all add: stw_defs split: if_split_asm)
next
  case G_clear_world
  with assms show thesis
    by (intro clear) (simp_all add: stw_defs split: if_split_asm)
next
  case G_notify
  with assms show thesis
    by (intro notify) (simp_all add: stw_defs split: if_split_asm)
qed

lemma world_inv_step:
  assumes "stw_fire ms e s = Some s'" and "world_inv s"
  shows "world_inv s'"
proof (cases e)
  case Block
  with assms show ?thesis
    by (cases "block_at s") (auto simp: world_inv_def stw_defs split: if_splits)
next
  case (Gc now)
  with assms(1) have "stw_fire ms (Gc now) s = Some s'"
    by simp
  then show ?thesis
    using assms(2) by (cases rule: gc_step_cases) (auto simp: world_inv_def dest: parked_not_entering)
qed (use assms in \<open>auto simp: world_inv_def split: if_splits\<close>)

lemma awaits_gc_updates [simp]:
  "awaits_gc (s\<lparr>gc_at := g\<rparr>) = awaits_gc s"
  "awaits_gc (s\<lparr>gc_requested := q\<rparr>) = awaits_gc s"
  "awaits_gc (s\<lparr>visited_mutators := vs\<rparr>) = awaits_gc s"
  "awaits_gc (s\<lparr>gc_start_clock := c\<rparr>) = awaits_gc s"
  "awaits_gc (s\<lparr>reported_times := rs\<rparr>) = awaits_gc s"
  "awaits_gc (s\<lparr>world_has_stopped := v\<rparr>) = awaits_gc s"
  by (simp_all add: awaits_gc_def)

lemma awaits_gc_woken: "block_at s = B_asleep \<Longrightarrow> awaits_gc (s\<lparr>block_at := B_woken\<rparr>) = awaits_gc s"
  by (simp add: awaits_gc_def)

lemma awaits_gc_unblocked: "parked (block_at s) \<Longrightarrow> \<not> awaits_gc (s\<lparr>block_for_gc := False\<rparr>)"
  by (simp add: awaits_gc_def parked_not_entering)

lemma request_inv_step:
  assumes "stw_fire ms e s = Some s'" and "world_inv s" and "request_inv s"
  shows "request_inv s'"
proof (cases e)
  case Block
  have "entering (block_at s) \<Longrightarrow> block_at s \<noteq> B_called \<Longrightarrow> block_for_gc s"
    using assms(2) by (simp add: world_inv_def)
  with Block assms(1) have "awaits_gc s' = awaits_gc s" "gc_at s' = gc_at s"
    "gc_requested s' = gc_requested s"
    by (cases "block_at s"; auto simp: awaits_gc_def block_thread_step_def split: if_splits)+
  with assms(3) show ?thesis
    by (simp add: request_inv_def)
next
  case (Gc now)
  have "collecting (gc_at s) \<Longrightarrow> parked (block_at s)"
    using assms(2) by (simp add: world_inv_def)
  with assms(1) Gc have "stw_fire ms (Gc now) s = Some s'"
    by simp
  then show ?thesis
    using \<open>collecting (gc_at s) \<Longrightarrow> parked (block_at s)\<close> assms(3)
    by (cases rule: gc_step_cases)
      (auto simp: request_inv_def awaits_gc_unblocked awaits_gc_woken)
qed (use assms in \<open>auto simp: request_inv_def awaits_gc_def split: if_splits\<close>)

lemma stw_run_inv:
  "stw_run ms s0 s \<Longrightarrow> world_inv s0 \<and> request_inv s0 \<Longrightarrow> world_inv s \<and> request_inv s"
  by (induction rule: stw_run.induct) (auto intro: world_inv_step request_inv_step)

lemma initial_inv: "world_inv initial_handshake \<and> request_inv initial_handshake"
  by (simp add: world_inv_def request_inv_def awaits_gc_def initial_handshake_def)

lemmas stw_reach_inv = stw_run_inv [OF _ initial_inv]

text \<open>What the worker has visited: all of the mutators, in order, once it collects.\<close>

definition visited_ok :: "addr list \<Rightarrow> gc_pc \<Rightarrow> addr list \<Rightarrow> bool" where
  "visited_ok ms g vs \<longleftrightarrow> (\<exists>earlier.
     case g of
       G_visit rest \<Rightarrow> \<exists>done. ms = done @ rest \<and> vs = earlier @ done
     | G_collect \<Rightarrow> vs = earlier @ ms
     | G_unblock \<Rightarrow> vs = earlier @ ms
     | _ \<Rightarrow> True)"

definition visit_inv :: "addr list \<Rightarrow> handshake \<Rightarrow> bool" where
  "visit_inv ms s \<longleftrightarrow> visited_ok ms (gc_at s) (visited_mutators s)"

lemma visited_ok_simps:
  "visited_ok ms G_idle vs" "visited_ok ms G_spin vs" "visited_ok ms G_clear_world vs"
  "visited_ok ms G_notify vs" "visited_ok ms (G_visit ms) vs"
  "visited_ok ms (G_visit (m # rest)) vs \<Longrightarrow> visited_ok ms (G_visit rest) (vs @ [m])"
  "visited_ok ms (G_visit []) vs \<Longrightarrow> visited_ok ms G_collect vs"
  "visited_ok ms G_collect vs \<Longrightarrow> visited_ok ms G_unblock vs"
  by (auto simp: visited_ok_def)

lemma visit_inv_step:
  assumes "stw_fire ms e s = Some s'" and "visit_inv ms s"
  shows "visit_inv ms s'"
proof (cases e)
  case Block
  with assms show ?thesis
    by (cases "block_at s") (auto simp: visit_inv_def block_thread_step_def split: if_splits)
next
  case (Gc now)
  with assms(1) have "stw_fire ms (Gc now) s = Some s'"
    by simp
  then show ?thesis
    using assms(2) by (cases rule: gc_step_cases) (auto simp: visit_inv_def visited_ok_simps)
qed (use assms in \<open>auto simp: visit_inv_def split: if_splits\<close>)

lemma visit_inv_run: "stw_run ms s0 s \<Longrightarrow> visit_inv ms s0 \<Longrightarrow> visit_inv ms s"
  by (induction rule: stw_run.induct) (auto intro: visit_inv_step)

section \<open>The world is stopped during a collection\<close>

text \<open>
  C11: whatever the interleaving and however often the condition variable wakes spuriously, from the
  moment the worker has seen the world stopped until it clears \<^verbatim>\<open>BLOCK_FOR_GC\<close> the elected thread
  stays in the loop of \<^verbatim>\<open>mmtk_block_thread_for_gc\<close> with both flags set, so no Julia code runs; and
  when \<^verbatim>\<open>stop_all_mutators\<close> has returned, its last visits were to every mutator, in order.
\<close>

theorem world_stopped_while_collecting:
  assumes "stw_reach ms s" and "collecting (gc_at s)"
  shows "parked (block_at s) \<and> block_for_gc s \<and> world_has_stopped s
    \<and> (gc_at s \<in> {G_collect, G_unblock} \<longrightarrow> (\<exists>earlier. visited_mutators s = earlier @ ms))"
proof -
  have "visit_inv ms s"
    by (rule visit_inv_run [OF assms(1)])
      (simp add: visit_inv_def initial_handshake_def visited_ok_simps)
  then show ?thesis
    using stw_reach_inv [OF assms(1)] assms(2)
    by (auto simp: world_inv_def visit_inv_def visited_ok_def)
qed

definition blocked_schedule :: "stw_event list" where
  "blocked_schedule = [Poll, Block, Block, Block, Block, Block, Gc 0, Gc 0, Gc 0, Gc 0, Gc 100]"

lemma blocked_schedule_state:
  "stw_schedule [0x900, 0xa00] blocked_schedule initial_handshake
    = Some \<lparr>block_for_gc = True, world_has_stopped = True, user_triggered_gc = 0,
        gc_start_clock = 100, gc_requested = False, lock_free = True, block_at = B_asleep,
        gc_at = G_collect, visited_mutators = [0x900, 0xa00], reported_times = []\<rparr>"
  by (simp add: blocked_schedule_def initial_handshake_def stw_defs)

theorem world_stopped_while_collecting_witness:
  "\<exists>s earlier. stw_schedule [0x900, 0xa00] blocked_schedule initial_handshake = Some s
    \<and> parked (block_at s) \<and> visited_mutators s = earlier @ [0x900, 0xa00]"
  using world_stopped_while_collecting [OF stw_schedule_run [OF stw_run.stop blocked_schedule_state]]
    blocked_schedule_state by auto

section \<open>A round of the handshake\<close>

lemma schedule_append:
  "stw_schedule ms (es @ es') s = Option.bind (stw_schedule ms es s) (stw_schedule ms es')"
  by (induction es arbitrary: s) (auto split: bind_splits)

lemma visit_schedule:
  "gc_at s = G_visit rest \<Longrightarrow>
    stw_schedule ms (replicate (length rest) (Gc t)) s
      = Some (s\<lparr>visited_mutators := visited_mutators s @ rest, gc_at := G_visit []\<rparr>)"
  by (induction rest arbitrary: s) (simp_all add: stw_defs)

text \<open>The thread goes to sleep before the worker starts, and the worker runs through.\<close>

definition regular_round :: "nat \<Rightarrow> u64 \<Rightarrow> u64 \<Rightarrow> stw_event list" where
  "regular_round n t1 t2 = [Poll, Block, Block, Block, Block, Block, Gc 0, Gc 0] @ replicate n (Gc 0)
     @ [Gc t1, Gc t2, Gc 0, Gc 0, Gc 0, Block, Block, Block]"

text \<open>
  C23: a round in which the thread is asleep before the worker looks returns to where it started: the
  thread leaves the block with \<^verbatim>\<open>BLOCK_FOR_GC\<close>, \<^verbatim>\<open>WORLD_HAS_STOPPED\<close> and \<^verbatim>\<open>USER_TRIGGERED_GC\<close> reset and the
  mutex free, every mutator has been visited once, and the time reported to Julia is the end of
  the collection minus its start.
\<close>

theorem regular_round_returns:
  assumes "block_at s = B_outside" and "gc_at s = G_idle" and "lock_free s"
  shows "stw_schedule ms (regular_round (length ms) t1 t2) s
    = Some (s\<lparr>block_for_gc := False, world_has_stopped := False, user_triggered_gc := 0,
        gc_start_clock := t1, gc_requested := False,
        visited_mutators := visited_mutators s @ ms,
        reported_times := reported_times s @ [t2 - t1]\<rparr>)"
proof -
  let ?s = "s\<lparr>block_for_gc := True, world_has_stopped := True, gc_requested := False,
    block_at := B_asleep, gc_at := G_visit ms\<rparr>"
  have start: "stw_schedule ms [Poll, Block, Block, Block, Block, Block, Gc 0, Gc 0] s = Some ?s"
    using assms by (simp add: stw_defs)
  show ?thesis
    unfolding regular_round_def schedule_append start
    using assms visit_schedule [of ?s ms ms 0] by (simp add: stw_defs)
qed

theorem regular_round_returns_witness:
  "\<exists>s. stw_schedule [0x900] (regular_round 1 100 250) initial_handshake = Some s
    \<and> block_at s = B_outside \<and> reported_times s = [150] \<and> visited_mutators s = [0x900]"
  using regular_round_returns [of initial_handshake "[0x900]" 100 250]
  by (simp add: initial_handshake_def)

section \<open>Where the handshake can stop for good\<close>

definition stw_stuck :: "addr list \<Rightarrow> handshake \<Rightarrow> bool" where
  "stw_stuck ms s \<longleftrightarrow> stw_fire ms Poll s = None \<and> stw_fire ms Block s = None
     \<and> (\<forall>now. stw_fire ms (Gc now) s = None)"

text \<open>
  The notification came between the test and the wait; the worker cleared \<^verbatim>\<open>WORLD_HAS_STOPPED\<close> after
  the thread had set it for the next collection.
\<close>

definition lost_wakeup :: "handshake \<Rightarrow> bool" where
  "lost_wakeup s \<longleftrightarrow> block_at s = B_asleep \<and> gc_at s = G_idle \<and> \<not> gc_requested s
     \<and> \<not> block_for_gc s \<and> \<not> world_has_stopped s"

definition stale_clear :: "handshake \<Rightarrow> bool" where
  "stale_clear s \<longleftrightarrow> block_at s = B_asleep \<and> gc_at s = G_spin \<and> block_for_gc s
     \<and> \<not> world_has_stopped s"

lemma gc_moves:
  "gc_at s \<notin> {G_idle, G_spin} \<Longrightarrow> stw_fire ms (Gc now) s \<noteq> None"
  by (cases "gc_at s") (auto simp: stw_defs split: list.splits)

text \<open>
  C12: the handshake stops for good, spurious wake-ups apart, in exactly two situations: the thread
  sleeps although the collection has ended (it tested \<^verbatim>\<open>BLOCK_FOR_GC\<close> before it was cleared and went
  to sleep after the notification), or the worker waits for a world that has stopped (it cleared
  the flag of the next collection). In every other reachable state the thread or the worker moves.
\<close>

theorem handshake_stuck_iff:
  assumes "stw_reach ms s"
  shows "stw_stuck ms s \<longleftrightarrow> lost_wakeup s \<or> stale_clear s"
proof -
  have w: "world_inv s" and r: "request_inv s"
    using stw_reach_inv [OF assms] by simp_all
  have block: "stw_fire ms Poll s = None \<and> stw_fire ms Block s = None \<longleftrightarrow> block_at s = B_asleep"
    using w by (cases "block_at s") (auto simp: world_inv_def stw_defs)
  have gc: "(\<forall>now. stw_fire ms (Gc now) s = None) \<longleftrightarrow>
      gc_at s = G_idle \<and> \<not> gc_requested s \<or> gc_at s = G_spin \<and> \<not> world_has_stopped s"
    using gc_moves [of s ms] by (cases "gc_at s") (auto simp: stw_defs)
  show ?thesis
  proof (cases "block_at s = B_asleep")
    case True
    have "gc_at s = G_idle \<Longrightarrow> \<not> gc_requested s \<Longrightarrow> \<not> block_for_gc s \<and> \<not> world_has_stopped s"
      and "gc_at s = G_spin \<Longrightarrow> block_for_gc s"
      using w r True by (auto simp: world_inv_def request_inv_def awaits_gc_def)
    then show ?thesis
      using block gc True by (auto simp: stw_stuck_def lost_wakeup_def stale_clear_def)
  next
    case False
    then show ?thesis
      using block by (auto simp: stw_stuck_def lost_wakeup_def stale_clear_def)
  qed
qed

definition lost_wakeup_schedule :: "stw_event list" where
  "lost_wakeup_schedule = [Poll, Block, Block, Block, Block,
     Gc 0, Gc 0, Gc 0, Gc 0, Gc 0, Gc 0, Gc 0, Block]"

definition stale_clear_schedule :: "stw_event list" where
  "stale_clear_schedule = [Poll, Block, Block, Block, Gc 0, Gc 0, Gc 0, Gc 0, Gc 0,
     Block, Block, Poll, Block, Block, Block, Block, Block, Gc 0, Gc 0,
     Block, Block, Block, Gc 0]"

lemma lost_wakeup_state:
  "stw_schedule [] lost_wakeup_schedule initial_handshake
    = Some \<lparr>block_for_gc = False, world_has_stopped = False, user_triggered_gc = 0,
        gc_start_clock = 0, gc_requested = False, lock_free = True, block_at = B_asleep,
        gc_at = G_idle, visited_mutators = [], reported_times = [0]\<rparr>"
  by (simp add: lost_wakeup_schedule_def initial_handshake_def stw_defs)

lemma stale_clear_state:
  "stw_schedule [] stale_clear_schedule initial_handshake
    = Some \<lparr>block_for_gc = True, world_has_stopped = False, user_triggered_gc = 0,
        gc_start_clock = 0, gc_requested = False, lock_free = True, block_at = B_asleep,
        gc_at = G_spin, visited_mutators = [], reported_times = [0]\<rparr>"
  by (simp add: stale_clear_schedule_def initial_handshake_def stw_defs)

theorem handshake_stuck_iff_witness:
  "\<exists>s. stw_schedule [] lost_wakeup_schedule initial_handshake = Some s \<and> stw_stuck [] s"
  using handshake_stuck_iff [OF stw_schedule_run [OF stw_run.stop lost_wakeup_state]]
    lost_wakeup_state by (simp add: lost_wakeup_def)

text \<open>After a stale clear not even a spurious wake-up helps: the worker spins for ever.\<close>

definition stalled :: "handshake \<Rightarrow> bool" where
  "stalled s \<longleftrightarrow> gc_at s = G_spin \<and> \<not> world_has_stopped s \<and> block_for_gc s
     \<and> parked (block_at s)"

lemma stalled_step: "stw_fire ms e s = Some s' \<Longrightarrow> stalled s \<Longrightarrow> stalled s'"
  by (cases e; cases "block_at s") (auto simp: stalled_def stw_defs split: if_splits)

lemma stalled_run: "stw_run ms s s' \<Longrightarrow> stalled s \<Longrightarrow> stalled s'"
  by (induction rule: stw_run.induct) (auto intro: stalled_step)

text \<open>
  C29: both situations can occur. \<^verbatim>\<open>resume_mutators\<close> clears the flag and notifies without holding the
  mutex, so a thread that has tested the flag but does not wait yet misses the notification; and
  it clears \<^verbatim>\<open>WORLD_HAS_STOPPED\<close> after \<^verbatim>\<open>BLOCK_FOR_GC\<close>, so a thread that leaves at once and blocks for
  the next collection loses its flag, after which the worker spins in every continuation.
\<close>

theorem handshake_races:
  "(\<exists>s. stw_schedule [] lost_wakeup_schedule initial_handshake = Some s \<and> lost_wakeup s)
   \<and> (\<exists>s. stw_schedule [] stale_clear_schedule initial_handshake = Some s \<and> stale_clear s
        \<and> {s'. stw_run [] s s'} \<subseteq> {s'. gc_at s' = G_spin \<and> parked (block_at s')})"
proof (intro conjI)
  show "\<exists>s. stw_schedule [] lost_wakeup_schedule initial_handshake = Some s \<and> lost_wakeup s"
    using lost_wakeup_state by (auto simp: lost_wakeup_def)
  have "{s'. stw_run [] s s'} \<subseteq> {s'. gc_at s' = G_spin \<and> parked (block_at s')}" if "stale_clear s" for s
    using that stalled_run [of "[]" s] by (auto simp: stale_clear_def stalled_def)
  then show "\<exists>s. stw_schedule [] stale_clear_schedule initial_handshake = Some s \<and> stale_clear s
        \<and> {s'. stw_run [] s s'} \<subseteq> {s'. gc_at s' = G_spin \<and> parked (block_at s')}"
    using stale_clear_state by (simp add: stale_clear_def)
qed

end
