(* ===== verification/Object_Model.thy ===== *)
theory Object_Model
  imports Julia_Scanning
begin

text \<open>
  \<^verbatim>\<open>object_model.rs\<close>: the size of an object from its header, where an object starts, and the
  copying of an object by a moving collection; and the size word of buffers in \<^verbatim>\<open>api.rs\<close>.

  \<open>object_content\<close> is the abstract description: the bytes an object of each kind needs and its
  alignment, in natural numbers. \<open>so_size_refines\<close> shows that the word arithmetic of
  \<^verbatim>\<open>get_so_object_size\<close> computes the rounded-up size of it.
\<close>

section \<open>Sizes\<close>

definition store_obj_size :: "memory \<Rightarrow> addr \<Rightarrow> usize \<Rightarrow> memory" where
  "store_obj_size m obj sz = (let addr_size = obj - 16 in store64 m addr_size sz)"

definition mmtk_store_obj_size_c :: "memory \<Rightarrow> addr \<Rightarrow> usize \<Rightarrow> memory" where
  "mmtk_store_obj_size_c m obj sz = (let addr_size = obj - 16 in store64 m addr_size sz)"

definition mmtk_get_obj_size :: "runtime \<Rightarrow> memory \<Rightarrow> addr \<Rightarrow> usize" where
  "mmtk_get_obj_size rt m obj =
     (let addr_size = obj - 2 * JULIA_HEADER_SIZE rt in load64 m addr_size)"

definition llt_align :: "usize \<Rightarrow> usize \<Rightarrow> usize" where
  "llt_align sz align = (sz + align - 1) AND NOT (align - 1)"

definition is_object_in_los :: "addr \<Rightarrow> bool" where
  "is_object_in_los obj \<longleftrightarrow> 0x60000000000 \<le> obj \<and> obj < 0x80000000000"

definition mmtk_jl_is_uniontype :: "memory \<Rightarrow> addr \<Rightarrow> bool" where
  "mmtk_jl_is_uniontype m t \<longleftrightarrow> mmtk_jl_typetagof m t = tag_word Jl_uniontype_tag"

definition check_size_datatype :: "memory \<Rightarrow> addr \<Rightarrow> unit res" where
  "check_size_datatype m vt =
     (let type_tag = mmtk_jl_typetagof m vt
      in rbind (dt_smalltag m vt) (\<lambda>tag.
           if type_tag \<noteq> tag_word Jl_datatype_tag \<or> tag \<noteq> 0
           then Inl (GcCorruption (type_tag \<noteq> tag_word Jl_datatype_tag) (tag \<noteq> 0) vt)
           else Inr ()))"

definition layout_object_size :: "runtime \<Rightarrow> memory \<Rightarrow> addr \<Rightarrow> usize" where
  "layout_object_size rt m vt =
     (let dtsz = ucast (ly_size m (dt_layout m vt)) in llt_align (dtsz + JULIA_HEADER_SIZE rt) 16)"

definition small_tag_size :: "runtime \<Rightarrow> memory \<Rightarrow> addr \<Rightarrow> usize \<Rightarrow> usize res" where
  "small_tag_size rt m obj vtag =
     (if vtag = tag_word Jl_simplevector_tag then
        let dtsz = mmtk_jl_svec_len m obj * 8 + size_of jl_svec_t
        in Inr (llt_align (dtsz + JULIA_HEADER_SIZE rt) 16)
      else if vtag = tag_word Jl_module_tag then
        let dtsz = size_of jl_module_t in Inr (llt_align (dtsz + JULIA_HEADER_SIZE rt) 16)
      else if vtag = tag_word Jl_task_tag then
        let dtsz = size_of jl_task_t in Inr (llt_align (dtsz + JULIA_HEADER_SIZE rt) 16)
      else if vtag = tag_word Jl_string_tag then
        let len = load64 m obj; dtsz = len + 8 + 1
        in Inr (llt_align (dtsz + JULIA_HEADER_SIZE rt) 8)
      else rbind (small_typeof rt (vtag div 8)) (\<lambda>vt. Inr (layout_object_size rt m vt)))"

definition genericmemory_size :: "runtime \<Rightarrow> memory \<Rightarrow> addr \<Rightarrow> usize res" where
  "genericmemory_size rt m obj =
     (if rt_genericmemory_how rt m obj = 0 then
        let layout = dt_layout m (mmtk_jl_typetagof m obj);
            sz = ucast (ly_size m layout) * gm_length m obj
        in rbind (arrayelem_isunion (ly_flags m layout)) (\<lambda>isunion.
             let sz = (if isunion \<noteq> 0 then sz + gm_length m obj else sz);
                 dtsz = llt_align (size_of jl_genericmemory_t) 16
             in Inr (llt_align (sz + dtsz + JULIA_HEADER_SIZE rt) 16))
      else let dtsz = size_of jl_genericmemory_t + 8 in Inr (llt_align (dtsz + JULIA_HEADER_SIZE rt) 16))"

definition typed_object_size :: "runtime \<Rightarrow> memory \<Rightarrow> addr \<Rightarrow> addr \<Rightarrow> usize res" where
  "typed_object_size rt m obj vt =
     rbind (mmtk_jl_typeof rt m obj) (\<lambda>obj_type.
       if obj_type \<noteq> vt then Inl (AssertFailed ''obj_type == vt'')
       else if dt_name m vt = rt_genericmemory_typename rt then genericmemory_size rt m obj
       else Inr (layout_object_size rt m vt))"

definition get_so_object_size :: "runtime \<Rightarrow> memory \<Rightarrow> addr \<Rightarrow> usize res" where
  "get_so_object_size rt m obj =
     (let vtag = mmtk_jl_typetagof m obj
      in if vtag = JULIA_BUFF_TAG rt then Inr (mmtk_get_obj_size rt m obj)
         else if vtag \<in> set plain_small_tags
              then rbind (small_typeof rt (vtag div 8)) (\<lambda>vt. typed_object_size rt m obj vt)
         else if vtag < max_tag_word then small_tag_size rt m obj vtag
         else rbind (check_size_datatype m vtag) (\<lambda>_. typed_object_size rt m obj vtag))"

definition get_current_size :: "runtime \<Rightarrow> memory \<Rightarrow> addr \<Rightarrow> usize res" where
  "get_current_size rt m obj = get_so_object_size rt m obj"

section \<open>The start of an object\<close>

definition get_object_start_ref :: "runtime \<Rightarrow> memory \<Rightarrow> addr \<Rightarrow> addr res" where
  "get_object_start_ref rt m obj =
     rbind (mmtk_jl_typeof rt m obj) (\<lambda>obj_type.
       if obj_type = JULIA_BUFF_TAG rt then Inr (obj - 2 * JULIA_HEADER_SIZE rt)
       else Inr (obj - JULIA_HEADER_SIZE rt))"

definition ref_to_object_start :: "runtime \<Rightarrow> memory \<Rightarrow> addr \<Rightarrow> addr res" where
  "ref_to_object_start rt m obj =
     (if is_object_in_los obj then Inr (obj - 48) else get_object_start_ref rt m obj)"

definition ref_to_header :: "addr \<Rightarrow> addr" where
  "ref_to_header obj = obj"

section \<open>Copying\<close>

text \<open>
  \<^verbatim>\<open>alloc_copy\<close> and \<^verbatim>\<open>post_copy\<close> of mmtk-core's copy context, the C function that fixes the data pointer
  of a memory object with inline data, and the two steps a debug build adds: whether it is one,
  and the store of the forwarding bits.
\<close>

record copy_context =
  alloc_copy :: "memory \<Rightarrow> addr \<Rightarrow> usize \<Rightarrow> usize \<Rightarrow> usize \<Rightarrow> addr"
  post_copy :: "memory \<Rightarrow> addr \<Rightarrow> usize \<Rightarrow> memory"
  gc_update_inlined_array :: "memory \<Rightarrow> addr \<Rightarrow> addr \<Rightarrow> memory"
  debug_assertions :: bool
  store_forwarding_bits :: "memory \<Rightarrow> addr \<Rightarrow> u8 \<Rightarrow> memory"

definition object_copy ::
    "runtime \<Rightarrow> copy_context \<Rightarrow> memory \<Rightarrow> addr \<Rightarrow> (addr \<times> memory) res" where
  "object_copy rt cc m obj =
     rbind (get_current_size rt m obj) (\<lambda>bytes.
     rbind (ref_to_object_start rt m obj) (\<lambda>from_start.
       let header_offset = obj - from_start
       in if header_offset = 8 then
            let dst = alloc_copy cc m obj bytes 16 8;
                m1 = copy_bytes m from_start dst bytes;
                to_obj = dst + header_offset;
                m2 = post_copy cc m1 to_obj bytes
            in rbind (mmtk_jl_typeof rt m2 obj) (\<lambda>vt.
                 let m3 = (if dt_name m2 vt = rt_genericmemory_typename rt
                           then gc_update_inlined_array cc m2 obj to_obj else m2);
                     m4 = (if debug_assertions cc
                           then store_forwarding_bits cc (fill_bytes m3 from_start 0 bytes) obj 2
                           else m3)
                 in Inr (to_obj, m4))
          else Inl Unimplemented))"

section \<open>Operations that are not supported\<close>

text \<open>
  mmtk-core calls these for plans that copy objects in other ways, which the binding does not
  support: they end in \<^verbatim>\<open>unimplemented!()\<close>.
\<close>

definition copy_to :: "addr \<Rightarrow> addr \<Rightarrow> addr \<Rightarrow> addr res" where
  "copy_to from_obj to_obj region = Inl Unimplemented"

definition get_size_when_copied :: "addr \<Rightarrow> usize res" where
  "get_size_when_copied obj = Inl Unimplemented"

definition get_align_when_copied :: "addr \<Rightarrow> usize res" where
  "get_align_when_copied obj = Inl Unimplemented"

definition get_align_offset_when_copied :: "addr \<Rightarrow> usize res" where
  "get_align_offset_when_copied obj = Inl Unimplemented"

definition get_reference_when_copied_to :: "addr \<Rightarrow> addr \<Rightarrow> addr res" where
  "get_reference_when_copied_to from_obj to_addr = Inl Unimplemented"

definition get_type_descriptor :: "addr \<Rightarrow> u8 list res" where
  "get_type_descriptor obj = Inl Unimplemented"

definition dump_object :: "addr \<Rightarrow> unit res" where
  "dump_object obj = Inl Unimplemented"

section \<open>Alignment\<close>

lemma llt_align_pow:
  assumes "n < 64" and "unat s + 2 ^ n \<le> 2 ^ 64"
  shows "unat (llt_align s (2 ^ n)) = (unat s + (2 ^ n - 1)) div 2 ^ n * 2 ^ n"
proof -
  have p: "unat (2 ^ n :: usize) = 2 ^ n"
    using unat_of_nat_64 [of "2 ^ n"] power_strict_increasing [OF assms(1), of "2 :: nat"] by simp
  then have "(2 ^ n :: usize) \<noteq> 0"
    by (metis power_not_zero unsigned_0 zero_neq_numeral)
  from unat_minus_one [OF this] have "unat (2 ^ n - 1 :: usize) = 2 ^ n - 1"
    unfolding p .
  then have "unat (s + (2 ^ n - 1)) = unat s + (2 ^ n - 1)"
    using assms(2) by (subst unat_add_no_wrap) auto
  then show ?thesis
    using unat_and_not_mask [of "s + (2 ^ n - 1)" n]
    by (simp add: llt_align_def mask_eq_exp_minus_1 add_diff_eq)
qed

lemma llt_align_16:
  "unat s + 16 \<le> 2 ^ 64 \<Longrightarrow> unat (llt_align s 16) = round_up (unat s) 16"
  using llt_align_pow [of 4 s] by (simp add: round_up_def add.commute)

lemma llt_align_8:
  "unat s + 8 \<le> 2 ^ 64 \<Longrightarrow> unat (llt_align s 8) = round_up (unat s) 8"
  using llt_align_pow [of 3 s] by (simp add: round_up_def add.commute)

text \<open>
  Aligning a size to a power of two gives the least multiple of it that is not smaller: the
  result is a multiple of the alignment, at least the size and less than one alignment above it.
\<close>

theorem llt_align_least:
  assumes "n < 64" and "unat s + 2 ^ n \<le> 2 ^ 64"
  shows "unat (llt_align s (2 ^ n)) mod 2 ^ n = 0
    \<and> unat s \<le> unat (llt_align s (2 ^ n)) \<and> unat (llt_align s (2 ^ n)) < unat s + 2 ^ n"
proof -
  have "(unat s + (2 ^ n - 1)) mod 2 ^ n < 2 ^ n"
    by simp
  moreover have "(unat s + (2 ^ n - 1)) div 2 ^ n * 2 ^ n + (unat s + (2 ^ n - 1)) mod 2 ^ n
      = unat s + (2 ^ n - 1)"
    by (rule div_mult_mod_eq)
  moreover have "(0 :: nat) < 2 ^ n"
    by simp
  ultimately show ?thesis
    unfolding llt_align_pow [OF assms] by (simp only: mod_mult_self2_is_0) linarith
qed

theorem llt_align_least_witness: "unat (llt_align 41 16) mod 16 = 0 \<and> llt_align 41 16 = 48"
  using llt_align_least [of 4 41] by (simp add: llt_align_def)

section \<open>The size of an object\<close>

text \<open>
  The bytes an object needs after its header, and its alignment, by the type of the object; a
  buffer keeps its own size word and is not described.
\<close>

definition object_type :: "runtime \<Rightarrow> memory \<Rightarrow> addr \<Rightarrow> addr" where
  "object_type rt m obj =
     (let vtag = mmtk_jl_typetagof m obj
      in if vtag < 1024 then rt_small_typeof rt (unat vtag div 8) else vtag)"

definition memory_content :: "runtime \<Rightarrow> memory \<Rightarrow> addr \<Rightarrow> nat" where
  "memory_content rt m obj =
     (let len = unat (gm_length m obj); layout = dt_layout m (object_type rt m obj)
      in if rt_genericmemory_how rt m obj = 0
         then 16 + unat (ly_size m layout) * len
                + (if arrayelem_isunion (ly_flags m layout) = Inr 0 then 0 else len)
         else 24)"

definition object_content :: "runtime \<Rightarrow> memory \<Rightarrow> addr \<Rightarrow> nat \<times> nat" where
  "object_content rt m obj =
     (let vtag = mmtk_jl_typetagof m obj; vt = object_type rt m obj
      in if vtag = tag_word Jl_simplevector_tag then (8 + 8 * unat (mmtk_jl_svec_len m obj), 16)
         else if vtag = tag_word Jl_module_tag then (392, 16)
         else if vtag = tag_word Jl_task_tag then (224, 16)
         else if vtag = tag_word Jl_string_tag then (8 + unat (load64 m obj) + 1, 8)
         else if 1024 \<le> vtag \<and> dt_name m vt = rt_genericmemory_typename rt
              then (memory_content rt m obj, 16)
         else (unat (ly_size m (dt_layout m vt)), 16))"

text \<open>
  The header of an object the size function is called on: not a buffer, and its type word a
  small tag or a datatype; no small tag is the tag of a memory type.
\<close>

definition object_ok :: "runtime \<Rightarrow> memory \<Rightarrow> addr \<Rightarrow> bool" where
  "object_ok rt m obj \<longleftrightarrow>
     mmtk_jl_typetagof m obj \<noteq> JULIA_BUFF_TAG rt
     \<and> (1024 \<le> mmtk_jl_typetagof m obj \<longrightarrow> is_datatype m (mmtk_jl_typetagof m obj))
     \<and> (mmtk_jl_typetagof m obj < 1024 \<longrightarrow>
          dt_name m (object_type rt m obj) \<noteq> rt_genericmemory_typename rt)"

lemma unat_ucast_u32: "unat (ucast (x :: u32) :: usize) = unat x"
  using le_less_trans [OF take_bit_nat_less_eq_self, of "unat x" "2 ^ 32" 64]
    unsigned_less [of x, where 'a = nat]
  by (simp add: unsigned_ucast_eq take_bit_nat_eq_self)

lemma unat_mult_no_wrap:
  "unat (a :: 64 word) * unat b < 2 ^ 64 \<Longrightarrow> unat (a * b) = unat a * unat b"
  by (simp add: unat_word_ariths)

lemma align_16_header:
  assumes "unat h + n + 16 \<le> 2 ^ 64" and "unat w = n"
  shows "unat (llt_align (w + h) 16) = round_up (n + unat h) 16"
  using llt_align_16 [of "w + h"] unat_add_no_wrap [of w h] assms by (simp add: add.commute)

lemma align_8_header:
  assumes "unat h + n + 8 \<le> 2 ^ 64" and "unat w = n"
  shows "unat (llt_align (w + h) 8) = round_up (n + unat h) 8"
  using llt_align_8 [of "w + h"] unat_add_no_wrap [of w h] assms by (simp add: add.commute)

lemma small_typeof_small:
  "vtag < 1024 \<Longrightarrow> small_typeof rt (vtag div 8) = Inr (rt_small_typeof rt (unat vtag div 8))"
  by (simp add: small_typeof_def unat_div_distrib word_less_nat_alt div_less_iff_less_mult)

lemma typeof_object_type: "mmtk_jl_typeof rt m obj = Inr (object_type rt m obj)"
  by (simp add: mmtk_jl_typeof_def mmtk_jl_to_typeof_def JL_MAX_TAGS_def object_type_def Let_def
      small_typeof_small)

lemma layout_object_size_eq:
  "unat (JULIA_HEADER_SIZE rt) + unat (ly_size m (dt_layout m vt)) + 16 \<le> 2 ^ 64 \<Longrightarrow>
    unat (layout_object_size rt m vt)
      = round_up (unat (ly_size m (dt_layout m vt)) + unat (JULIA_HEADER_SIZE rt)) 16"
  by (simp add: layout_object_size_def Let_def align_16_header unat_ucast_u32)

lemma genericmemory_size_eq:
  assumes "1024 \<le> mmtk_jl_typetagof m obj"
    and "unat (JULIA_HEADER_SIZE rt) + memory_content rt m obj + 16 \<le> 2 ^ 64"
  shows "\<exists>r. genericmemory_size rt m obj = Inr r
    \<and> unat r = round_up (memory_content rt m obj + unat (JULIA_HEADER_SIZE rt)) 16"
proof (cases "rt_genericmemory_how rt m obj = 0")
  case False
  then have "memory_content rt m obj = 24"
    by (simp add: memory_content_def Let_def)
  then show ?thesis
    using False assms(2) align_16_header [of "JULIA_HEADER_SIZE rt" 24 24]
    by (simp add: genericmemory_size_def Let_def)
next
  case True
  let ?l = "dt_layout m (mmtk_jl_typetagof m obj)" and ?n = "gm_length m obj"
  let ?sz = "ucast (ly_size m ?l) * ?n :: usize"
  have "length (ly_flags m ?l) = 2"
    by (simp add: ly_flags_def)
  then obtain u where u: "arrayelem_isunion (ly_flags m ?l) = Inr u"
    by (auto simp: arrayelem_isunion_def bf_get_in_bounds)
  have t: "object_type rt m obj = mmtk_jl_typetagof m obj"
    using assms(1) by (simp add: object_type_def Let_def leD)
  have c: "memory_content rt m obj
      = 16 + unat (ly_size m ?l) * unat ?n + (if u = 0 then 0 else unat ?n)"
    using True u by (simp add: memory_content_def t Let_def)
  then have sz: "unat ?sz = unat (ly_size m ?l) * unat ?n"
    using assms(2) by (subst unat_mult_no_wrap) (simp_all add: unat_ucast_u32)
  let ?sz' = "if u \<noteq> 0 then ?sz + ?n else ?sz"
  have "unat ?sz' = memory_content rt m obj - 16"
    using assms(2) c sz unat_add_no_wrap [of ?sz ?n] by (cases "u = 0") simp_all
  then have "unat (?sz' + 16) = memory_content rt m obj"
    using assms(2) c by (subst unat_add_no_wrap) (simp_all split: if_splits)
  moreover have "llt_align 16 16 = 16"
    by (simp add: llt_align_def)
  ultimately show ?thesis
    using True u align_16_header [of "JULIA_HEADER_SIZE rt" "memory_content rt m obj" "?sz' + 16"] assms(2)
    by (simp add: genericmemory_size_def Let_def)
qed

lemma typed_object_size_plain:
  assumes "vt = object_type rt m obj" and "dt_name m vt \<noteq> rt_genericmemory_typename rt"
  shows "typed_object_size rt m obj vt = Inr (layout_object_size rt m vt)"
  using assms by (simp add: typed_object_size_def typeof_object_type)

lemma object_size_large:
  assumes "object_ok rt m obj" and "1024 \<le> mmtk_jl_typetagof m obj"
  shows "get_so_object_size rt m obj =
    (if dt_name m (object_type rt m obj) = rt_genericmemory_typename rt
     then genericmemory_size rt m obj else Inr (layout_object_size rt m (object_type rt m obj)))"
proof -
  have "object_type rt m obj = mmtk_jl_typetagof m obj"
    using assms(2) by (simp add: object_type_def Let_def leD)
  moreover have "check_size_datatype m (mmtk_jl_typetagof m obj) = Inr ()"
    using assms by (simp add: object_ok_def is_datatype_def check_size_datatype_def)
  moreover have "mmtk_jl_typetagof m obj \<notin> set plain_small_tags"
    using plain_small_tags_below assms(2) leD by blast
  ultimately show ?thesis
    using assms by (simp add: get_so_object_size_def object_ok_def Let_def typed_object_size_def
        typeof_object_type leD)
qed

lemma object_size_small:
  assumes "object_ok rt m obj" and "mmtk_jl_typetagof m obj < 1024"
    and "mmtk_jl_typetagof m obj \<notin> tag_word ` {Jl_simplevector_tag, Jl_module_tag, Jl_task_tag, Jl_string_tag}"
  shows "get_so_object_size rt m obj = Inr (layout_object_size rt m (object_type rt m obj))"
proof -
  have "rt_small_typeof rt (unat (mmtk_jl_typetagof m obj) div 8) = object_type rt m obj"
    using assms(2) by (simp add: object_type_def Let_def)
  then show ?thesis
    using assms by (simp add: get_so_object_size_def object_ok_def Let_def small_tag_size_def
        small_typeof_small typed_object_size_plain)
qed

lemma svec_object_size:
  assumes "mmtk_jl_typetagof m obj = 144" and "JULIA_BUFF_TAG rt \<noteq> 144"
    and "unat (JULIA_HEADER_SIZE rt) + (8 + 8 * unat (mmtk_jl_svec_len m obj)) + 16 \<le> 2 ^ 64"
  shows "\<exists>r. get_so_object_size rt m obj = Inr r
    \<and> unat r = round_up (8 + 8 * unat (mmtk_jl_svec_len m obj) + unat (JULIA_HEADER_SIZE rt)) 16"
proof -
  let ?w = "mmtk_jl_svec_len m obj * 8 + 8"
  have "unat ?w = 8 + 8 * unat (mmtk_jl_svec_len m obj)"
    using assms(3) by (simp add: unat_add_no_wrap unat_mult_no_wrap)
  then show ?thesis
    using assms by (simp add: get_so_object_size_def small_tag_size_def plain_small_tags_eq Let_def
        align_16_header)
qed

lemma string_object_size:
  assumes "mmtk_jl_typetagof m obj = 160" and "JULIA_BUFF_TAG rt \<noteq> 160"
    and "unat (JULIA_HEADER_SIZE rt) + (8 + unat (load64 m obj) + 1) + 16 \<le> 2 ^ 64"
  shows "\<exists>r. get_so_object_size rt m obj = Inr r
    \<and> unat r = round_up (8 + unat (load64 m obj) + 1 + unat (JULIA_HEADER_SIZE rt)) 8"
proof -
  let ?w = "load64 m obj + 9"
  have "unat ?w = 8 + unat (load64 m obj) + 1"
    using assms(3) by (subst unat_add_no_wrap) simp_all
  then show ?thesis
    using assms align_8_header [of "JULIA_HEADER_SIZE rt" "8 + unat (load64 m obj) + 1" ?w]
    by (simp add: get_so_object_size_def small_tag_size_def plain_small_tags_eq Let_def add.assoc)
qed

text \<open>
  C3: the size the collector computes for an object from its header is the content its type
  describes plus the header, rounded up to the alignment of the type: vectors, modules, tasks,
  strings (aligned to 8), memory objects with inline, union or separate data, and objects with a
  layout. No index or assertion fails on the way.
\<close>

theorem so_size_refines:
  assumes "object_ok rt m obj" and "object_content rt m obj = (n, al)"
    and "unat (JULIA_HEADER_SIZE rt) + n + 16 \<le> 2 ^ 64"
  shows "\<exists>r. get_so_object_size rt m obj = Inr r \<and> unat r = round_up (n + unat (JULIA_HEADER_SIZE rt)) al"
proof -
  let ?t = "mmtk_jl_typetagof m obj" and ?vt = "object_type rt m obj"
  have nb: "?t \<noteq> JULIA_BUFF_TAG rt"
    using assms(1) by (simp add: object_ok_def)
  consider "?t = 144" | "?t = 160" | "?t = 128 \<or> ?t = 176"
    | "?t < 1024" "?t \<notin> tag_word ` {Jl_simplevector_tag, Jl_module_tag, Jl_task_tag, Jl_string_tag}"
    | "1024 \<le> ?t"
    by (simp add: not_less [symmetric]) blast
  then show ?thesis
  proof cases
    case 1
    with nb assms(2,3) show ?thesis
      using svec_object_size [OF 1, of rt] by (auto simp: object_content_def Let_def)
  next
    case 2
    with nb assms(2,3) show ?thesis
      using string_object_size [OF 2, of rt] by (auto simp: object_content_def Let_def)
  next
    case 3
    with nb assms(2,3) show ?thesis
      by (auto simp: object_content_def get_so_object_size_def small_tag_size_def Let_def
          plain_small_tags_eq intro!: align_16_header)
  next
    case 4
    then have "?t \<noteq> 144" "?t \<noteq> 128" "?t \<noteq> 176" "?t \<noteq> 160"
      by auto
    with 4 assms show ?thesis
      by (auto simp: object_size_small object_content_def Let_def leD split: if_splits intro!: layout_object_size_eq)
  next
    case 5
    then have "?t \<noteq> 144" "?t \<noteq> 128" "?t \<noteq> 176" "?t \<noteq> 160"
      by auto
    with 5 assms genericmemory_size_eq [OF 5] show ?thesis
      by (auto simp: object_size_large object_content_def Let_def intro!: layout_object_size_eq
          split: if_splits)
  qed
qed

lemma sample_object_size:
  "object_ok sample_runtime sample_object 0x9000"
  "object_content sample_runtime sample_object 0x9000 = (16, 16)"
proof -
  have t: "object_type sample_runtime sample_object 0x9000 = 0xa000"
    by (simp add: object_type_def sample_object_loads)
  have "ly_size sample_object 0xc000 = 16"
    by (simp add: sample_object_def ly_size_def poke_byte load32_bytes)
  then show "object_content sample_runtime sample_object 0x9000 = (16, 16)"
    by (simp add: object_content_def Let_def t sample_object_loads)
  show "object_ok sample_runtime sample_object 0x9000"
    by (simp add: object_ok_def sample_object_loads is_datatype_def sample_object_layout)
qed

theorem so_size_refines_witness:
  "\<exists>r. get_so_object_size sample_runtime sample_object 0x9000 = Inr r \<and> unat r = 32"
  using so_size_refines [OF sample_object_size]
  by (simp add: round_up_def)

text \<open>
  The elements the scanner visits in a simple vector lie inside the object: every slot is
  after the header and ends within the size the object model computes.
\<close>

theorem svec_slots_inside:
  assumes "object_ok rt m obj" and "mmtk_jl_typetagof m obj = tag_word Jl_simplevector_tag"
    and "not_special rt 144" and "unat obj + 8 * unat (mmtk_jl_svec_len m obj) + 64 < 2 ^ 64"
    and "JULIA_HEADER_SIZE rt = 8"
    and "scan_julia_object rt m obj = Inr ss" and "get_so_object_size rt m obj = Inr sz" and "s \<in> set ss"
  shows "unat obj + 8 \<le> unat (slot_place s) \<and> unat (slot_place s) + 8 \<le> unat obj - 8 + unat sz"
proof -
  let ?n = "unat (mmtk_jl_svec_len m obj)"
  have ss: "ss = slots_at (obj + 8) ?n 8"
    using assms by (simp add: scan_simps)
  then obtain i where i: "i < ?n" "s = Simple (obj + 8 + of_nat i * 8)"
    using assms(8) by (auto simp: slots_at_def)
  have p: "unat (slot_place s) = unat obj + 8 + 8 * i"
    using unat_offset_no_wrap [of "obj + 8" i 8] unat_add_no_wrap [of obj 8] i assms(4) by simp
  have "sz = llt_align (mmtk_jl_svec_len m obj * 8 + 8 + 8) 16"
    using assms(1,2,5,7) by (simp add: get_so_object_size_def small_tag_size_def plain_small_tags_eq
        object_ok_def Let_def)
  moreover have "unat (mmtk_jl_svec_len m obj * 8 + 8) = 8 * ?n + 8"
    using assms(4) by (simp add: unat_add_no_wrap unat_mult_no_wrap)
  ultimately have "unat sz = round_up (8 * ?n + 8 + 8) 16"
    using assms(4) align_16_header [of 8 "8 * ?n + 8" "mmtk_jl_svec_len m obj * 8 + 8"] by simp
  then have "8 * ?n + 16 \<le> unat sz"
    by (simp add: round_up_def)
  then show ?thesis
    using p i(1) by auto
qed

theorem svec_slots_inside_witness:
  "\<exists>ss sz. scan_julia_object sample_runtime (poke [(0x8000, 144), (0x8008, 2)]) 0x8008 = Inr ss
     \<and> get_so_object_size sample_runtime (poke [(0x8000, 144), (0x8008, 2)]) 0x8008 = Inr sz
     \<and> (\<forall>s \<in> set ss. 0x8010 \<le> unat (slot_place s) \<and> unat (slot_place s) + 8 \<le> 0x8000 + unat sz)"
proof -
  let ?m = "poke [(0x8000, 144), (0x8008, 2)]"
  have t: "mmtk_jl_typetagof ?m 0x8008 = tag_word Jl_simplevector_tag"
    and l: "mmtk_jl_svec_len ?m 0x8008 = 2"
    by (simp_all add: mmtk_jl_typetagof_def mmtk_jl_svec_len_def apart_def mem_simps)
  have ok: "object_ok sample_runtime ?m 0x8008"
    using t by (simp add: object_ok_def object_type_def dt_name_def apart_def mem_simps)
  have nsp: "not_special sample_runtime 144"
    by (simp add: not_special_def)
  obtain ss where ss: "scan_julia_object sample_runtime ?m 0x8008 = Inr ss"
    using t nsp l by (simp add: scan_simps)
  obtain sz where sz: "get_so_object_size sample_runtime ?m 0x8008 = Inr sz"
    using t l by (simp add: get_so_object_size_def small_tag_size_def plain_small_tags_eq Let_def)
  show ?thesis
    using svec_slots_inside [OF ok t nsp _ _ ss sz] ss sz l
    by (intro exI [of _ ss] exI [of _ sz]) auto
qed

section \<open>Buffers and copies\<close>

text \<open>
  With the header size of 64-bit Julia, the size word a buffer was given is the size the
  collector reads back for it, also through \<^verbatim>\<open>get_so_object_size\<close>.
\<close>

theorem buffer_size_roundtrip:
  assumes "JULIA_HEADER_SIZE rt = 8" and "mmtk_jl_typetagof m obj = JULIA_BUFF_TAG rt"
  shows "get_so_object_size rt (mmtk_store_obj_size_c m obj n) obj = Inr n
    \<and> mmtk_get_obj_size rt (store_obj_size m obj n) obj = n"
proof -
  have "load64 (store64 m (obj - 16) n) (obj - 8) = load64 m (obj - 8)"
    by (rule load64_store64_apart) (simp add: apart_def)
  then have "mmtk_jl_typetagof (store64 m (obj - 16) n) obj = JULIA_BUFF_TAG rt"
    using assms(2) by (simp add: mmtk_jl_typetagof_def)
  then show ?thesis
    using assms(1)
    by (simp add: get_so_object_size_def mmtk_get_obj_size_def mmtk_store_obj_size_c_def
        store_obj_size_def mem_simps)
qed

theorem buffer_size_roundtrip_witness:
  "get_so_object_size sample_runtime
     (mmtk_store_obj_size_c (poke [(0x8ff8, 0x4eadc000)]) 0x9000 96) 0x9000 = Inr 96"
  using buffer_size_roundtrip [of sample_runtime "poke [(0x8ff8, 0x4eadc000)]" "0x9000" 96]
  by (simp add: mmtk_jl_typetagof_def load64_poke)

text \<open>
  What \<^verbatim>\<open>alloc_copy\<close>, \<^verbatim>\<open>post_copy\<close> and the C function promise: the new object is aligned to 16, the
  metadata of mmtk-core is on the side, and only the \<^verbatim>\<open>ptr\<close> field of the new memory object is
  rewritten.
\<close>

definition copy_context_ok :: "copy_context \<Rightarrow> bool" where
  "copy_context_ok cc \<longleftrightarrow>
     (\<forall>m a n. (alloc_copy cc m a n 16 8 + 8) AND 15 = 0) \<and>
     (\<forall>m a n x. x - (a - 8) < n \<longrightarrow> post_copy cc m a n x = m x) \<and>
     (\<forall>m f t x. 8 \<le> x - (t + 8) \<longrightarrow> gc_update_inlined_array cc m f t x = m x)"

lemma object_start_plain:
  assumes "\<not> is_object_in_los obj" and "object_ok rt m obj" and "JULIA_HEADER_SIZE rt = 8"
    and "object_type rt m obj \<noteq> JULIA_BUFF_TAG rt"
  shows "ref_to_object_start rt m obj = Inr (obj - 8)"
  using assms by (simp add: ref_to_object_start_def get_object_start_ref_def typeof_object_type)

definition sample_copy_context :: copy_context where
  "sample_copy_context = \<lparr>alloc_copy = \<lambda>m a n al off. 0x30000000008, post_copy = \<lambda>m a n. m,
     gc_update_inlined_array = \<lambda>m f t. m, debug_assertions = False,
     store_forwarding_bits = \<lambda>m a v. m\<rparr>"

end
