(* ===== verification/Runtime_Api.thy ===== *)
theory Runtime_Api
  imports Collection Object_Model
begin

text \<open>
  \<^verbatim>\<open>api.rs\<close>, \<^verbatim>\<open>util.rs\<close> and the statics of \<^verbatim>\<open>lib.rs\<close>: the initialisation of MMTk, user collection
  requests, the copying of reference arrays, pinning, and the small conversions C relies on. What
  mmtk-core answers (whether it accepts an option, which allocator serves a semantics, what its
  barrier does) are parameters; functions of \<^verbatim>\<open>api.rs\<close> that only forward their arguments to mmtk-core
  have no definition here.
\<close>

section \<open>Root labels\<close>

datatype RootLabel =
    MarkAndScan | ScanOnly | FinList | ObjArray | Array8 | Obj8 | Obj16 | Obj32 | Stack | ExcStack
  | ModuleBinding

text \<open>The discriminants of the \<^verbatim>\<open>repr(i32)\<close> enum.\<close>

primrec root_label_repr :: "RootLabel \<Rightarrow> u32" where
  "root_label_repr MarkAndScan = 0"
| "root_label_repr ScanOnly = 1"
| "root_label_repr FinList = 2"
| "root_label_repr ObjArray = 3"
| "root_label_repr Array8 = 4"
| "root_label_repr Obj8 = 5"
| "root_label_repr Obj16 = 6"
| "root_label_repr Obj32 = 7"
| "root_label_repr Stack = 8"
| "root_label_repr ExcStack = 9"
| "root_label_repr ModuleBinding = 10"

definition root_label_from_u32 :: "u32 \<Rightarrow> RootLabel res" where
  "root_label_from_u32 value =
     (if value = 0 then Inr MarkAndScan else if value = 1 then Inr ScanOnly
      else if value = 2 then Inr FinList else if value = 3 then Inr ObjArray
      else if value = 4 then Inr Array8 else if value = 5 then Inr Obj8
      else if value = 6 then Inr Obj16 else if value = 7 then Inr Obj32
      else if value = 8 then Inr Stack else if value = 9 then Inr ExcStack
      else if value = 10 then Inr ModuleBinding
      else Inl (Panic ''Unknown value''))"

lemma root_label_roundtrip: "root_label_from_u32 (root_label_repr l) = Inr l"
  by (cases l) (simp_all add: root_label_from_u32_def)

lemma root_label_from_u32_iff: "root_label_from_u32 v = Inr l \<longleftrightarrow> v = root_label_repr l"
  by (auto simp: root_label_roundtrip) (auto simp: root_label_from_u32_def split: if_splits)

section \<open>Small conversions\<close>

text \<open>The two branches are compiled under the feature \<^verbatim>\<open>julia_copy_stack\<close>.\<close>

definition mmtk_julia_copy_stack_check :: "bool \<Rightarrow> bool \<Rightarrow> unit res" where
  "mmtk_julia_copy_stack_check feature_copy_stack c_flag_is_defined =
     (if c_flag_is_defined
      then if \<not> feature_copy_stack
           then Inl (Panic ''COPY_STACK flag has been defined in C, but the feature has not been set.'')
           else Inr ()
      else if feature_copy_stack
           then Inl (Panic ''COPY_STACK flag has not been defined in C, but the feature has been set.'')
           else Inr ())"

definition mmtk_get_possibly_forwarded :: "(addr \<Rightarrow> addr option) \<Rightarrow> addr \<Rightarrow> addr" where
  "mmtk_get_possibly_forwarded get_forwarded_object obj =
     (case get_forwarded_object obj of Some forwarded \<Rightarrow> forwarded | None \<Rightarrow> obj)"

section \<open>Initialisation\<close>

datatype plan_selector = NoGC | MarkSweep | Immix | StickyImmix

datatype gc_trigger_selector =
    Delegated | DynamicHeapSize usize usize | FixedHeapSize usize

datatype option_setting =
    Set_plan plan_selector | Set_gc_trigger gc_trigger_selector | Set_no_reference_types bool
  | Set_threads usize

datatype allocator_selector = Immix_allocator nat | BumpPointer_allocator nat | Other_allocator

text \<open>The cargo features, and what mmtk-core answers.\<close>

record build_features =
  feature_nogc :: bool
  feature_marksweep :: bool
  feature_immix :: bool
  feature_stickyimmix :: bool

record mmtk_core =
  accepts :: "option_setting \<Rightarrow> bool"
  default_allocator :: allocator_selector
  immortal_allocator :: allocator_selector
  side_metadata_base :: addr

record statics =
  st_header_size :: usize
  st_buff_tag :: usize
  builder_options :: "option_setting list"
  mmtk_initialized :: bool
  side_log_bit_base :: addr
  panic_hook_set :: bool

definition MIN_ALIGNMENT :: nat where
  "MIN_ALIGNMENT = 4"

definition force_plan :: "build_features \<Rightarrow> plan_selector option" where
  "force_plan f =
     (if feature_nogc f then Some NoGC
      else if feature_marksweep f then Some MarkSweep
      else if feature_immix f then Some Immix
      else if feature_stickyimmix f then Some StickyImmix
      else None)"

definition heap_size_trigger :: "usize \<Rightarrow> usize \<Rightarrow> gc_trigger_selector" where
  "heap_size_trigger min_heap_size max_heap_size =
     (if min_heap_size = 0 \<and> max_heap_size = 0 then Delegated
      else if min_heap_size \<noteq> 0 then DynamicHeapSize min_heap_size max_heap_size
      else FixedHeapSize max_heap_size)"

text \<open>Setting an option of the builder; a value mmtk-core does not accept changes nothing.\<close>

definition set_option :: "mmtk_core \<Rightarrow> option_setting \<Rightarrow> statics \<Rightarrow> bool \<times> statics" where
  "set_option core opt st =
     (if accepts core opt then (True, st\<lparr>builder_options := builder_options st @ [opt]\<rparr>)
      else (False, st))"

definition assert_that :: "bool \<Rightarrow> string \<Rightarrow> statics \<Rightarrow> (statics \<Rightarrow> fault option \<times> statics) \<Rightarrow>
    fault option \<times> statics" where
  "assert_that b msg st k = (if b then k st else (Some (AssertFailed msg), st))"

text \<open>The result is the panic the call ends in, if any, and the statics.\<close>

definition init_mmtk :: "mmtk_core \<Rightarrow> statics \<Rightarrow> fault option \<times> statics" where
  "init_mmtk core st =
     assert_that (\<not> mmtk_initialized st) ''!MMTK_INITIALIZED'' st (\<lambda>st.
       let st1 = st\<lparr>mmtk_initialized := True\<rparr>;
           st2 = st1\<lparr>side_log_bit_base := side_metadata_base core\<rparr>;
           st3 = st2\<lparr>panic_hook_set := True\<rparr>
       in assert_that (default_allocator core = Immix_allocator 0) ''default_allocator'' st3 (\<lambda>st.
            assert_that (immortal_allocator core = BumpPointer_allocator 0) ''immortal_allocator'' st
              (\<lambda>st. assert_that (MIN_ALIGNMENT = 4) ''MIN_ALIGNMENT'' st (\<lambda>st. (None, st)))))"

definition mmtk_gc_init ::
    "build_features \<Rightarrow> mmtk_core \<Rightarrow> usize \<Rightarrow> usize \<Rightarrow> usize \<Rightarrow> usize \<Rightarrow> usize \<Rightarrow> statics
      \<Rightarrow> fault option \<times> statics" where
  "mmtk_gc_init f core min_heap_size max_heap_size n_gcthreads header_size buffer_tag st =
     (let st0 = st\<lparr>st_header_size := header_size, st_buff_tag := buffer_tag\<rparr>;
          st1 = (case force_plan f of Some plan \<Rightarrow> snd (set_option core (Set_plan plan) st0)
                 | None \<Rightarrow> st0);
          (heap_ok, st2) =
            set_option core (Set_gc_trigger (heap_size_trigger min_heap_size max_heap_size)) st1
      in assert_that heap_ok ''heap size'' st2 (\<lambda>st.
           let (ref_ok, st3) = set_option core (Set_no_reference_types False) st
           in assert_that ref_ok ''no_reference_types'' st3 (\<lambda>st.
                if 0 < n_gcthreads
                then let (threads_ok, st4) = set_option core (Set_threads n_gcthreads) st
                     in assert_that threads_ok ''GC threads'' st4 (init_mmtk core)
                else init_mmtk core st)))"

text \<open>What the builder is asked to set, in order.\<close>

definition wanted_options :: "build_features \<Rightarrow> usize \<Rightarrow> usize \<Rightarrow> usize \<Rightarrow> option_setting list" where
  "wanted_options f min_heap_size max_heap_size n_gcthreads =
     (case force_plan f of Some plan \<Rightarrow> [Set_plan plan] | None \<Rightarrow> [])
     @ [Set_gc_trigger (heap_size_trigger min_heap_size max_heap_size), Set_no_reference_types False]
     @ (if 0 < n_gcthreads then [Set_threads n_gcthreads] else [])"

text \<open>
  C26: initialisation returns exactly when MMTk was not initialised before, the heap size, the
  reference types and the threads are accepted, and the default and immortal allocators are the
  ones Julia's allocation fast paths were compiled for; otherwise it panics. When it returns, MMTk
  is initialised with the plan of the build, the trigger chosen by the two sizes and the thread
  count if one was given, the header size and buffer tag are Julia's and the panic hook is set. A
  plan mmtk-core does not accept is skipped silently.
\<close>

theorem gc_init_returns_iff:
  "(fst (mmtk_gc_init f core lo hi n hdr tag st) = None) =
     (\<not> mmtk_initialized st \<and> accepts core (Set_gc_trigger (heap_size_trigger lo hi))
      \<and> accepts core (Set_no_reference_types False) \<and> (n = 0 \<or> accepts core (Set_threads n))
      \<and> default_allocator core = Immix_allocator 0 \<and> immortal_allocator core = BumpPointer_allocator 0)
   \<and> (case mmtk_gc_init f core lo hi n hdr tag st of
        (None, st') \<Rightarrow> st' = \<lparr>st_header_size = hdr, st_buff_tag = tag,
          builder_options = builder_options st @ filter (accepts core) (wanted_options f lo hi n),
          mmtk_initialized = True, side_log_bit_base = side_metadata_base core, panic_hook_set = True\<rparr>
      | (Some fault, st') \<Rightarrow> \<exists>msg. fault = AssertFailed msg)"
proof -
  define plans where "plans = (case force_plan f of Some plan \<Rightarrow> [Set_plan plan] | None \<Rightarrow> [])"
  have plan: "(case force_plan f of Some plan \<Rightarrow> snd (set_option core (Set_plan plan) st0) | None \<Rightarrow> st0)
      = st0\<lparr>builder_options := builder_options st0 @ filter (accepts core) plans\<rparr>" for st0
    by (simp add: plans_def set_option_def split: option.split)
  show ?thesis
    unfolding mmtk_gc_init_def wanted_options_def plan plans_def [symmetric]
    by (auto simp: init_mmtk_def set_option_def assert_that_def Let_def MIN_ALIGNMENT_def
        word_greater_zero_iff)
qed

section \<open>User collection requests\<close>

text \<open>What is asked of mmtk-core: its default request, or one with \<^verbatim>\<open>force\<close> and \<^verbatim>\<open>exhaustive\<close>.\<close>

datatype gc_request = Default_request | Forced_request bool

definition mmtk_handle_user_collection_request ::
    "bool \<Rightarrow> u8 \<Rightarrow> u64 \<Rightarrow> gc_request option res \<times> u64" where
  "mmtk_handle_user_collection_request disabled_gc collection user_triggered =
     (let n = user_triggered + 1
      in if disabled_gc then (Inr None, n + (- 1))
         else (if collection = 0 then Inr (Some Default_request)
               else if collection = 1 then Inr (Some (Forced_request True))
               else if collection = 2 then Inr (Some (Forced_request False))
               else Inl Unreachable, n))"

lemma disabled_request_keeps_count:
  "mmtk_handle_user_collection_request True c u = (Inr None, u)"
  by (simp add: mmtk_handle_user_collection_request_def)

section \<open>Forwarding functions that add something\<close>

text \<open>
  \<open>barrier_copy\<close> is what the barrier of mmtk-core does with two slices.
\<close>

definition mmtk_memory_region_copy ::
    "(memory_slice \<Rightarrow> memory_slice \<Rightarrow> 's \<Rightarrow> 's) \<Rightarrow> addr \<Rightarrow> addr \<Rightarrow> addr \<Rightarrow> addr \<Rightarrow> usize \<Rightarrow> 's \<Rightarrow> 's" where
  "mmtk_memory_region_copy barrier_copy src_obj src_addr dst_obj dst_addr n st =
     (let src = \<lparr>sl_owner = src_obj, sl_start = src_addr, sl_count = n\<rparr>;
          dst = \<lparr>sl_owner = dst_obj, sl_start = dst_addr, sl_count = n\<rparr>
      in barrier_copy src dst st)"

definition mmtk_object_reference_write_post ::
    "(addr \<Rightarrow> vm_slot \<Rightarrow> addr option \<Rightarrow> 's \<Rightarrow> 's) \<Rightarrow> addr \<Rightarrow> addr \<Rightarrow> 's \<Rightarrow> 's" where
  "mmtk_object_reference_write_post barrier_post src target st =
     barrier_post src (Simple 0) (objref target) st"

definition mmtk_object_reference_write_slow ::
    "(addr \<Rightarrow> vm_slot \<Rightarrow> addr option \<Rightarrow> 's \<Rightarrow> 's) \<Rightarrow> addr \<Rightarrow> addr \<Rightarrow> 's \<Rightarrow> 's" where
  "mmtk_object_reference_write_slow barrier_slow src target st =
     barrier_slow src (Simple 0) (objref target) st"

text \<open>The side log bits of a region are set in bulk under the plan sticky Immix.\<close>

definition set_side_log_bit_for_region ::
    "(addr \<Rightarrow> usize \<Rightarrow> 's \<Rightarrow> 's) \<Rightarrow> addr \<Rightarrow> usize \<Rightarrow> 's \<Rightarrow> 's" where
  "set_side_log_bit_for_region bset_metadata start sz st = bset_metadata start sz st"

definition mmtk_set_vm_space ::
    "bool \<Rightarrow> (addr \<Rightarrow> usize \<Rightarrow> 's \<Rightarrow> 's) \<Rightarrow> (addr \<Rightarrow> usize \<Rightarrow> 's \<Rightarrow> 's) \<Rightarrow> addr \<Rightarrow> usize \<Rightarrow> 's \<Rightarrow> 's" where
  "mmtk_set_vm_space stickyimmix core_set_vm_space bset_metadata start sz st =
     (let st1 = core_set_vm_space start sz st
      in if stickyimmix then set_side_log_bit_for_region bset_metadata start sz st1 else st1)"

definition mmtk_immortal_region_post_alloc ::
    "bool \<Rightarrow> (addr \<Rightarrow> usize \<Rightarrow> 's \<Rightarrow> 's) \<Rightarrow> addr \<Rightarrow> usize \<Rightarrow> 's \<Rightarrow> 's" where
  "mmtk_immortal_region_post_alloc stickyimmix bset_metadata start sz st =
     (if stickyimmix then set_side_log_bit_for_region bset_metadata start sz st else st)"

section \<open>Pinning\<close>

text \<open>
  Pinning, unpinning and the query are operations of mmtk-core on a state \<open>'s\<close>, asked only about
  objects in mapped memory; under the feature \<^verbatim>\<open>non_moving\<close> the three functions do nothing.
\<close>

definition mmtk_pin_object_non_moving :: "addr \<Rightarrow> 's \<Rightarrow> bool \<times> 's" where
  "mmtk_pin_object_non_moving obj st = (False, st)"

definition mmtk_unpin_object_non_moving :: "addr \<Rightarrow> 's \<Rightarrow> bool \<times> 's" where
  "mmtk_unpin_object_non_moving obj st = (False, st)"

definition mmtk_is_pinned_non_moving :: "addr \<Rightarrow> bool" where
  "mmtk_is_pinned_non_moving obj = False"

definition mmtk_pin_object ::
    "(addr \<Rightarrow> 's \<Rightarrow> bool \<times> 's) \<Rightarrow> runtime \<Rightarrow> bool \<Rightarrow> addr \<Rightarrow> 's \<Rightarrow> bool \<times> 's" where
  "mmtk_pin_object pin_object rt non_moving obj st =
     (if non_moving then mmtk_pin_object_non_moving obj st
      else if object_is_managed_by_mmtk rt obj then pin_object obj st
      else (False, st))"

definition mmtk_unpin_object ::
    "(addr \<Rightarrow> 's \<Rightarrow> bool \<times> 's) \<Rightarrow> runtime \<Rightarrow> bool \<Rightarrow> addr \<Rightarrow> 's \<Rightarrow> bool \<times> 's" where
  "mmtk_unpin_object unpin_object rt non_moving obj st =
     (if non_moving then mmtk_unpin_object_non_moving obj st
      else if object_is_managed_by_mmtk rt obj then unpin_object obj st
      else (False, st))"

definition mmtk_is_pinned ::
    "(addr \<Rightarrow> 's \<Rightarrow> bool) \<Rightarrow> runtime \<Rightarrow> bool \<Rightarrow> addr \<Rightarrow> 's \<Rightarrow> bool" where
  "mmtk_is_pinned is_pinned rt non_moving obj st =
     (if non_moving then mmtk_is_pinned_non_moving obj
      else if object_is_managed_by_mmtk rt obj then is_pinned obj st
      else False)"

end
