(* ===== verification/Host_Api.thy ===== *)
theory Host_Api
  imports Build_Info Runtime_Api
begin

text \<open>
  The functions of \<^verbatim>\<open>api.rs\<close> Julia calls to allocate, to query the heap and to set options. Most of
  the work is mmtk-core's; what the binding adds is the debug check of sizes, the large-object
  semantics, the ownership of the boxed workers, the C strings of an option, and the counter of
  malloced bytes. The functions of mmtk-core are the fields of the record \<open>core\<close>, over a state \<open>'s\<close>.
\<close>

section \<open>What is asked of mmtk-core\<close>

record ('s, 'sem) core =
  core_alloc :: "addr \<Rightarrow> usize \<Rightarrow> usize \<Rightarrow> usize \<Rightarrow> 'sem \<Rightarrow> 's \<Rightarrow> addr \<times> 's"
  core_post_alloc :: "addr \<Rightarrow> addr \<Rightarrow> usize \<Rightarrow> 'sem \<Rightarrow> 's \<Rightarrow> 's"
  Los :: 'sem
  raw_is_aligned :: "usize \<Rightarrow> usize \<Rightarrow> bool"
  is_movable :: "addr \<Rightarrow> 's \<Rightarrow> bool"
  is_live :: "addr \<Rightarrow> 's \<Rightarrow> bool"
  is_mapped :: "addr \<Rightarrow> 's \<Rightarrow> bool"
  core_start_worker :: "addr \<Rightarrow> addr \<Rightarrow> 's \<Rightarrow> 's"
  core_initialize_collection :: "addr \<Rightarrow> 's \<Rightarrow> 's"
  core_used_bytes :: "'s \<Rightarrow> usize"
  core_free_bytes :: "'s \<Rightarrow> usize"
  core_total_bytes :: "'s \<Rightarrow> usize"
  add_candidate :: "nat \<Rightarrow> addr \<Rightarrow> 's \<Rightarrow> 's"
  core_harness_begin :: "addr \<Rightarrow> 's \<Rightarrow> 's"
  core_harness_end :: "'s \<Rightarrow> 's"
  core_process :: "nat list \<Rightarrow> nat list \<Rightarrow> 's \<Rightarrow> bool \<times> 's"
  core_starting_heap_address :: addr
  core_last_heap_address :: addr
  core_gc_poll :: "addr \<Rightarrow> 's \<Rightarrow> 's"

text \<open>The three tables of candidates for weak processing.\<close>

abbreviation "weak_table \<equiv> 0 :: nat"
abbreviation "soft_table \<equiv> 1 :: nat"
abbreviation "phantom_table \<equiv> 2 :: nat"

section \<open>Allocation\<close>

text \<open>The first argument says whether it is a debug build.\<close>

definition mmtk_alloc ::
    "bool \<Rightarrow> ('s, 'sem) core \<Rightarrow> addr \<Rightarrow> usize \<Rightarrow> usize \<Rightarrow> usize \<Rightarrow> 'sem \<Rightarrow> 's \<Rightarrow> (addr \<times> 's) res" where
  "mmtk_alloc debug c mutator sz align offset semantics s =
     (if debug \<and> \<not> raw_is_aligned c sz (of_nat MIN_ALIGNMENT) then Inl DebugAssert
      else Inr (core_alloc c mutator sz align offset semantics s))"

definition mmtk_alloc_large ::
    "('s, 'sem) core \<Rightarrow> addr \<Rightarrow> usize \<Rightarrow> usize \<Rightarrow> usize \<Rightarrow> 's \<Rightarrow> addr \<times> 's" where
  "mmtk_alloc_large c mutator sz align offset s = core_alloc c mutator sz align offset (Los c) s"

definition mmtk_post_alloc ::
    "('s, 'sem) core \<Rightarrow> addr \<Rightarrow> addr \<Rightarrow> usize \<Rightarrow> 'sem \<Rightarrow> 's \<Rightarrow> 's" where
  "mmtk_post_alloc c mutator refer bytes semantics s = core_post_alloc c mutator refer bytes semantics s"

section \<open>Queries\<close>

definition mmtk_will_never_move :: "('s, 'sem) core \<Rightarrow> addr \<Rightarrow> 's \<Rightarrow> bool" where
  "mmtk_will_never_move c obj s \<longleftrightarrow> \<not> is_movable c obj s"

definition mmtk_used_bytes :: "('s, 'sem) core \<Rightarrow> 's \<Rightarrow> usize" where
  "mmtk_used_bytes c s = core_used_bytes c s"

definition mmtk_free_bytes :: "('s, 'sem) core \<Rightarrow> 's \<Rightarrow> usize" where
  "mmtk_free_bytes c s = core_free_bytes c s"

definition mmtk_total_bytes :: "('s, 'sem) core \<Rightarrow> 's \<Rightarrow> usize" where
  "mmtk_total_bytes c s = core_total_bytes c s"

definition mmtk_is_live_object :: "('s, 'sem) core \<Rightarrow> addr \<Rightarrow> 's \<Rightarrow> bool" where
  "mmtk_is_live_object c obj s = is_live c obj s"

definition mmtk_is_mapped_address :: "('s, 'sem) core \<Rightarrow> addr \<Rightarrow> 's \<Rightarrow> bool" where
  "mmtk_is_mapped_address c address s = is_mapped c address s"

definition mmtk_starting_heap_address :: "('s, 'sem) core \<Rightarrow> addr" where
  "mmtk_starting_heap_address c = core_starting_heap_address c"

definition mmtk_last_heap_address :: "('s, 'sem) core \<Rightarrow> addr" where
  "mmtk_last_heap_address c = core_last_heap_address c"

section \<open>Requests\<close>

definition mmtk_initialize_collection :: "('s, 'sem) core \<Rightarrow> addr \<Rightarrow> 's \<Rightarrow> 's" where
  "mmtk_initialize_collection c tls s = core_initialize_collection c tls s"

definition mmtk_add_weak_candidate :: "('s, 'sem) core \<Rightarrow> addr \<Rightarrow> 's \<Rightarrow> 's" where
  "mmtk_add_weak_candidate c reff s = add_candidate c weak_table reff s"

definition mmtk_add_soft_candidate :: "('s, 'sem) core \<Rightarrow> addr \<Rightarrow> 's \<Rightarrow> 's" where
  "mmtk_add_soft_candidate c reff s = add_candidate c soft_table reff s"

definition mmtk_add_phantom_candidate :: "('s, 'sem) core \<Rightarrow> addr \<Rightarrow> 's \<Rightarrow> 's" where
  "mmtk_add_phantom_candidate c reff s = add_candidate c phantom_table reff s"

definition mmtk_harness_begin :: "('s, 'sem) core \<Rightarrow> addr \<Rightarrow> 's \<Rightarrow> 's" where
  "mmtk_harness_begin c tls s = core_harness_begin c tls s"

definition mmtk_harness_end :: "('s, 'sem) core \<Rightarrow> addr \<Rightarrow> 's \<Rightarrow> 's" where
  "mmtk_harness_end c tls s = core_harness_end c s"

definition mmtk_gc_poll :: "('s, 'sem) core \<Rightarrow> addr \<Rightarrow> 's \<Rightarrow> 's" where
  "mmtk_gc_poll c tls s = core_gc_poll c tls s"

definition mmtk_runtime_panic :: "unit res" where
  "mmtk_runtime_panic = Inl (Panic ''Panicking at runtime!'')"

definition mmtk_unreachable :: "unit res" where
  "mmtk_unreachable = Inl Unreachable"

section \<open>Options\<close>

text \<open>
  The two C strings are decoded in turn; a string that is not UTF-8 panics, and without a
  terminator the scan for it does not end. The panic happens with the lock on the builder held and
  poisons it, which nobody sees: a panic that reaches the end of an \<^verbatim>\<open>extern "C"\<close> function aborts the
  process.
\<close>

definition to_str :: "memory \<Rightarrow> addr \<Rightarrow> nat list res" where
  "to_str m a =
     rbind (returns (cstr_bytes m a)) (\<lambda>bs.
       case utf8_decode bs of Some cs \<Rightarrow> Inr cs | None \<Rightarrow> Inl (Panic ''Utf8Error''))"

definition mmtk_process ::
    "('s, 'sem) core \<Rightarrow> memory \<Rightarrow> addr \<Rightarrow> addr \<Rightarrow> 's \<Rightarrow> (bool \<times> 's) res" where
  "mmtk_process c m name val s =
     rbind (returns (cstr_bytes m name)) (\<lambda>_.
       rbind (returns (cstr_bytes m val)) (\<lambda>_.
         rbind (to_str m name) (\<lambda>name_str.
           rbind (to_str m val) (\<lambda>value_str. Inr (core_process c name_str value_str s)))))"

section \<open>Workers\<close>

text \<open>
  The raw pointers to boxed workers that are out, and the state of mmtk-core. Starting a worker
  takes its box back (\<^verbatim>\<open>Box::from_raw\<close>) and hands it to mmtk-core, which owns it from then on; a
  pointer that is not, or no longer, out would make two owners of one box.
\<close>

record 's host_state =
  raw_workers :: "addr list"
  core_state :: 's

definition mmtk_start_worker ::
    "('s, 'sem) core \<Rightarrow> addr \<Rightarrow> addr \<Rightarrow> 's host_state \<Rightarrow> registry_fault + 's host_state" where
  "mmtk_start_worker c tls worker h =
     (if worker \<in> set (raw_workers h)
      then Inr (h\<lparr>raw_workers := remove1 worker (raw_workers h),
                  core_state := core_start_worker c tls worker (core_state h)\<rparr>)
      else Inl Double_free)"

definition mmtk_start_spawned_worker_thread ::
    "('s, 'sem) core \<Rightarrow> addr \<Rightarrow> addr \<Rightarrow> 's host_state \<Rightarrow> registry_fault + 's host_state" where
  "mmtk_start_spawned_worker_thread c tls ctx h = mmtk_start_worker c tls ctx h"

text \<open>
  The bytes Julia counts in \<^verbatim>\<open>JULIA_MALLOC_BYTES\<close> are what the collector is told the VM keeps alive
  outside the heap; without memory the binding throws Julia's error.
\<close>

definition vm_live_bytes :: "usize \<Rightarrow> usize" where
  "vm_live_bytes JULIA_MALLOC_BYTES = JULIA_MALLOC_BYTES"

definition out_of_memory :: "('s \<Rightarrow> 's) \<Rightarrow> 's \<Rightarrow> 's" where
  "out_of_memory jl_throw_out_of_memory_error s = jl_throw_out_of_memory_error s"

section \<open>The functions are total but for the panics they state\<close>

lemma to_str_stored:
  "stored m a (bs @ [0]) \<Longrightarrow> 0 \<notin> set bs \<Longrightarrow>
     to_str m a = (case utf8_decode bs of Some cs \<Rightarrow> Inr cs | None \<Rightarrow> Inl (Panic ''Utf8Error''))"
  by (simp add: to_str_def cstr_bytes_stored)

text \<open>
  C27: for two null-terminated strings, \<^verbatim>\<open>mmtk_process\<close> hands mmtk-core the two texts the bytes encode
  and returns its answer, exactly when both are encodings of sequences of Unicode scalar values;
  otherwise it panics and mmtk-core is not asked.
\<close>

theorem process_forwards_iff:
  assumes "stored m name (ns @ [0])" and "0 \<notin> set ns" and "stored m val (vs @ [0])" and "0 \<notin> set vs"
  shows "(mmtk_process c m name val s = Inr r \<longleftrightarrow>
      (\<exists>n v. list_all scalar n \<and> ns = utf8 n \<and> list_all scalar v \<and> vs = utf8 v \<and> r = core_process c n v s))
    \<and> (mmtk_process c m name val s = Inl e \<longleftrightarrow>
      e = Panic ''Utf8Error'' \<and> (utf8_decode ns = None \<or> utf8_decode vs = None))"
proof -
  have p: "mmtk_process c m name val s =
      (case (utf8_decode ns, utf8_decode vs) of
         (Some n, Some v) \<Rightarrow> Inr (core_process c n v s)
       | _ \<Rightarrow> Inl (Panic ''Utf8Error''))"
    using assms by (simp add: mmtk_process_def to_str_stored cstr_bytes_stored split: option.split)
  have "mmtk_process c m name val s = Inr r \<longleftrightarrow>
      (\<exists>n v. utf8_decode ns = Some n \<and> utf8_decode vs = Some v \<and> r = core_process c n v s)"
    unfolding p by (auto split: option.split)
  then show ?thesis
    unfolding utf8_decode_iff by (auto simp: p split: option.splits)
qed

text \<open>An instance of the parameters: options are recorded, allocation bumps a pointer.\<close>

definition sample_core :: "(addr \<times> (nat list \<times> nat list) list, nat) core" where
  "sample_core = \<lparr>core_alloc = \<lambda>mut sz al off sem s. (fst s, (fst s + sz, snd s)),
     core_post_alloc = \<lambda>mut r n sem s. s, Los = 1, raw_is_aligned = \<lambda>a n. unat a mod unat n = 0,
     is_movable = \<lambda>a s. True, is_live = \<lambda>a s. True, is_mapped = \<lambda>a s. a < fst s,
     core_start_worker = \<lambda>tls w s. s, core_initialize_collection = \<lambda>tls s. s,
     core_used_bytes = \<lambda>s. 0, core_free_bytes = \<lambda>s. 0, core_total_bytes = \<lambda>s. 0,
     add_candidate = \<lambda>t a s. s, core_harness_begin = \<lambda>tls s. s, core_harness_end = \<lambda>s. s,
     core_process = \<lambda>n v s. (True, (fst s, (n, v) # snd s)), core_starting_heap_address = 0,
     core_last_heap_address = 0, core_gc_poll = \<lambda>tls s. s\<rparr>"

definition sample_strings :: memory where
  "sample_strings = store_bytes (store_bytes (\<lambda>x. 0) 0x1000 [112, 108, 97, 110, 0]) 0x2000 [0xc3, 0xa9, 0]"

lemma sample_strings_stored:
  "stored sample_strings 0x1000 ([112, 108, 97, 110] @ [0])" "stored sample_strings 0x2000 ([0xc3, 0xa9] @ [0])"
  by (simp_all add: sample_strings_def stored_Cons store_bytes_def)

theorem process_forwards_iff_witness:
  "mmtk_process sample_core sample_strings 0x1000 0x2000 (0, [])
    = Inr (True, (0, [([112, 108, 97, 110], [0xe9])]))"
proof -
  have "utf8 [112, 108, 97, 110] = [112, 108, 97, 110]" "utf8 [0xe9] = [0xc3, 0xa9]"
    by (simp_all add: utf8_char_def)
  then show ?thesis
    using process_forwards_iff [OF sample_strings_stored(1) _ sample_strings_stored(2) _,
        of sample_core "(0, [])" "(True, (0, [([112, 108, 97, 110], [0xe9])]))" UnwrapNone]
    by (auto simp: scalar_def sample_core_def intro!: exI [of _ "[112, 108, 97, 110]"] exI [of _ "[0xe9]"])
qed

section \<open>Sizes and the check of allocations\<close>

lemma llt_align_mult: "2 ^ n dvd unat (llt_align s (2 ^ n))"
proof -
  have "llt_align s (2 ^ n) = (s + 2 ^ n - 1) AND NOT (mask n)"
    by (simp add: llt_align_def mask_eq_exp_minus_1)
  then show ?thesis
    by (simp add: unat_and_not_mask)
qed

lemma llt_align_8_mult: "8 dvd unat (llt_align s 8)" "8 dvd unat (llt_align s 16)"
  using llt_align_mult [of 3 s] llt_align_mult [of 4 s] dvd_trans [of 8 16 "unat (llt_align s 16)"]
  by simp_all

lemma layout_size_mult: "8 dvd unat (layout_object_size rt m vt)"
  by (simp add: layout_object_size_def Let_def llt_align_8_mult)

lemma memory_size_mult: "genericmemory_size rt m obj = Inr sz \<Longrightarrow> 8 dvd unat sz"
  by (auto simp: genericmemory_size_def Let_def rbind_eq_Inr llt_align_8_mult split: if_splits)

lemma typed_size_mult: "typed_object_size rt m obj vt = Inr sz \<Longrightarrow> 8 dvd unat sz"
  by (auto simp: typed_object_size_def rbind_eq_Inr memory_size_mult layout_size_mult split: if_splits)

lemma small_tag_size_mult: "small_tag_size rt m obj vtag = Inr sz \<Longrightarrow> 8 dvd unat sz"
  by (auto simp: small_tag_size_def Let_def rbind_eq_Inr llt_align_8_mult layout_size_mult split: if_splits)

text \<open>
  In a debug build, an allocation of the size \<^verbatim>\<open>get_so_object_size\<close> gives for any object that is
  not a buffer passes the check of \<^verbatim>\<open>mmtk_alloc\<close> and reaches mmtk-core, even where the arithmetic of
  the size wrapped around: the sizes are multiples of 8, and the minimal alignment is 4.
\<close>

theorem object_sizes_allocatable:
  assumes "\<And>a n. raw_is_aligned c a n \<longleftrightarrow> unat a mod unat n = 0"
    and "get_so_object_size rt m obj = Inr sz" and "mmtk_jl_typetagof m obj \<noteq> JULIA_BUFF_TAG rt"
  shows "8 dvd unat sz \<and>
    mmtk_alloc debug c mutator sz align offset semantics s = Inr (core_alloc c mutator sz align offset semantics s)"
proof -
  have sz: "8 dvd unat sz"
    using assms(2,3)
    by (auto simp: get_so_object_size_def Let_def rbind_eq_Inr typed_size_mult small_tag_size_mult
        split: if_splits)
  then have "4 dvd unat sz"
    by (rule dvd_trans [rotated]) simp
  then show ?thesis
    using sz assms(1) by (simp add: mmtk_alloc_def MIN_ALIGNMENT_def mod_eq_0_iff_dvd)
qed

lemma sample_module_size: "get_so_object_size sample_runtime (poke [(0x8ff8, 128)]) 0x9000 = Inr 400"
  by (simp add: get_so_object_size_def mmtk_jl_typetagof_def load64_poke small_tag_size_def llt_align_def
      plain_small_tags_eq)

theorem object_sizes_allocatable_witness:
  "mmtk_alloc True sample_core 0 400 16 8 0 (64, []) = Inr (64, (464, []))"
  using object_sizes_allocatable [of sample_core sample_runtime "poke [(0x8ff8, 128)]" "0x9000" 400
      True 0 16 8 0 "(64, [])"] sample_module_size
  by (simp add: sample_core_def mmtk_jl_typetagof_def load64_poke)

section \<open>Workers are started once\<close>

text \<open>A run of calls of \<^verbatim>\<open>mmtk_start_worker\<close>.\<close>

primrec start_workers ::
    "('s, 'sem) core \<Rightarrow> (addr \<times> addr) list \<Rightarrow> 's host_state \<Rightarrow> registry_fault + 's host_state" where
  "start_workers c [] h = Inr h"
| "start_workers c (w # ws) h = rbind (mmtk_start_worker c (fst w) (snd w) h) (start_workers c ws)"

text \<open>
  When every box is out once, a run of starts goes through exactly when the workers are distinct and
  their boxes out; each is then handed to mmtk-core once, in order, and its pointer is gone.
\<close>

theorem workers_started_once:
  assumes "distinct (raw_workers h)"
  shows "start_workers c ws h =
    (if distinct (map snd ws) \<and> set (map snd ws) \<subseteq> set (raw_workers h)
     then Inr (h\<lparr>raw_workers := filter (\<lambda>w. w \<notin> snd ` set ws) (raw_workers h),
                 core_state := fold (\<lambda>w. core_start_worker c (fst w) (snd w)) ws (core_state h)\<rparr>)
     else Inl Double_free)"
  using assms
proof (induction ws arbitrary: h)
  case (Cons w ws)
  show ?case
  proof (cases "snd w \<in> set (raw_workers h)")
    case True
    have "remove1 (snd w) (raw_workers h) = filter (\<lambda>y. y \<noteq> snd w) (raw_workers h)"
      using Cons.prems
      by (auto simp: distinct_remove1_removeAll removeAll_filter_not_eq intro: filter_cong)
    then show ?thesis
      using True Cons by (auto simp: mmtk_start_worker_def conj_commute intro: rev_image_eqI)
  qed (use Cons in \<open>simp add: mmtk_start_worker_def\<close>)
qed simp

end
