(* ===== verification/Metadata_Specs.thy ===== *)
theory Metadata_Specs
  imports Object_Model
begin

text \<open>
  The metadata \<^verbatim>\<open>object_model.rs\<close> asks mmtk-core to keep for each object: the constants of the trait
  \<^verbatim>\<open>ObjectModel\<close>, which say for each kind of metadata whether it is in the header or on the side and
  after which other table. The size and the start of a table are mmtk-core's; the locale
  \<open>side_tables\<close> states what its documentation promises of them.
\<close>

section \<open>The specifications\<close>

datatype metadata_kind =
  Log_bit | Los_mark_nursery | Mark_bit | Pinning_bit | Forwarding_bits | Forwarding_pointer

text \<open>
  \<^verbatim>\<open>in_header(bits)\<close> is an offset in bits from the object reference, \<^verbatim>\<open>side_first()\<close> and
  \<^verbatim>\<open>side_after(spec)\<close> are places among the side tables.
\<close>

datatype metadata_spec =
    In_header metadata_kind int
  | Side_first metadata_kind
  | Side_after metadata_kind metadata_spec

fun spec_kind :: "metadata_spec \<Rightarrow> metadata_kind" where
  "spec_kind (In_header k bits) = k"
| "spec_kind (Side_first k) = k"
| "spec_kind (Side_after k s) = k"

definition LOGGING_SIDE_METADATA_SPEC :: metadata_spec where
  "LOGGING_SIDE_METADATA_SPEC = Side_first Log_bit"

definition LOS_METADATA_SPEC :: metadata_spec where
  "LOS_METADATA_SPEC = Side_first Los_mark_nursery"

definition MARKING_METADATA_SPEC :: metadata_spec where
  "MARKING_METADATA_SPEC = Side_after Mark_bit LOS_METADATA_SPEC"

definition LOCAL_PINNING_METADATA_BITS_SPEC :: metadata_spec where
  "LOCAL_PINNING_METADATA_BITS_SPEC = Side_after Pinning_bit MARKING_METADATA_SPEC"

definition LOCAL_FORWARDING_POINTER_SPEC :: metadata_spec where
  "LOCAL_FORWARDING_POINTER_SPEC = In_header Forwarding_pointer (- 64)"

text \<open>The argument is the feature \<^verbatim>\<open>object_pinning\<close>, without which there is no pinning bit.\<close>

definition LOCAL_FORWARDING_BITS_SPEC :: "bool \<Rightarrow> metadata_spec" where
  "LOCAL_FORWARDING_BITS_SPEC object_pinning =
     (if object_pinning then Side_after Forwarding_bits LOCAL_PINNING_METADATA_BITS_SPEC
      else Side_after Forwarding_bits MARKING_METADATA_SPEC)"

text \<open>The constants of the trait: the global specification, and the local ones in any order.\<close>

definition GLOBAL_LOG_BIT_SPEC :: metadata_spec where
  "GLOBAL_LOG_BIT_SPEC = LOGGING_SIDE_METADATA_SPEC"

definition LOCAL_MARK_BIT_SPEC :: metadata_spec where
  "LOCAL_MARK_BIT_SPEC = MARKING_METADATA_SPEC"

definition LOCAL_LOS_MARK_NURSERY_SPEC :: metadata_spec where
  "LOCAL_LOS_MARK_NURSERY_SPEC = LOS_METADATA_SPEC"

definition LOCAL_PINNING_BIT_SPEC :: metadata_spec where
  "LOCAL_PINNING_BIT_SPEC = LOCAL_PINNING_METADATA_BITS_SPEC"

definition UNIFIED_OBJECT_REFERENCE_ADDRESS :: bool where
  "UNIFIED_OBJECT_REFERENCE_ADDRESS = False"

definition OBJECT_REF_OFFSET_LOWER_BOUND :: int where
  "OBJECT_REF_OFFSET_LOWER_BOUND = 0"

definition local_specs :: "bool \<Rightarrow> metadata_spec list" where
  "local_specs object_pinning =
     [LOCAL_FORWARDING_POINTER_SPEC, LOCAL_FORWARDING_BITS_SPEC object_pinning, LOCAL_MARK_BIT_SPEC,
      LOCAL_LOS_MARK_NURSERY_SPEC] @ (if object_pinning then [LOCAL_PINNING_BIT_SPEC] else [])"

section \<open>Where the side tables are\<close>

text \<open>The specifications a table is placed after, however long the chain.\<close>

fun chain :: "metadata_spec \<Rightarrow> metadata_spec set" where
  "chain (Side_after k s) = insert s (chain s)"
| "chain s = {}"

text \<open>
  \<open>start\<close> is where the table of a specification begins and \<open>bytes\<close> how long the table of a kind
  is. A table placed after another begins where that one ends or later.
\<close>

locale side_tables =
  fixes start :: "metadata_spec \<Rightarrow> nat" and bytes :: "metadata_kind \<Rightarrow> nat"
  assumes side_after: "start s + bytes (spec_kind s) \<le> start (Side_after k s)"
begin

definition before :: "metadata_spec \<Rightarrow> metadata_spec \<Rightarrow> bool" where
  "before s s' \<longleftrightarrow> start s + bytes (spec_kind s) \<le> start s'"

lemma chain_before: "s \<in> chain s' \<Longrightarrow> before s s'"
proof (induction s')
  case (Side_after k s')
  then show ?case
    using side_after [of s' k] by (auto simp: before_def)
qed simp_all

lemma chain_disjoint:
  assumes "s \<in> chain s' \<or> s' \<in> chain s"
  shows "start s + bytes (spec_kind s) \<le> start s' \<or> start s' + bytes (spec_kind s') \<le> start s"
  using assms by (auto simp: before_def dest: chain_before)

end

text \<open>The layout that leaves no gap: each table begins where the one before it ends.\<close>

fun packed_start :: "(metadata_kind \<Rightarrow> nat) \<Rightarrow> metadata_spec \<Rightarrow> nat" where
  "packed_start bytes (Side_after k s) = packed_start bytes s + bytes (spec_kind s)"
| "packed_start bytes s = 0"

interpretation packed_tables: side_tables "packed_start bytes" bytes
  by unfold_locales simp

fun on_side :: "metadata_spec \<Rightarrow> bool" where
  "on_side (In_header k bits) = False"
| "on_side s = True"

definition tables_apart ::
    "(metadata_spec \<Rightarrow> nat) \<Rightarrow> (metadata_kind \<Rightarrow> nat) \<Rightarrow> metadata_spec \<Rightarrow> metadata_spec \<Rightarrow> bool" where
  "tables_apart start bytes s s' \<longleftrightarrow>
     start s + bytes (spec_kind s) \<le> start s' \<or> start s' + bytes (spec_kind s') \<le> start s"

lemmas spec_defs = local_specs_def LOCAL_FORWARDING_POINTER_SPEC_def LOCAL_FORWARDING_BITS_SPEC_def
  LOCAL_MARK_BIT_SPEC_def LOCAL_LOS_MARK_NURSERY_SPEC_def LOCAL_PINNING_BIT_SPEC_def
  LOCAL_PINNING_METADATA_BITS_SPEC_def MARKING_METADATA_SPEC_def LOS_METADATA_SPEC_def

text \<open>Every two local side specifications are in one chain.\<close>

lemma local_specs_chained:
  "sorted_wrt (\<lambda>s s'. s \<in> chain s' \<or> s' \<in> chain s)
     (filter on_side (local_specs object_pinning))"
  by (cases object_pinning) (simp_all add: spec_defs)

text \<open>
  C32: with and without the feature \<^verbatim>\<open>object_pinning\<close>, the side tables of the local metadata (the
  forwarding bits, the mark bit, the mark and nursery bits of large objects, the pinning bit) do
  not overlap, however long they are and however mmtk-core pads them, as long as a table placed
  after another begins where that one ends or later.
\<close>

theorem local_metadata_apart:
  assumes "\<And>s k. start s + bytes (spec_kind s) \<le> start (Side_after k s)"
  shows "sorted_wrt (tables_apart start bytes) (filter on_side (local_specs object_pinning))"
proof -
  have "side_tables start bytes"
    by unfold_locales (rule assms)
  then show ?thesis
    by (intro sorted_wrt_mono_rel [OF _ local_specs_chained])
      (auto simp: tables_apart_def dest: side_tables.chain_disjoint)
qed

theorem local_metadata_apart_witness:
  "sorted_wrt (tables_apart (packed_start (\<lambda>k. 16)) (\<lambda>k. 16)) (filter on_side (local_specs True))
    \<and> packed_start (\<lambda>k. 16) (LOCAL_FORWARDING_BITS_SPEC True) = 48"
  using local_metadata_apart [of "packed_start (\<lambda>k. 16)" "\<lambda>k. 16" True] by (simp add: spec_defs)

section \<open>The forwarding pointer\<close>

text \<open>The word of a header specification for an object.\<close>

fun header_word :: "metadata_spec \<Rightarrow> addr \<Rightarrow> addr option" where
  "header_word (In_header k bits) obj = (if bits mod 64 = 0 then Some (obj + of_int (bits div 8)) else None)"
| "header_word s obj = None"

text \<open>
  The forwarding pointer of an object takes the place of its type word and of nothing else: when
  mmtk-core writes it, the object's fields stay, and the type read from the old object is the new
  address. This is why \<^verbatim>\<open>object_copy\<close> can read the type of the old object only until it returns.
\<close>

theorem forwarding_pointer_replaces_type:
  "\<exists>w. header_word LOCAL_FORWARDING_POINTER_SPEC obj = Some w
    \<and> mmtk_jl_typetagof (store64 m w new) obj = new AND NOT 0xf
    \<and> (\<forall>x. 8 \<le> x - w \<longrightarrow> store64 m w new x = m x)"
  by (simp add: LOCAL_FORWARDING_POINTER_SPEC_def mmtk_jl_typetagof_def mem_simps)
    (simp add: store64_def store_le_byte word_le_nat_alt)

end
