(* ===== verification/Evacuation.thy ===== *)
theory Evacuation
  imports Object_Model
begin

text \<open>
  What the collector does to one live object, across the components: \<^verbatim>\<open>object_copy\<close> of
  \<^verbatim>\<open>object_model.rs\<close> moves it, \<^verbatim>\<open>scan_julia_object\<close> of \<^verbatim>\<open>julia_scanning.rs\<close> visits the slots of the
  copy, and each slot is loaded, forwarded and stored back (\<^verbatim>\<open>slots.rs\<close>). The copy of an object of
  an ordinary type is scanned like the object itself, its slots lie as far into the copy and hold
  the same references, and afterwards each refers to where its object has gone.
\<close>

section \<open>What a scan reads\<close>

text \<open>The \<open>n\<close> bytes from \<open>a\<close>, and memories that hold the same bytes in a set of places.\<close>

definition span :: "addr \<Rightarrow> nat \<Rightarrow> addr set" where
  "span a n = {x. unat (x - a) < n}"

definition same_on :: "addr set \<Rightarrow> memory \<Rightarrow> memory \<Rightarrow> bool" where
  "same_on S m m' \<longleftrightarrow> (\<forall>x \<in> S. m' x = m x)"

lemma span_0 [simp]: "span a 0 = {}"
  by (simp add: span_def)

lemma same_on_Un [simp]: "same_on (S \<union> T) m m' \<longleftrightarrow> same_on S m m' \<and> same_on T m m'"
  by (auto simp: same_on_def)

lemma same_on_trans: "same_on S m m' \<Longrightarrow> same_on S m' m'' \<Longrightarrow> same_on S m m''"
  by (simp add: same_on_def)

text \<open>
  The header of the object, its datatype with the header of that, the datatype's layout, and the
  layout's pointer table: all that the scan of an object with pointer fields reads.
\<close>

definition type_bytes :: "memory \<Rightarrow> addr \<Rightarrow> addr set" where
  "type_bytes m obj =
     (let vt = mmtk_jl_typetagof m obj; layout = dt_layout m vt
      in span (obj - 8) 8 \<union> span (vt - 8) (8 + fst jl_datatype_t)
         \<union> span layout (fst jl_datatype_layout_t)
         \<union> span (mmtk_jl_dt_layout_ptrs m layout) (entry_bytes m layout * unat (ly_npointers m layout)))"

lemma byte_same_on:
  assumes "same_on (span a n) m m'" and "k < n" and "k < 2 ^ 64"
  shows "m' (a + of_nat k) = m (a + of_nat k)"
  using assms by (simp add: same_on_def span_def unat_of_nat_64)

lemma load_le_same_on:
  assumes "same_on (span a n) m m'" and "off + k \<le> n" and "off + k \<le> 2 ^ 64"
  shows "load_le k m' (a + of_nat off) = load_le k m (a + of_nat off)"
proof (rule load_le_cong)
  fix i assume "i < k"
  then show "m' (a + of_nat off + of_nat i) = m (a + of_nat off + of_nat i)"
    using byte_same_on [OF assms(1), of "off + i"] assms(2,3) by (simp add: add.assoc)
qed

lemma load64_same_on:
  "same_on (span a n) m m' \<Longrightarrow> off + 8 \<le> n \<Longrightarrow> off + 8 \<le> 2 ^ 64 \<Longrightarrow>
    load64 m' (a + of_nat off) = load64 m (a + of_nat off)"
  unfolding load64_def by (rule load_le_same_on)

lemma header_same_on:
  assumes "same_on (span (obj - 8) n) m m'" and "8 \<le> n"
  shows "mmtk_jl_typetagof m' obj = mmtk_jl_typetagof m obj"
proof -
  have "load64 m' (obj - 8) = load64 m (obj - 8)"
    using load_le_same_on [OF assms(1), of 0 8] assms(2) by (simp add: load64_def)
  then show ?thesis
    by (simp add: mmtk_jl_typetagof_def)
qed

lemma type_sizes [simp]: "fst jl_datatype_t = 56" "fst jl_datatype_layout_t = 20"
  by (simp_all add: layout_eval)

lemma datatype_same_on:
  assumes s: "same_on (span (vt - 8) 64) m m'"
  shows "mmtk_jl_typetagof m' vt = mmtk_jl_typetagof m vt" and "dt_name m' vt = dt_name m vt"
    and "dt_layout m' vt = dt_layout m vt" and "dt_smalltag m' vt = dt_smalltag m vt"
proof -
  show "mmtk_jl_typetagof m' vt = mmtk_jl_typetagof m vt"
    by (rule header_same_on [OF s]) simp
  have "load64 m' (vt - 8 + of_nat 8) = load64 m (vt - 8 + of_nat 8)"
    "load64 m' (vt - 8 + of_nat 48) = load64 m (vt - 8 + of_nat 48)"
    unfolding load64_def by (rule load_le_same_on [OF s]; simp)+
  then show "dt_name m' vt = dt_name m vt" "dt_layout m' vt = dt_layout m vt"
    by (simp_all add: dt_name_def dt_layout_def add.commute)
  have "m' (vt + 52) = m (vt + 52)" "m' (vt + 52 + 1) = m (vt + 52 + 1)"
    using byte_same_on [OF s, of 60] byte_same_on [OF s, of 61] by (simp_all add: add.commute)
  then show "dt_smalltag m' vt = dt_smalltag m vt"
    by (simp add: dt_smalltag_def bytes_at_2)
qed

lemma layout_same_on:
  assumes s: "same_on (span l 20) m m'"
  shows "ly_flags m' l = ly_flags m l" and "ly_npointers m' l = ly_npointers m l"
    and "mmtk_jl_dt_layout_ptrs m' l = mmtk_jl_dt_layout_ptrs m l"
proof -
  have "m' (l + 18) = m (l + 18)" "m' (l + 18 + 1) = m (l + 18 + 1)"
    using byte_same_on [OF s, of 18] byte_same_on [OF s, of 19] by (simp_all add: add.commute)
  then show flags: "ly_flags m' l = ly_flags m l"
    by (simp add: ly_flags_def bytes_at_2)
  have n: "load32 m' (l + of_nat 4) = load32 m (l + of_nat 4)"
    "load32 m' (l + of_nat 8) = load32 m (l + of_nat 8)"
    unfolding load32_def by (rule load_le_same_on [OF s]; simp)+
  then show "ly_npointers m' l = ly_npointers m l"
    by (simp add: ly_npointers_def)
  show "mmtk_jl_dt_layout_ptrs m' l = mmtk_jl_dt_layout_ptrs m l"
    using n flags by (simp add: mmtk_jl_dt_layout_ptrs_def ly_nfields_def)
qed

lemma load_entry_cong:
  assumes "\<And>i. i < w \<Longrightarrow> m' (p + of_nat i) = m (p + of_nat i)" and "w \<in> {1, 2, 4}"
  shows "load_entry w m' p = load_entry w m p"
proof -
  consider "w = 1" | "w = 2" | "w = 4"
    using assms(2) by auto
  then show ?thesis
    using assms(1) by cases (auto simp: load16_def load32_def intro!: arg_cong [of _ _ ucast] load_le_cong)
qed

lemma table_same_on:
  assumes "same_on (span table (w * n)) m m'" and "w \<in> {1, 2, 4}" and "w * n \<le> 2 ^ 64"
  shows "pointer_slots w m' base table n = pointer_slots w m base table n"
proof -
  have "load_entry w m' (table + of_nat j * of_nat w) = load_entry w m (table + of_nat j * of_nat w)"
    if "j < n" for j
  proof (rule load_entry_cong)
    fix i assume "i < w"
    then have "j * w + i < w * n"
      using mult_le_mono2 [of "Suc j" n w] that by (simp add: mult.commute)
    then show "m' (table + of_nat j * of_nat w + of_nat i) = m (table + of_nat j * of_nat w + of_nat i)"
      using byte_same_on [OF assms(1), of "j * w + i"] assms(3) by (simp add: add.assoc)
  qed (rule assms(2))
  then show ?thesis
    by (simp add: pointer_slots_def del: load_entry.simps)
qed

section \<open>Objects with pointer fields\<close>

definition plain_object :: "runtime \<Rightarrow> memory \<Rightarrow> addr \<Rightarrow> bool" where
  "plain_object rt m obj \<longleftrightarrow>
     (let vt = mmtk_jl_typetagof m obj; layout = dt_layout m vt
      in not_special rt vt \<and> max_tag_word \<le> vt \<and> is_datatype m vt \<and> vt \<noteq> rt_weakref_type rt
         \<and> dt_name m vt \<noteq> rt_array_typename rt \<and> dt_name m vt \<noteq> rt_genericmemory_typename rt
         \<and> fielddesc_type_custom (ly_flags m layout) \<noteq> 3
         \<and> unat (mmtk_jl_dt_layout_ptrs m layout) + 4 * unat (ly_npointers m layout) + 4 < 2 ^ 64)"

definition field_slots :: "memory \<Rightarrow> addr \<Rightarrow> addr \<Rightarrow> vm_slot list" where
  "field_slots m vt obj =
     (let layout = dt_layout m vt
      in pointer_slots (entry_bytes m layout) m obj (mmtk_jl_dt_layout_ptrs m layout)
           (unat (ly_npointers m layout)))"

lemma plain_object_scan:
  "plain_object rt m obj \<Longrightarrow>
    scan_julia_object rt m obj = Inr (field_slots m (mmtk_jl_typetagof m obj) obj)"
  using fields_slots_eq [of m "dt_layout m (mmtk_jl_typetagof m obj)" obj]
  by (simp add: plain_object_def Let_def scan_simps field_slots_def)

fun slot_shift :: "addr \<Rightarrow> vm_slot \<Rightarrow> vm_slot" where
  "slot_shift d (Simple a) = Simple (a + d)"
| "slot_shift d (Offset s) = Offset (s\<lparr>slot_addr := slot_addr s + d\<rparr>)"

lemma field_slots_shift:
  "field_slots m vt obj' = map (slot_shift (obj' - obj)) (field_slots m vt obj)"
  by (simp add: field_slots_def pointer_slots_def Let_def algebra_simps del: load_entry.simps)

lemma entry_bytes_cases:
  assumes "fielddesc_type_custom (ly_flags m l) \<noteq> 3"
  shows "entry_bytes m l \<in> {1, 2, 4}"
proof -
  have "fielddesc_type_custom (ly_flags m l) \<in> {0, 1, 2}"
    using fielddesc_type_le3 [of "ly_flags m l"] assms
    by (simp add: word_le_nat_alt word_unat_eq_iff) arith
  then show ?thesis
    by (auto simp: entry_bytes_def)
qed

text \<open>An object of the same type in a memory that keeps the type is scanned like the first one.\<close>

lemma plain_object_same:
  assumes "plain_object rt m obj" and "same_on (type_bytes m obj) m m'"
    and "mmtk_jl_typetagof m' obj' = mmtk_jl_typetagof m obj"
  shows "plain_object rt m' obj'" and "field_slots m' (mmtk_jl_typetagof m obj) b = field_slots m (mmtk_jl_typetagof m obj) b"
proof -
  let ?vt = "mmtk_jl_typetagof m obj"
  let ?l = "dt_layout m ?vt"
  let ?w = "entry_bytes m ?l" and ?n = "unat (ly_npointers m ?l)"
  have vt: "same_on (span (?vt - 8) 64) m m'" and l: "same_on (span ?l 20) m m'"
    and t: "same_on (span (mmtk_jl_dt_layout_ptrs m ?l) (?w * ?n)) m m'"
    using assms(2) by (simp_all add: type_bytes_def Let_def)
  show "plain_object rt m' obj'"
    using assms(1,3) by (simp add: plain_object_def Let_def is_datatype_def datatype_same_on [OF vt]
        layout_same_on [OF l])
  have w: "?w \<in> {1, 2, 4}"
    using assms(1) by (intro entry_bytes_cases) (simp add: plain_object_def Let_def)
  moreover have "?w * ?n \<le> 2 ^ 64"
  proof -
    have "?w * ?n \<le> 4 * ?n"
      using w by auto
    moreover have "4 * ?n < 2 ^ 64"
      using assms(1) by (simp add: plain_object_def Let_def)
    ultimately show ?thesis
      by linarith
  qed
  ultimately have "pointer_slots ?w m' b (mmtk_jl_dt_layout_ptrs m ?l) ?n
      = pointer_slots ?w m b (mmtk_jl_dt_layout_ptrs m ?l) ?n"
    by (rule table_same_on [OF t])
  then show "field_slots m' ?vt b = field_slots m ?vt b"
    by (simp add: field_slots_def Let_def datatype_same_on [OF vt] layout_same_on [OF l] entry_bytes_def)
qed

section \<open>Copying such an object\<close>

text \<open>Where \<^verbatim>\<open>post_copy\<close> keeps its metadata: on the side, away from the objects.\<close>

definition side_metadata :: "copy_context \<Rightarrow> addr set \<Rightarrow> bool" where
  "side_metadata cc meta \<longleftrightarrow> (\<forall>m a n. same_on (- meta) m (post_copy cc m a n))"

definition copied :: "copy_context \<Rightarrow> memory \<Rightarrow> addr \<Rightarrow> usize \<Rightarrow> memory" where
  "copied cc m obj bytes = (let dst = alloc_copy cc m obj bytes 16 8
     in post_copy cc (copy_bytes m (obj - 8) dst bytes) (dst + 8) bytes)"

lemma copied_elsewhere:
  assumes "side_metadata cc meta" and "S \<inter> (span (alloc_copy cc m obj bytes 16 8) (unat bytes) \<union> meta) = {}"
  shows "same_on S m (copied cc m obj bytes)"
  using assms
  by (auto simp: same_on_def side_metadata_def span_def copied_def Let_def copy_bytes_other
      word_less_nat_alt disjoint_iff)

lemma copied_inside:
  assumes "copy_context_ok cc" and "unat (x - (obj - 8)) < unat bytes"
  shows "copied cc m obj bytes (x - (obj - 8) + alloc_copy cc m obj bytes 16 8) = m x"
  using assms by (simp add: copied_def Let_def copy_context_ok_def copy_bytes_def word_less_nat_alt)

lemma copied_load:
  fixes m :: memory
  assumes "copy_context_ok cc" and "unat (a - (obj - 8)) + 8 \<le> unat bytes"
  defines "d \<equiv> alloc_copy cc m obj bytes 16 8 + 8 - obj"
  shows "load64 (copied cc m obj bytes) (a + d) = load64 m a"
proof (rule load64_cong)
  fix i :: nat assume "i < 8"
  let ?k = "unat (a - (obj - 8))"
  have "unat (of_nat (?k + i) :: addr) = ?k + i"
    using assms(2) \<open>i < 8\<close> word_max_64 [of bytes] by (intro unat_of_nat_64) simp
  then have "unat (a + of_nat i - (obj - 8)) < unat bytes"
    using assms(2) \<open>i < 8\<close> by (simp add: algebra_simps)
  from copied_inside [OF assms(1) this]
  show "copied cc m obj bytes (a + d + of_nat i) = m (a + of_nat i)"
    by (simp add: d_def algebra_simps)
qed

lemma copied_header:
  assumes "copy_context_ok cc" and "8 \<le> bytes"
  shows "mmtk_jl_typetagof (copied cc m obj bytes) (alloc_copy cc m obj bytes 16 8 + 8)
    = mmtk_jl_typetagof m obj"
  using copied_load [OF assms(1), of "obj - 8" obj bytes m] assms(2)
  by (simp add: mmtk_jl_typetagof_def word_le_nat_alt)

lemma updated_elsewhere:
  assumes "copy_context_ok cc" and "S \<inter> span (t + 8) 8 = {}"
  shows "same_on S m (gc_update_inlined_array cc m f t)"
  unfolding same_on_def
proof
  fix x assume "x \<in> S"
  then have "8 \<le> unat (x - (t + 8))"
    using assms(2) by (auto simp: span_def not_less)
  then show "gc_update_inlined_array cc m f t x = m x"
    using assms(1) by (simp add: copy_context_ok_def word_le_nat_alt)
qed

text \<open>What the copy of an object of an ordinary type relies on.\<close>

definition copyable ::
    "runtime \<Rightarrow> copy_context \<Rightarrow> addr set \<Rightarrow> memory \<Rightarrow> addr \<Rightarrow> usize \<Rightarrow> bool" where
  "copyable rt cc meta m obj bytes \<longleftrightarrow>
     copy_context_ok cc \<and> side_metadata cc meta \<and> \<not> debug_assertions cc
     \<and> JULIA_HEADER_SIZE rt = 8 \<and> \<not> is_object_in_los obj
     \<and> get_so_object_size rt m obj = Inr bytes \<and> 8 \<le> bytes
     \<and> type_bytes m obj \<inter> (span (alloc_copy cc m obj bytes 16 8) (unat bytes) \<union> meta) = {}"

lemma plain_object_type:
  "plain_object rt m obj \<Longrightarrow> object_type rt m obj = mmtk_jl_typetagof m obj"
  by (simp add: plain_object_def object_type_def Let_def leD)

lemma object_copy_plain:
  assumes "plain_object rt m obj" and "copyable rt cc meta m obj bytes"
  shows "object_copy rt cc m obj = Inr (alloc_copy cc m obj bytes 16 8 + 8, copied cc m obj bytes)"
    and "same_on (type_bytes m obj) m (copied cc m obj bytes)"
proof -
  let ?m = "copied cc m obj bytes"
  show same: "same_on (type_bytes m obj) m ?m"
    using assms(2) by (intro copied_elsewhere [of _ meta]) (simp_all add: copyable_def)
  then have h: "mmtk_jl_typetagof ?m obj = mmtk_jl_typetagof m obj"
    by (intro header_same_on [of _ 8]) (simp_all add: type_bytes_def Let_def)
  note p = plain_object_same(1) [OF assms(1) same h]
  have "object_type rt m obj \<noteq> JULIA_BUFF_TAG rt" "object_ok rt m obj"
    using assms(1) plain_object_type [OF assms(1)]
    by (simp_all add: plain_object_def Let_def not_special_def object_ok_def leD)
  then have "ref_to_object_start rt m obj = Inr (obj - 8)"
    using assms(2) by (intro object_start_plain) (simp_all add: copyable_def)
  moreover have "dt_name ?m (object_type rt ?m obj) \<noteq> rt_genericmemory_typename rt"
    using p plain_object_type [OF p] by (simp add: plain_object_def Let_def)
  ultimately show "object_copy rt cc m obj = Inr (alloc_copy cc m obj bytes 16 8 + 8, ?m)"
    using assms(2)
    by (simp add: object_copy_def get_current_size_def copyable_def Let_def typeof_object_type
        flip: copied_def [unfolded Let_def])
qed

text \<open>The slots lie inside the object, between its header and its size.\<close>

definition slots_inside :: "addr \<Rightarrow> usize \<Rightarrow> vm_slot list \<Rightarrow> bool" where
  "slots_inside obj bytes ss \<longleftrightarrow> (\<forall>s \<in> set ss. unat (slot_place s - (obj - 8)) + 8 \<le> unat bytes)"

lemma slot_place_shift [simp]: "slot_place (slot_shift d s) = slot_place s + d"
  by (cases s) simp_all

lemma slots_apart_shift [simp]: "slots_apart (slot_shift d s) (slot_shift d s') = slots_apart s s'"
  by (simp add: slots_apart_def apart_def)

lemma slot_load_shift:
  assumes "simple_slot_ok ops" and "load64 m' (slot_place s + d) = load64 m (slot_place s)"
  shows "slot_load ops m' (slot_shift d s) = slot_load ops m s"
  using assms by (cases s) (simp_all add: simple_slot_ok_def offset_load_def)

lemma copied_slots_load:
  assumes "simple_slot_ok ops" and "copy_context_ok cc" and "slots_inside obj bytes ss" and "s \<in> set ss"
  shows "slot_load ops (copied cc m obj bytes)
      (slot_shift (alloc_copy cc m obj bytes 16 8 + 8 - obj) s) = slot_load ops m s"
  using assms by (intro slot_load_shift copied_load) (simp_all add: slots_inside_def)

lemma copied_scan:
  assumes "plain_object rt m obj" and "copyable rt cc meta m obj bytes"
    and "scan_julia_object rt m obj = Inr ss"
  shows "scan_julia_object rt (copied cc m obj bytes) (alloc_copy cc m obj bytes 16 8 + 8)
    = Inr (map (slot_shift (alloc_copy cc m obj bytes 16 8 + 8 - obj)) ss)"
proof -
  let ?m = "copied cc m obj bytes" and ?to = "alloc_copy cc m obj bytes 16 8 + 8"
  let ?vt = "mmtk_jl_typetagof m obj"
  have h: "mmtk_jl_typetagof ?m ?to = ?vt"
    using assms(2) by (intro copied_header) (simp_all add: copyable_def)
  note same = plain_object_same [OF assms(1) object_copy_plain(2) [OF assms(1,2)] h]
  have "scan_julia_object rt ?m ?to = Inr (field_slots m ?vt ?to)"
    using plain_object_scan [OF same(1)] h by (simp add: same(2))
  also have "field_slots m ?vt ?to = map (slot_shift (?to - obj)) (field_slots m ?vt obj)"
    by (rule field_slots_shift)
  also have "field_slots m ?vt obj = ss"
    using assms(3) plain_object_scan [OF assms(1)] by simp
  finally show ?thesis .
qed

section \<open>What a copy keeps\<close>

text \<open>
  The type name, which decides whether the data pointer is rewritten, is read after the copy: the
  copy is to overwrite neither the header of the object nor the first word of its type.
\<close>

lemma copied_type_name:
  assumes "side_metadata cc meta"
    and "(span (obj - 8) 8 \<union> span (object_type rt m obj) 8)
      \<inter> (span (alloc_copy cc m obj bytes 16 8) (unat bytes) \<union> meta) = {}"
  shows "object_type rt (copied cc m obj bytes) obj = object_type rt m obj"
    and "dt_name (copied cc m obj bytes) (object_type rt m obj) = dt_name m (object_type rt m obj)"
proof -
  have s: "same_on (span (obj - 8) 8) m (copied cc m obj bytes)"
    "same_on (span (object_type rt m obj) 8) m (copied cc m obj bytes)"
    using assms by (auto intro!: copied_elsewhere)
  show "object_type rt (copied cc m obj bytes) obj = object_type rt m obj"
    using header_same_on [OF s(1)] by (simp add: object_type_def)
  show "dt_name (copied cc m obj bytes) (object_type rt m obj) = dt_name m (object_type rt m obj)"
    using load64_same_on [OF s(2), of 0] by (simp add: dt_name_def)
qed

lemma copied_byte:
  assumes "copy_context_ok cc" and "i < unat bytes"
  shows "copied cc m obj bytes (alloc_copy cc m obj bytes 16 8 + of_nat i) = m (obj - 8 + of_nat i)"
proof -
  have "unat (of_nat i :: addr) = i"
    using assms(2) word_max_64 [of bytes] by (intro unat_of_nat_64) simp
  then show ?thesis
    using copied_inside [OF assms(1), of "obj - 8 + of_nat i" obj bytes m] assms(2)
    by (simp add: add.commute)
qed

lemma updated_byte:
  assumes "copy_context_ok cc" and "i < 16 \<or> 24 \<le> i" and "i < 2 ^ 64"
  shows "gc_update_inlined_array cc m f (dst + 8) (dst + of_nat i) = m (dst + of_nat i)"
proof -
  have "8 \<le> unat (of_nat i - 16 :: addr)"
    using assms(2,3) by (auto simp: unat_sub_if' unat_of_nat_64)
  then have "8 \<le> dst + of_nat i - (dst + 8 + 8)"
    by (simp add: word_le_nat_alt)
  then show ?thesis
    using assms(1) unfolding copy_context_ok_def by blast
qed

lemma object_copy_eq:
  assumes "side_metadata cc meta" and "\<not> debug_assertions cc"
    and "\<not> is_object_in_los obj" and "object_ok rt m obj" and "JULIA_HEADER_SIZE rt = 8"
    and "object_type rt m obj \<noteq> JULIA_BUFF_TAG rt"
    and "get_so_object_size rt m obj = Inr bytes"
    and "(span (obj - 8) 8 \<union> span (object_type rt m obj) 8)
      \<inter> (span (alloc_copy cc m obj bytes 16 8) (unat bytes) \<union> meta) = {}"
  shows "object_copy rt cc m obj = Inr (alloc_copy cc m obj bytes 16 8 + 8,
    if dt_name m (object_type rt m obj) = rt_genericmemory_typename rt
    then gc_update_inlined_array cc (copied cc m obj bytes) obj (alloc_copy cc m obj bytes 16 8 + 8)
    else copied cc m obj bytes)"
proof -
  have "ref_to_object_start rt m obj = Inr (obj - 8)"
    using assms by (intro object_start_plain) simp_all
  then show ?thesis
    using assms copied_type_name [OF assms(1,8)]
    by (simp add: object_copy_def get_current_size_def Let_def typeof_object_type
        flip: copied_def [unfolded Let_def])
qed

text \<open>
  C1: copying a small object succeeds, returns a reference aligned to 16 bytes, and the new object
  has the same header and the same bytes as the old one, up to the size the object model computes.
  Only the data pointer of a memory object may differ, which the Julia runtime sets: the copy of an
  object of any other type is the same byte for byte. Outside the new object, the data pointer of
  a memory object and the metadata of mmtk-core, the memory is not changed.
\<close>

theorem object_copy_preserves:
  assumes "copy_context_ok cc" and "side_metadata cc meta" and "\<not> debug_assertions cc"
    and "\<not> is_object_in_los obj" and "object_ok rt m obj" and "JULIA_HEADER_SIZE rt = 8"
    and "object_type rt m obj \<noteq> JULIA_BUFF_TAG rt"
    and "get_so_object_size rt m obj = Inr bytes" and "8 \<le> bytes"
    and "(span (obj - 8) 8 \<union> span (object_type rt m obj) 8)
      \<inter> (span (alloc_copy cc m obj bytes 16 8) (unat bytes) \<union> meta) = {}"
  defines "memory_typed \<equiv> dt_name m (object_type rt m obj) = rt_genericmemory_typename rt"
  shows "\<exists>to_obj m'. object_copy rt cc m obj = Inr (to_obj, m') \<and> to_obj AND 15 = 0
    \<and> mmtk_jl_typetagof m' to_obj = mmtk_jl_typetagof m obj
    \<and> (\<forall>i < unat bytes. \<not> memory_typed \<or> i < 16 \<or> 24 \<le> i \<longrightarrow>
          m' (to_obj - 8 + of_nat i) = m (obj - 8 + of_nat i))
    \<and> same_on (- (span (to_obj - 8) (unat bytes) \<union> (if memory_typed then span (to_obj + 8) 8 else {}) \<union> meta)) m m'"
proof -
  let ?dst = "alloc_copy cc m obj bytes 16 8" and ?m = "copied cc m obj bytes"
  let ?m' = "if memory_typed then gc_update_inlined_array cc ?m obj (?dst + 8) else ?m"
  let ?rest = "- (span ?dst (unat bytes) \<union> (if memory_typed then span (?dst + 8 + 8) 8 else {}) \<union> meta)"
  have "object_copy rt cc m obj = Inr (?dst + 8, ?m')"
    using object_copy_eq [OF assms(2-8,10)] by (simp add: memory_typed_def)
  moreover have "(?dst + 8) AND 15 = 0"
    using assms(1) by (simp add: copy_context_ok_def)
  moreover have content: "?m' (?dst + of_nat i) = m (obj - 8 + of_nat i)"
    if "i < unat bytes" "\<not> memory_typed \<or> i < 16 \<or> 24 \<le> i" for i
    using that copied_byte [OF assms(1) that(1)] updated_byte [OF assms(1), of i] word_max_64 [of bytes]
    by auto
  moreover have "load64 ?m' ?dst = load64 m (obj - 8)"
    using content assms(9) by (intro load64_cong) (simp add: word_le_nat_alt)
  then have "mmtk_jl_typetagof ?m' (?dst + 8) = mmtk_jl_typetagof m obj"
    by (simp add: mmtk_jl_typetagof_def)
  moreover have "same_on ?rest m ?m'"
  proof (rule same_on_trans)
    show "same_on ?rest m ?m"
      using assms(2) by (intro copied_elsewhere) auto
    show "same_on ?rest ?m ?m'"
    proof (cases memory_typed)
      case True
      then have "same_on ?rest ?m (gc_update_inlined_array cc ?m obj (?dst + 8))"
        using assms(1) by (intro updated_elsewhere) auto
      with True show ?thesis
        by simp
    qed (simp add: same_on_def)
  qed
  ultimately show ?thesis
    by (intro exI [of _ "?dst + 8"] exI [of _ ?m']) (simp split del: if_split)
qed

section \<open>Places inside an object\<close>

lemma span_within:
  assumes "off + k \<le> n" and "n < 2 ^ 64"
  shows "span (a + of_nat off) k \<subseteq> span a n"
proof
  fix x assume "x \<in> span (a + of_nat off) k"
  then have k: "unat (x - a - of_nat off) < k"
    by (simp add: span_def algebra_simps)
  have "unat (of_nat off :: addr) = off"
    using assms by (intro unat_of_nat_64) simp
  then have "unat (x - a - of_nat off + of_nat off) = unat (x - a - of_nat off) + off"
    using k assms by (subst unat_add_no_wrap) simp_all
  then show "x \<in> span a n"
    using k assms(1) by (simp add: span_def)
qed

lemma span_start: "0 < k \<Longrightarrow> a \<in> span a k"
  by (simp add: span_def)

lemma apart_spans:
  assumes "S \<inter> T = {}" and "span a 8 \<subseteq> S" and "span b 8 \<subseteq> T"
  shows "apart 8 a 8 b"
proof -
  have "b \<notin> span a 8" "a \<notin> span b 8"
    using assms span_start [of 8 a] span_start [of 8 b] by auto
  then show ?thesis
    by (simp add: apart_def span_def not_less)
qed

lemma apart_offsets:
  assumes "i + 8 \<le> j \<or> j + 8 \<le> i" and "i + 8 < 2 ^ 64" and "j + 8 < 2 ^ 64"
  shows "apart 8 (a + of_nat i) 8 (a + of_nat j)"
proof -
  have "unat (of_nat i :: addr) = i" "unat (of_nat j :: addr) = j"
    using assms by (simp_all add: unat_of_nat_64)
  then have "8 \<le> unat (of_nat j - of_nat i :: addr) \<and> 8 \<le> unat (of_nat i - of_nat j :: addr)"
    using assms by (auto simp: unat_sub_if')
  then show ?thesis
    by (simp add: apart_def)
qed

section \<open>An object to evacuate\<close>

lemma span_disjoint: "apart k a n b \<Longrightarrow> span a k \<inter> span b n = {}"
proof (rule ccontr)
  assume "apart k a n b" and "span a k \<inter> span b n \<noteq> {}"
  then obtain x where "x \<in> span a k" "x \<in> span b n"
    by auto
  then show False
    using apart_neq [OF \<open>apart k a n b\<close>, of "unat (x - a)" "unat (x - b)"] by (simp add: span_def)
qed

lemma store64_same_on: "S \<inter> span a 8 = {} \<Longrightarrow> same_on S m (store64 m a v)"
  by (auto simp: same_on_def span_def store64_def store_le_byte)

text \<open>The object of \<open>sample_object\<close>, its second field a reference.\<close>

definition sample_pair :: memory where
  "sample_pair = store64 sample_object 0x9008 0x5000"

lemma sample_table: "mmtk_jl_dt_layout_ptrs sample_object 0xc000 = 0xc018"
  by (simp add: mmtk_jl_dt_layout_ptrs_def mmtk_jl_dt_layout_fields_def mmtk_jl_fielddesc_size_def
      sample_object_layout)

lemma sample_type_bytes:
  "type_bytes sample_object 0x9000 = span 0x8ff8 8 \<union> span 0x9ff8 64 \<union> span 0xc000 20 \<union> span 0xc018 2"
  by (simp add: type_bytes_def Let_def sample_object_loads sample_table sample_object_layout
      entry_bytes_def)

lemma sample_object_plain: "plain_object sample_runtime sample_object 0x9000"
  by (simp add: plain_object_def Let_def sample_object_loads sample_table sample_object_layout
      is_datatype_def not_special_def sample_runtime_def)

lemma sample_pair_same: "same_on (type_bytes sample_object 0x9000) sample_object sample_pair"
  unfolding sample_pair_def sample_type_bytes
  by (intro store64_same_on) (simp add: Int_Un_distrib2 span_disjoint apart_def)

lemma sample_pair_header: "mmtk_jl_typetagof sample_pair 0x9000 = 0xa000"
  using header_same_on [of "0x9000" 8 sample_object sample_pair] sample_pair_same
  by (simp add: sample_type_bytes sample_object_loads)

lemma sample_pair_plain: "plain_object sample_runtime sample_pair 0x9000"
  using plain_object_same(1) [OF sample_object_plain sample_pair_same]
  by (simp add: sample_pair_header sample_object_loads)

lemma sample_pair_descriptor:
  "dt_layout sample_pair 0xa000 = 0xc000" "dt_name sample_pair 0xa000 = 0xb000"
  "ly_flags sample_pair 0xc000 = [0, 0]" "ly_npointers sample_pair 0xc000 = 2"
  "mmtk_jl_dt_layout_ptrs sample_pair 0xc000 = 0xc018" "ly_size sample_pair 0xc000 = 16"
proof -
  have d: "same_on (span (0xa000 - 8) 64) sample_object sample_pair"
    and l: "same_on (span 0xc000 20) sample_object sample_pair"
    using sample_pair_same by (simp_all add: sample_type_bytes)
  show "dt_layout sample_pair 0xa000 = 0xc000" "dt_name sample_pair 0xa000 = 0xb000"
    using datatype_same_on [OF d] by (simp_all add: sample_object_loads)
  show "ly_flags sample_pair 0xc000 = [0, 0]" "ly_npointers sample_pair 0xc000 = 2"
    "mmtk_jl_dt_layout_ptrs sample_pair 0xc000 = 0xc018"
    using layout_same_on [OF l] by (simp_all add: sample_object_layout sample_table)
  have "ly_size sample_pair 0xc000 = ly_size sample_object 0xc000"
    using load_le_same_on [OF l, of 0 4, where ?'a = 32] by (simp add: ly_size_def load32_def)
  also have "\<dots> = 16"
    by (simp add: sample_object_def ly_size_def poke_byte load32_bytes)
  finally show "ly_size sample_pair 0xc000 = 16" .
qed

lemma sample_pair_type_bytes:
  "type_bytes sample_pair 0x9000 = span 0x8ff8 8 \<union> span 0x9ff8 64 \<union> span 0xc000 20 \<union> span 0xc018 2"
  by (simp add: type_bytes_def Let_def sample_pair_header sample_pair_descriptor entry_bytes_def)

lemma sample_pair_size: "get_so_object_size sample_runtime sample_pair 0x9000 = Inr 32"
proof -
  have "object_ok sample_runtime sample_pair 0x9000"
    using sample_pair_plain
    by (simp add: plain_object_def Let_def not_special_def object_ok_def leD sample_pair_header)
  then have "get_so_object_size sample_runtime sample_pair 0x9000
      = Inr (layout_object_size sample_runtime sample_pair 0xa000)"
    using object_size_large sample_pair_plain
    by (simp add: plain_object_type sample_pair_header sample_pair_descriptor sample_runtime_def)
  then show ?thesis
    by (simp add: layout_object_size_def sample_pair_descriptor llt_align_def sample_runtime_def)
qed

lemma sample_pair_copyable: "copyable sample_runtime sample_copy_context {} sample_pair 0x9000 32"
proof -
  have "copy_context_ok sample_copy_context" "side_metadata sample_copy_context {}"
    "\<not> debug_assertions sample_copy_context" "JULIA_HEADER_SIZE sample_runtime = 8"
    by (simp_all add: copy_context_ok_def sample_copy_context_def side_metadata_def same_on_def
        sample_runtime_def)
  moreover have "type_bytes sample_pair 0x9000
      \<inter> (span (alloc_copy sample_copy_context sample_pair 0x9000 32 16 8) (unat (32 :: usize)) \<union> {}) = {}"
    unfolding sample_pair_type_bytes
    by (simp add: sample_copy_context_def Int_Un_distrib2 span_disjoint apart_def)
  ultimately show ?thesis
    by (simp add: copyable_def sample_pair_size is_object_in_los_def)
qed

lemma sample_pair_scan:
  "scan_julia_object sample_runtime sample_pair 0x9000 = Inr [Simple 0x9000, Simple 0x9008]"
proof -
  have "sample_pair 0xc018 = 0" "sample_pair 0xc019 = 1"
    using sample_pair_same byte_same_on [of "0xc018" 2 sample_object sample_pair 0]
      byte_same_on [of "0xc018" 2 sample_object sample_pair 1]
    by (simp_all add: sample_type_bytes sample_object_layout)
  then show ?thesis
    by (simp add: plain_object_scan [OF sample_pair_plain] sample_pair_header field_slots_def
        sample_pair_descriptor pointer_slots_def entry_bytes_def upt_rec)
qed

lemma sample_pair_slots: "slots_inside 0x9000 32 [Simple 0x9000, Simple 0x9008]"
  by (simp add: slots_inside_def)

lemma sample_pair_loads:
  "simple_load word_slot sample_pair 0x9000 = None"
  "simple_load word_slot sample_pair 0x9008 = Some 0x5000"
  by (simp_all add: word_slot_def objref_def sample_pair_def sample_object_def apart_def mem_simps)

lemma sample_pair_second: "load64 sample_pair 0x9008 = 0x5000"
  by (simp add: sample_pair_def mem_simps)

theorem object_copy_preserves_witness:
  "\<exists>to_obj m'. object_copy sample_runtime sample_copy_context sample_pair 0x9000 = Inr (to_obj, m')
    \<and> mmtk_jl_typetagof m' to_obj = 0xa000 \<and> load64 m' (to_obj + 8) = 0x5000 \<and> m' 0x9008 = sample_pair 0x9008"
proof -
  have t: "object_type sample_runtime sample_pair 0x9000 = 0xa000"
    using plain_object_type [OF sample_pair_plain] by (simp add: sample_pair_header)
  have ok: "object_ok sample_runtime sample_pair 0x9000"
    using sample_pair_plain
    by (simp add: plain_object_def Let_def not_special_def object_ok_def leD sample_pair_header)
  have apart: "(span (0x9000 - 8) 8 \<union> span (object_type sample_runtime sample_pair 0x9000) 8)
      \<inter> (span (alloc_copy sample_copy_context sample_pair 0x9000 32 16 8) (unat (32 :: usize)) \<union> {}) = {}"
    unfolding t by (simp add: sample_copy_context_def Int_Un_distrib2 span_disjoint apart_def)
  have cc: "copy_context_ok sample_copy_context" "side_metadata sample_copy_context {}"
    "\<not> debug_assertions sample_copy_context" "JULIA_HEADER_SIZE sample_runtime = 8"
    using sample_pair_copyable by (simp_all add: copyable_def)
  have nm: "(dt_name sample_pair (object_type sample_runtime sample_pair 0x9000)
      = rt_genericmemory_typename sample_runtime) = False"
    by (simp add: t sample_pair_descriptor)
  have na: "\<not> is_object_in_los 0x9000"
    "object_type sample_runtime sample_pair 0x9000 \<noteq> JULIA_BUFF_TAG sample_runtime"
    by (simp_all add: is_object_in_los_def t)
  from object_copy_preserves [OF cc(1-3) na(1) ok cc(4) na(2) sample_pair_size _ apart]
  obtain to_obj m' where c: "object_copy sample_runtime sample_copy_context sample_pair 0x9000 = Inr (to_obj, m')"
    "mmtk_jl_typetagof m' to_obj = mmtk_jl_typetagof sample_pair 0x9000"
    and byte: "\<And>i. i < 32 \<Longrightarrow> m' (to_obj - 8 + of_nat i) = sample_pair (0x9000 - 8 + of_nat i)"
    and frame: "same_on (- span (to_obj - 8) 32) sample_pair m'"
    unfolding nm by auto
  have "load64 m' (to_obj + 8) = load64 sample_pair 0x9008"
  proof (rule load64_cong)
    fix i :: nat assume "i < 8"
    then show "m' (to_obj + 8 + of_nat i) = sample_pair (0x9008 + of_nat i)"
      using byte [of "16 + i"] by (simp add: algebra_simps)
  qed
  moreover have "to_obj = 0x30000000010"
    using c(1) object_copy_plain(1) [OF sample_pair_plain sample_pair_copyable]
    by (simp add: sample_copy_context_def)
  then have "m' 0x9008 = sample_pair 0x9008"
    using frame by (simp add: same_on_def span_def)
  ultimately show ?thesis
    using c sample_pair_second by (simp add: sample_pair_header)
qed

section \<open>Evacuation\<close>

text \<open>
  Scanning the copy of an object with pointer fields visits the slots of the object itself, each
  moved by the distance of the copy, and every one of them holds the reference the old slot held.
  Nothing is assumed of where the copy goes but that it does not overwrite the type.
\<close>

theorem copied_object_scans_alike:
  assumes "plain_object rt m obj" and "copyable rt cc meta m obj bytes"
    and "scan_julia_object rt m obj = Inr ss" and "slots_inside obj bytes ss" and "simple_slot_ok ops"
  shows "\<exists>to_obj m'. object_copy rt cc m obj = Inr (to_obj, m')
    \<and> scan_julia_object rt m' to_obj = Inr (map (slot_shift (to_obj - obj)) ss)
    \<and> map (slot_load ops m') (map (slot_shift (to_obj - obj)) ss) = map (slot_load ops m) ss"
proof -
  have "copy_context_ok cc"
    using assms(2) by (simp add: copyable_def)
  then show ?thesis
    using object_copy_plain(1) [OF assms(1,2)] copied_scan [OF assms(1-3)]
      copied_slots_load [OF assms(5) _ assms(4)] by simp
qed

theorem copied_object_scans_alike_witness:
  "\<exists>to_obj m'. object_copy sample_runtime sample_copy_context sample_pair 0x9000 = Inr (to_obj, m')
    \<and> scan_julia_object sample_runtime m' to_obj = Inr [Simple to_obj, Simple (to_obj + 8)]
    \<and> slot_load word_slot m' (Simple (to_obj + 8)) = Some 0x5000"
  using copied_object_scans_alike [OF sample_pair_plain sample_pair_copyable sample_pair_scan
      sample_pair_slots word_slot_ok]
  by (auto simp: sample_pair_loads algebra_simps)

text \<open>
  C5: evacuating an object with pointer fields is correct as a whole. It is copied, the copy is
  scanned, and each slot the scan visits is loaded, forwarded and stored back; then every field of
  the copy refers to the new address of the object the field of the old object referred to, and a
  field that was null still is.
\<close>

theorem evacuated_fields_forwarded:
  assumes "plain_object rt m obj" and "copyable rt cc meta m obj bytes"
    and "scan_julia_object rt m obj = Inr ss" and "slots_inside obj bytes ss" and "simple_slot_ok ops"
    and "sorted_wrt slots_apart ss" and "\<And>a. f a \<noteq> 0"
  shows "\<exists>to_obj m' ss'. object_copy rt cc m obj = Inr (to_obj, m')
    \<and> scan_julia_object rt m' to_obj = Inr ss'
    \<and> map (slot_load ops (forward_slots ops f m' ss')) ss' = map (map_option f \<circ> slot_load ops m) ss"
proof -
  let ?m = "copied cc m obj bytes" and ?d = "alloc_copy cc m obj bytes 16 8 + 8 - obj"
  let ?ss = "map (slot_shift ?d) ss"
  have ok: "copy_context_ok cc"
    using assms(2) by (simp add: copyable_def)
  have "map (slot_load ops (forward_slots ops f ?m ?ss)) ?ss = map (map_option f \<circ> slot_load ops ?m) ?ss"
    using assms(5-7) by (intro forward_slots_map) (simp_all add: sorted_wrt_map)
  also have "\<dots> = map (map_option f \<circ> slot_load ops m) ss"
    by (simp add: copied_slots_load [OF assms(5) ok assms(4)])
  finally show ?thesis
    using object_copy_plain(1) [OF assms(1,2)] copied_scan [OF assms(1-3)] by simp
qed

theorem evacuated_fields_forwarded_witness:
  "\<exists>to_obj m' ss'. object_copy sample_runtime sample_copy_context sample_pair 0x9000 = Inr (to_obj, m')
    \<and> scan_julia_object sample_runtime m' to_obj = Inr ss'
    \<and> map (slot_load word_slot (forward_slots word_slot (\<lambda>_. 0x30000010000) m' ss')) ss' = [None, Some 0x30000010000]"
proof -
  have "sorted_wrt slots_apart [Simple 0x9000, Simple 0x9008]"
    by (simp add: slots_apart_def apart_def)
  from evacuated_fields_forwarded [OF sample_pair_plain sample_pair_copyable sample_pair_scan
      sample_pair_slots word_slot_ok this, of "\<lambda>_. 0x30000010000"]
  show ?thesis
    by (simp add: sample_pair_loads)
qed

end
