(* ===== verification/Moved_Memory.thy ===== *)
theory Moved_Memory
  imports Evacuation
begin

text \<open>
  Memory objects, which hold the elements of Julia's arrays, when they move. A memory object whose
  elements are stored in it holds a pointer to itself; \<^verbatim>\<open>object_copy\<close> has the Julia runtime rewrite
  it, and an array that points into the object is updated through an offset slot. Together they
  keep what the program sees through the array.
\<close>

section \<open>Memory objects with inline data\<close>

text \<open>
  What \<^verbatim>\<open>jl_gc_genericmemory_how\<close> answers for inline data, and what \<^verbatim>\<open>jl_gc_update_inlined_array\<close> stores
  in the pointer of the new object for an old one with inline data.
\<close>

definition inline_how :: "runtime \<Rightarrow> bool" where
  "inline_how rt \<longleftrightarrow> (\<forall>m g. (rt_genericmemory_how rt m g = 0) = (gm_ptr m g = g + 16))"

definition relocates_inline :: "runtime \<Rightarrow> copy_context \<Rightarrow> bool" where
  "relocates_inline rt cc \<longleftrightarrow> (\<forall>m f t. rt_genericmemory_how rt m f = 0 \<longrightarrow>
     gm_ptr (gc_update_inlined_array cc m f t) t = t + (gm_ptr m f - f))"

definition memory_object :: "runtime \<Rightarrow> memory \<Rightarrow> addr \<Rightarrow> bool" where
  "memory_object rt m g \<longleftrightarrow>
     (let vt = mmtk_jl_typetagof m g
      in not_special rt vt \<and> max_tag_word \<le> vt \<and> is_datatype m vt
         \<and> dt_name m vt = rt_genericmemory_typename rt)
     \<and> rt_genericmemory_typename rt \<noteq> rt_array_typename rt
     \<and> gm_ptr m g = g + 16"

text \<open>Nothing of the old object, its type or its layout is overwritten by the copy.\<close>

definition movable_memory ::
    "runtime \<Rightarrow> copy_context \<Rightarrow> addr set \<Rightarrow> memory \<Rightarrow> addr \<Rightarrow> usize \<Rightarrow> bool" where
  "movable_memory rt cc meta m g bytes \<longleftrightarrow>
     memory_object rt m g \<and> copyable rt cc meta m g bytes \<and> inline_how rt \<and> relocates_inline rt cc
     \<and> 24 \<le> bytes \<and> span g 16 \<inter> (span (alloc_copy cc m g bytes 16 8) (unat bytes) \<union> meta) = {}"

definition moved_memory :: "copy_context \<Rightarrow> memory \<Rightarrow> addr \<Rightarrow> usize \<Rightarrow> memory" where
  "moved_memory cc m g bytes =
     gc_update_inlined_array cc (copied cc m g bytes) g (alloc_copy cc m g bytes 16 8 + 8)"

lemma memory_object_type: "memory_object rt m g \<Longrightarrow> object_type rt m g = mmtk_jl_typetagof m g"
  by (simp add: memory_object_def object_type_def Let_def leD)

lemma gm_ptr_same_on: "same_on (span g 16) m m' \<Longrightarrow> gm_ptr m' g = gm_ptr m g"
  using load64_same_on [of g 16 m m' 8] by (simp add: gm_ptr_def)

lemma pointer_inside_target:
  "24 \<le> (bytes :: usize) \<Longrightarrow> span (dst + 8 + 8) 8 \<subseteq> span dst (unat bytes)"
proof
  fix x assume bytes: "24 \<le> bytes" and "x \<in> span (dst + 8 + 8) 8"
  then have k: "unat (x - (dst + 16)) < 8"
    by (simp add: span_def add.commute)
  have "unat (x - (dst + 16) + 16) = unat (x - (dst + 16)) + 16"
    using k by (subst unat_add_no_wrap) simp_all
  moreover have "x - (dst + 16) + 16 = x - dst"
    by simp
  ultimately show "x \<in> span dst (unat bytes)"
    using k bytes by (simp add: span_def word_le_nat_alt)
qed

lemma movable_memory_copy:
  assumes "movable_memory rt cc meta m g bytes"
  shows "object_copy rt cc m g = Inr (alloc_copy cc m g bytes 16 8 + 8, moved_memory cc m g bytes)"
    and "same_on (type_bytes m g) m (moved_memory cc m g bytes)"
    and "gm_ptr (moved_memory cc m g bytes) (alloc_copy cc m g bytes 16 8 + 8)
      = alloc_copy cc m g bytes 16 8 + 8 + 16"
proof -
  let ?m = "copied cc m g bytes" and ?dst = "alloc_copy cc m g bytes 16 8"
  have mem: "memory_object rt m g" and cp: "copyable rt cc meta m g bytes"
    and how: "inline_how rt" and upd: "relocates_inline rt cc" and "24 \<le> bytes"
    using assms by (simp_all add: movable_memory_def)
  have same: "same_on (type_bytes m g) m ?m" and old: "same_on (span g 16) m ?m"
    using assms by (auto intro!: copied_elsewhere [of _ meta] simp: movable_memory_def copyable_def)
  have ptr: "gm_ptr ?m g = g + 16"
    using mem gm_ptr_same_on [OF old] by (simp add: memory_object_def)
  have inline: "rt_genericmemory_how rt ?m g = 0"
    using ptr how by (simp add: inline_how_def)
  show "gm_ptr (moved_memory cc m g bytes) (?dst + 8) = ?dst + 8 + 16"
    using ptr inline upd by (simp add: moved_memory_def relocates_inline_def)
  have "type_bytes m g \<inter> span (?dst + 8 + 8) 8 = {}"
    using cp pointer_inside_target [OF \<open>24 \<le> bytes\<close>, of ?dst] by (auto simp: copyable_def)
  then have "same_on (type_bytes m g) ?m (moved_memory cc m g bytes)"
    using cp unfolding moved_memory_def by (intro updated_elsewhere) (simp_all add: copyable_def)
  with same show "same_on (type_bytes m g) m (moved_memory cc m g bytes)"
    by (simp add: same_on_def)
  have h: "mmtk_jl_typetagof ?m g = mmtk_jl_typetagof m g"
    using same by (intro header_same_on [of _ 8]) (simp_all add: type_bytes_def Let_def)
  have vt: "same_on (span (mmtk_jl_typetagof m g - 8) 64) m ?m"
    using same by (simp add: type_bytes_def Let_def)
  have "object_type rt ?m g = mmtk_jl_typetagof m g" "object_type rt m g = mmtk_jl_typetagof m g"
    using mem h by (simp_all add: memory_object_def object_type_def Let_def leD)
  moreover have "dt_name ?m (mmtk_jl_typetagof m g) = rt_genericmemory_typename rt"
    using mem datatype_same_on(2) [OF vt] by (simp add: memory_object_def Let_def)
  moreover have "object_ok rt m g"
    using mem by (simp add: memory_object_def Let_def not_special_def object_ok_def leD)
  then have "ref_to_object_start rt m g = Inr (g - 8)"
    using cp mem memory_object_type [OF mem]
    by (intro object_start_plain) (simp_all add: copyable_def memory_object_def Let_def not_special_def)
  ultimately show "object_copy rt cc m g = Inr (?dst + 8, moved_memory cc m g bytes)"
    using cp
    by (simp add: object_copy_def get_current_size_def copyable_def Let_def typeof_object_type
        moved_memory_def flip: copied_def [unfolded Let_def])
qed

text \<open>The bytes of the new object, its pointer apart.\<close>

lemma moved_byte:
  assumes "movable_memory rt cc meta m g bytes" and "k < unat bytes" and "k < 16 \<or> 24 \<le> k"
  shows "moved_memory cc m g bytes (alloc_copy cc m g bytes 16 8 + of_nat k) = m (g - 8 + of_nat k)"
  using copied_byte [of cc k bytes m g] updated_byte [of cc k _ g] assms word_max_64 [of bytes]
  by (simp add: moved_memory_def movable_memory_def copyable_def)

lemma moved_header:
  assumes "movable_memory rt cc meta m g bytes"
  shows "mmtk_jl_typetagof (moved_memory cc m g bytes) (alloc_copy cc m g bytes 16 8 + 8)
      = mmtk_jl_typetagof m g"
    and "gm_length (moved_memory cc m g bytes) (alloc_copy cc m g bytes 16 8 + 8) = gm_length m g"
proof -
  have b: "24 \<le> unat bytes"
    using assms by (simp add: movable_memory_def word_le_nat_alt)
  let ?m = "moved_memory cc m g bytes" and ?dst = "alloc_copy cc m g bytes 16 8"
  have "load64 ?m (?dst + of_nat k) = load64 m (g - 8 + of_nat k)" if "k \<in> {0, 8}" for k
  proof (rule load64_cong)
    fix i :: nat assume "i < 8"
    then show "?m (?dst + of_nat k + of_nat i) = m (g - 8 + of_nat k + of_nat i)"
      using moved_byte [OF assms, of "k + i"] that b by (auto simp: add.assoc)
  qed
  from this [of 0] this [of 8] show "mmtk_jl_typetagof ?m (?dst + 8) = mmtk_jl_typetagof m g"
    and "gm_length ?m (?dst + 8) = gm_length m g"
    by (simp_all add: mmtk_jl_typetagof_def gm_length_def)
qed

section \<open>Boxed elements\<close>

definition boxed_elements :: "memory \<Rightarrow> addr \<Rightarrow> bool" where
  "boxed_elements m g \<longleftrightarrow>
     (\<exists>b. b \<noteq> 0 \<and> arrayelem_isboxed (ly_flags m (dt_layout m (mmtk_jl_typetagof m g))) = Inr b)"

lemma boxed_memory_scan:
  assumes "memory_object rt m g" and "inline_how rt" and "boxed_elements m g"
    and "unat g + 24 + 8 * unat (gm_length m g) < 2 ^ 64"
  shows "scan_julia_object rt m g = Inr (slots_at (g + 16) (unat (gm_length m g)) 8)"
proof -
  have "unat (g + 16) = unat g + 16"
    using assms(4) by (subst unat_add_no_wrap) simp_all
  then have "range_slots (g + 16) (g + 16 + gm_length m g * 8) 1
      = Inr (slots_at (g + 16) (unat (gm_length m g)) 8)"
    using assms(4) by (intro range_slots_words) simp
  moreover have "rt_genericmemory_how rt m g = 0"
    using assms(1,2) by (simp add: memory_object_def inline_how_def)
  ultimately show ?thesis
    using assms(1,3)
    by (auto simp: memory_object_def Let_def boxed_elements_def scan_simps scan_with_type_def
        scan_genericmemory_def slots_at_def)
qed

lemma slots_at_shift: "slots_at (b + d) n k = map (slot_shift d) (slots_at b n k)"
  by (simp add: slots_at_def algebra_simps)

text \<open>The old and the new object lie in the address space, and all elements in the object.\<close>

definition elements_inside :: "copy_context \<Rightarrow> memory \<Rightarrow> addr \<Rightarrow> usize \<Rightarrow> bool" where
  "elements_inside cc m g bytes \<longleftrightarrow>
     24 + 8 * unat (gm_length m g) \<le> unat bytes \<and> unat g + unat bytes < 2 ^ 64
     \<and> unat (alloc_copy cc m g bytes 16 8 + 8) + unat bytes < 2 ^ 64"

section \<open>A memory object to evacuate\<close>

text \<open>
  Two boxed elements at \<open>0x20000001010\<close>, an array at \<open>0x9000\<close> that starts at the second, and the
  type and layout of the memory object.
\<close>

definition box_runtime :: runtime where
  "box_runtime = sample_runtime\<lparr>rt_genericmemory_how := \<lambda>m g. if gm_ptr m g = g + 16 then 0 else 1\<rparr>"

definition box_context :: copy_context where
  "box_context = sample_copy_context\<lparr>gc_update_inlined_array :=
     \<lambda>m f t. if gm_ptr m f = f + 16 then store64 m (t + 8) (t + 16) else m\<rparr>"

definition sample_boxes :: memory where
  "sample_boxes = poke [(0x20000000ff8, 0xa000), (0x20000001000, 2), (0x20000001008, 0x20000001010),
     (0x20000001010, 0x5000), (0x20000001018, 0x6000), (0x9000, 0x20000001018),
     (0x9008, 0x20000001000), (0x9ff8, 32), (0xa000, 8192), (0xa028, 0xc000), (0xc000, 8),
     (0xc010, 0x80000)]"

lemma box_parameters [simp]:
  "JULIA_HEADER_SIZE box_runtime = 8" "rt_genericmemory_typename box_runtime = 8192"
  "rt_array_typename box_runtime = 7168" "JULIA_BUFF_TAG box_runtime = 0x4eadc000"
  "rt_symbol_type box_runtime = 4096" "rt_is_mapped box_runtime = (\<lambda>a. 0x20000000000 \<le> a)"
  "alloc_copy box_context m x n al off = 0x30000000008" "\<not> debug_assertions box_context"
  "post_copy box_context m x n = m"
  by (simp_all add: box_runtime_def sample_runtime_def box_context_def sample_copy_context_def)

lemma box_context_ok: "copy_context_ok box_context" "side_metadata box_context {}"
  "inline_how box_runtime" "relocates_inline box_runtime box_context"
proof -
  have "gc_update_inlined_array box_context m f t x = m x" if "8 \<le> x - (t + 8)" for m f t x
    using that by (simp add: box_context_def store64_def store_le_byte word_le_nat_alt)
  then show "copy_context_ok box_context"
    by (simp add: copy_context_ok_def)
  show "side_metadata box_context {}"
    by (simp add: side_metadata_def same_on_def)
  show "inline_how box_runtime"
    by (simp add: inline_how_def box_runtime_def)
  have "gm_ptr (store64 m (t + 8) v) t = v" for m t v
    by (simp add: gm_ptr_def mem_simps)
  then show "relocates_inline box_runtime box_context"
    by (simp add: relocates_inline_def box_runtime_def box_context_def)
qed

lemma box_loads:
  "mmtk_jl_typetagof sample_boxes 0x20000001000 = 0xa000"
  "mmtk_jl_typetagof sample_boxes 0xa000 = 32"
  "dt_name sample_boxes 0xa000 = 8192" "dt_layout sample_boxes 0xa000 = 0xc000"
  "gm_length sample_boxes 0x20000001000 = 2" "gm_ptr sample_boxes 0x20000001000 = 0x20000001010"
  "load64 sample_boxes 0x9000 = 0x20000001018" "load64 sample_boxes 0x9008 = 0x20000001000"
  "load64 sample_boxes 0x20000001010 = 0x5000" "load64 sample_boxes 0x20000001018 = 0x6000"
  by (simp_all add: sample_boxes_def mmtk_jl_typetagof_def dt_name_def dt_layout_def gm_length_def
      gm_ptr_def apart_def mem_simps)

lemma box_layout:
  "ly_size sample_boxes 0xc000 = 8" "ly_flags sample_boxes 0xc000 = [8, 0]"
  "ly_npointers sample_boxes 0xc000 = 0" "ly_nfields sample_boxes 0xc000 = 0"
  "dt_smalltag sample_boxes 0xa000 = Inr 0"
  by (simp_all add: sample_boxes_def ly_size_def ly_npointers_def ly_nfields_def ly_flags_def
      bytes_at_2 dt_smalltag_def smalltag_zero poke_byte load32_bytes)

lemma box_memory_object: "memory_object box_runtime sample_boxes 0x20000001000"
  by (simp add: memory_object_def Let_def box_loads box_layout not_special_def is_datatype_def)

lemma box_flags: "arrayelem_isboxed [8, 0] = Inr 1" "arrayelem_isunion [8, 0] = Inr 0"
  by code_simp+

lemma box_boxed: "boxed_elements sample_boxes 0x20000001000"
  by (simp add: boxed_elements_def box_loads box_layout box_flags)

lemma box_size: "get_so_object_size box_runtime sample_boxes 0x20000001000 = Inr 48"
proof -
  have "object_ok box_runtime sample_boxes 0x20000001000"
    by (simp add: object_ok_def box_loads box_layout is_datatype_def)
  moreover have "rt_genericmemory_how box_runtime sample_boxes 0x20000001000 = 0"
    by (simp add: box_runtime_def box_loads)
  ultimately show ?thesis
    using object_size_large [of box_runtime sample_boxes "0x20000001000"]
      memory_object_type [OF box_memory_object]
    by (simp add: box_loads genericmemory_size_def box_layout box_flags llt_align_def)
qed

lemma box_movable: "movable_memory box_runtime box_context {} sample_boxes 0x20000001000 48"
proof -
  have "unat (ly_npointers sample_boxes 0xc000) = 0"
    by (simp add: box_layout)
  then have "type_bytes sample_boxes 0x20000001000
      = span 0x20000000ff8 8 \<union> span 0x9ff8 64 \<union> span 0xc000 20"
    by (simp add: type_bytes_def Let_def box_loads)
  moreover have "span 0x20000001000 16 \<inter> span 0x30000000008 48 = {}"
    by (simp add: span_disjoint apart_def)
  ultimately show ?thesis
    using box_context_ok box_memory_object box_size
    by (simp add: movable_memory_def copyable_def is_object_in_los_def Int_Un_distrib2 span_disjoint
        apart_def)
qed

lemma box_element_slots:
  "slots_at b 2 8 = [Simple b, Simple (b + 8)]"
  "simple_load word_slot sample_boxes 0x20000001010 = Some 0x5000"
  "simple_load word_slot sample_boxes 0x20000001018 = Some 0x6000"
  by (simp_all add: slots_at_def upt_rec) (simp_all add: word_slot_def objref_def box_loads)

lemma box_elements: "elements_inside box_context sample_boxes 0x20000001000 48"
  by (simp add: elements_inside_def box_loads)

section \<open>Evacuation\<close>

text \<open>
  C22: evacuating a memory object of boxed elements stored in it. The copy points to its own
  elements and not to those of the old object; scanning the copy visits one slot per element, and
  each holds the reference the old element held.
\<close>

theorem evacuated_boxed_memory:
  assumes "movable_memory rt cc meta m g bytes" and "boxed_elements m g"
    and "elements_inside cc m g bytes" and "simple_slot_ok ops"
  shows "\<exists>to_obj m'. object_copy rt cc m g = Inr (to_obj, m') \<and> gm_ptr m' to_obj = to_obj + 16
    \<and> scan_julia_object rt m g = Inr (slots_at (g + 16) (unat (gm_length m g)) 8)
    \<and> scan_julia_object rt m' to_obj = Inr (slots_at (to_obj + 16) (unat (gm_length m g)) 8)
    \<and> map (slot_load ops m') (slots_at (to_obj + 16) (unat (gm_length m g)) 8)
      = map (slot_load ops m) (slots_at (g + 16) (unat (gm_length m g)) 8)"
proof -
  let ?m = "moved_memory cc m g bytes" and ?to = "alloc_copy cc m g bytes 16 8 + 8"
  let ?n = "unat (gm_length m g)" and ?vt = "mmtk_jl_typetagof m g"
  note mv = movable_memory_copy [OF assms(1)] moved_header [OF assms(1)]
  have old: "memory_object rt m g" "inline_how rt"
    using assms(1) by (simp_all add: movable_memory_def)
  have vt: "same_on (span (?vt - 8) 64) m ?m" and ly: "same_on (span (dt_layout m ?vt) 20) m ?m"
    using mv(2) by (simp_all add: type_bytes_def Let_def)
  have new: "memory_object rt ?m ?to"
    using old(1) mv(3,4) by (simp add: memory_object_def Let_def is_datatype_def datatype_same_on [OF vt])
  have "boxed_elements ?m ?to"
    using assms(2) mv(4) by (simp add: boxed_elements_def datatype_same_on [OF vt] layout_same_on [OF ly])
  then have "scan_julia_object rt ?m ?to = Inr (slots_at (?to + 16) ?n 8)"
    using boxed_memory_scan [OF new old(2)] mv(5) assms(3) by (simp add: elements_inside_def)
  moreover have "scan_julia_object rt m g = Inr (slots_at (g + 16) ?n 8)"
    using boxed_memory_scan [OF old assms(2)] assms(3) by (simp add: elements_inside_def)
  moreover have "slot_load ops ?m (Simple (?to + 16 + of_nat i * 8)) = slot_load ops m (Simple (g + 16 + of_nat i * 8))"
    if "i < ?n" for i
  proof -
    have "load64 ?m (?to + 16 + of_nat i * 8) = load64 m (g + 16 + of_nat i * 8)"
    proof (rule load64_cong)
      fix j :: nat assume "j < 8"
      then show "?m (?to + 16 + of_nat i * 8 + of_nat j) = m (g + 16 + of_nat i * 8 + of_nat j)"
        using moved_byte [OF assms(1), of "24 + i * 8 + j"] that assms(3)
        by (simp add: elements_inside_def algebra_simps)
    qed
    then show ?thesis
      using assms(4) by (simp add: simple_slot_ok_def)
  qed
  ultimately show ?thesis
    using mv(1,3) by (simp add: slots_at_def)
qed

theorem evacuated_boxed_memory_witness:
  "\<exists>to_obj m'. object_copy box_runtime box_context sample_boxes 0x20000001000 = Inr (to_obj, m')
    \<and> scan_julia_object box_runtime m' to_obj = Inr [Simple (to_obj + 16), Simple (to_obj + 24)]
    \<and> slot_load word_slot m' (Simple (to_obj + 24)) = Some 0x6000"
  using evacuated_boxed_memory [OF box_movable box_boxed box_elements word_slot_ok]
  by (auto simp: box_loads box_element_slots add.assoc)

section \<open>An array and its memory object\<close>

text \<open>Tracing slots writes their words and nothing else.\<close>

lemma forward_slots_elsewhere:
  assumes "simple_slot_ok ops" and "x \<notin> (\<Union>s \<in> set ss. span (slot_place s) 8)"
  shows "forward_slots ops f m ss x = m x"
  using assms(2)
proof (induction ss rule: rev_induct)
  case (snoc s ss)
  have "slot_store ops m' s obj x = m' x" for m' obj
    using snoc.prems assms(1)
    by (cases s) (simp_all add: simple_slot_ok_def offset_store_def store64_def store_le_byte span_def)
  then show ?case
    using snoc by (simp add: forward_slots_def split: option.split)
qed (simp add: forward_slots_def)

lemma array_slots_place:
  "(\<Union>s \<in> set (scan_array_ref rt m a @ [Simple (a + 8)]). span (slot_place s) 8) \<subseteq> span a 16"
proof -
  have "span (a + 8) 8 \<subseteq> span a 16"
  proof
    fix x assume "x \<in> span (a + 8) 8"
    then have "unat (x - (a + 8)) < 8"
      by (simp add: span_def)
    then have "unat (x - (a + 8) + 8) < 16"
      by (subst unat_add_no_wrap) simp_all
    then show "x \<in> span a 16"
      by (simp add: span_def)
  qed
  moreover have "span a 8 \<subseteq> span a 16"
    by (auto simp: span_def)
  ultimately show ?thesis
    by (auto simp: scan_array_ref_def Let_def process_offset_slot_def new_with_offset_def split: if_splits)
qed

text \<open>
  C8: what a program reads through an array survives the move of the array's memory object. When
  the object has been copied and the array's slots have been forwarded, the array refers to the
  copy, its data pointer is as far into the copy as it was into the old object, and every byte
  from there to the end of the object is what it was.
\<close>

theorem array_elements_survive:
  assumes "movable_memory rt cc meta m g bytes"
    and "load64 m (a + 8) = g" and "g \<noteq> 0" and "g < load64 m a"
    and "object_is_managed_by_mmtk rt (load64 m a)" and "16 \<le> load64 m a - g"
    and "span a 16 \<inter> (span (alloc_copy cc m g bytes 16 8) (unat bytes) \<union> meta) = {}"
    and "\<And>x. f x \<noteq> 0" and "f g = alloc_copy cc m g bytes 16 8 + 8"
  shows "\<exists>to_obj m1 m2. object_copy rt cc m g = Inr (to_obj, m1)
    \<and> m2 = forward_slots word_slot f m1 (scan_array_ref rt m1 a @ [Simple (a + 8)])
    \<and> load64 m2 (a + 8) = to_obj \<and> load64 m2 a - to_obj = load64 m a - g
    \<and> (\<forall>k. unat (load64 m a - g) + 8 + k < unat bytes \<longrightarrow>
         m2 (load64 m2 a + of_nat k) = m (load64 m a + of_nat k))"
proof -
  let ?m = "moved_memory cc m g bytes" and ?dst = "alloc_copy cc m g bytes 16 8"
  let ?p = "load64 m a"
  define m2 where "m2 = forward_slots word_slot f ?m (scan_array_ref rt ?m a @ [Simple (a + 8)])"
  have b: "24 \<le> bytes" and cc: "copy_context_ok cc" "side_metadata cc meta"
    using assms(1) by (simp_all add: movable_memory_def copyable_def)
  have "same_on (span a 16) m (copied cc m g bytes)"
    using assms(7) cc by (intro copied_elsewhere)
  moreover have "same_on (span a 16) (copied cc m g bytes) ?m"
    using assms(7) pointer_inside_target [OF b, of ?dst] cc unfolding moved_memory_def
    by (intro updated_elsewhere) auto
  ultimately have array: "same_on (span a 16) m ?m"
    by (simp add: same_on_def)
  then have fields: "load64 ?m a = ?p" "load64 ?m (a + 8) = g"
    using load64_same_on [OF array, of 0] load64_same_on [OF array, of 8] assms(2) by simp_all
  then have new: "load64 m2 (a + 8) = ?dst + 8" "load64 m2 a = ?dst + 8 + (?p - g)"
    using scan_array_forward [of rt ?m a g f m2] assms(3-5,8,9) m2_def by simp_all
  have "m2 (load64 m2 a + of_nat k) = m (?p + of_nat k)" if k: "unat (?p - g) + 8 + k < unat bytes" for k
  proof -
    have idx: "24 \<le> unat (?p - g) + 8 + k"
      using assms(6) by (simp add: word_le_nat_alt)
    have "m2 (load64 m2 a + of_nat k) = ?m (load64 m2 a + of_nat k)"
    proof -
      have "load64 m2 a + of_nat k \<in> span ?dst (unat bytes)"
        using k word_max_64 [of bytes] unat_of_nat_64 [of "unat (load64 m a - g) + 8 + k"]
        by (simp add: new span_def algebra_simps)
      then have "load64 m2 a + of_nat k \<notin> span a 16"
        using assms(7) by blast
      then show ?thesis
        unfolding m2_def
        by (intro forward_slots_elsewhere word_slot_ok contra_subsetD [OF array_slots_place])
    qed
    also have "\<dots> = m (?p + of_nat k)"
      using moved_byte [OF assms(1) k] idx by (simp add: new algebra_simps)
    finally show ?thesis .
  qed
  then show ?thesis
    using movable_memory_copy(1) [OF assms(1)] new by (simp add: m2_def)
qed


theorem array_elements_survive_witness:
  "\<exists>to_obj m1 m2. object_copy box_runtime box_context sample_boxes 0x20000001000 = Inr (to_obj, m1)
    \<and> m2 = forward_slots word_slot (\<lambda>_. 0x30000000010) m1
        (scan_array_ref box_runtime m1 0x9000 @ [Simple 0x9008])
    \<and> load64 m2 0x9008 = to_obj \<and> m2 (load64 m2 0x9000 + 1) = 0x60"
proof -
  have "sample_boxes 0x20000001019 = 0x60"
    by (simp add: sample_boxes_def poke_byte)
  moreover have "span 0x9000 16 \<inter> (span 0x30000000008 48 \<union> {}) = {}"
    by (simp add: span_disjoint apart_def)
  moreover have "\<exists>to_obj m1 m2. object_copy box_runtime box_context sample_boxes 0x20000001000 = Inr (to_obj, m1)
    \<and> m2 = forward_slots word_slot (\<lambda>_. 0x30000000010) m1
        (scan_array_ref box_runtime m1 0x9000 @ [Simple (0x9000 + 8)])
    \<and> load64 m2 (0x9000 + 8) = to_obj \<and> load64 m2 0x9000 - to_obj = load64 sample_boxes 0x9000 - 0x20000001000
    \<and> (\<forall>k. unat (load64 sample_boxes 0x9000 - 0x20000001000) + 8 + k < unat (48 :: usize) \<longrightarrow>
         m2 (load64 m2 0x9000 + of_nat k) = sample_boxes (load64 sample_boxes 0x9000 + of_nat k))"
    by (rule array_elements_survive [OF box_movable])
      (simp_all add: box_loads object_is_managed_by_mmtk_def span_disjoint apart_def)
  ultimately show ?thesis
    by (auto simp: box_loads dest: spec [of _ 1])
qed

end
