(* ===== verification/Moved_Module.thy ===== *)
theory Moved_Module
  imports Evacuation
begin

text \<open>
  What the collector does to a module that moves while its \<^verbatim>\<open>usings\<close> list is inline: \<^verbatim>\<open>object_copy\<close>,
  then \<^verbatim>\<open>scan_julia_object\<close> on the copy, then every visited slot forwarded. The copy is scanned
  through the list of the module it was copied from.
\<close>

section \<open>One slot among others\<close>

lemma forward_one:
  assumes "\<And>s'. s' \<in> set pre \<union> set post \<Longrightarrow> slots_apart s s'" and "\<And>a. f a \<noteq> 0"
  shows "slot_load word_slot (forward_slots word_slot f m (pre @ s # post)) s
    = map_option f (slot_load word_slot m s)"
proof -
  let ?m = "forward_slots word_slot f m pre"
  have "slot_load word_slot (forward_slots word_slot f m (pre @ s # post)) s
      = slot_load word_slot (case slot_load word_slot ?m s of None \<Rightarrow> ?m
          | Some obj \<Rightarrow> slot_store word_slot ?m s (f obj)) s"
    unfolding forward_slots_def foldl_append foldl_Cons
    using assms(1) by (intro word_slots.ld_forward_others) auto
  also have "\<dots> = map_option f (slot_load word_slot ?m s)"
    using assms(2) by (intro word_slots.ld_forward_same)
  also have "slot_load word_slot ?m s = slot_load word_slot m s"
    unfolding forward_slots_def using assms(1) by (intro word_slots.ld_forward_others) auto
  finally show ?thesis .
qed

lemma forward_others:
  assumes "\<And>s. s \<in> set ss \<Longrightarrow> apart 8 a 8 (slot_place s)"
  shows "load64 (forward_slots word_slot f m ss) a = load64 m a"
proof -
  have "slot_load word_slot (forward_slots word_slot f m ss) (Simple a) = slot_load word_slot m (Simple a)"
    unfolding forward_slots_def using assms
    by (intro word_slots.ld_forward_others) (simp add: slots_apart_def)
  then show ?thesis
    by (auto simp: word_slot_def objref_def split: if_splits)
qed

section \<open>A module that moves\<close>

definition movable_module ::
    "runtime \<Rightarrow> copy_context \<Rightarrow> addr set \<Rightarrow> memory \<Rightarrow> addr \<Rightarrow> bool" where
  "movable_module rt cc meta m mo \<longleftrightarrow>
     copy_context_ok cc \<and> side_metadata cc meta \<and> \<not> debug_assertions cc
     \<and> \<not> is_object_in_los mo \<and> JULIA_HEADER_SIZE rt = 8 \<and> not_special rt 128
     \<and> mmtk_jl_typetagof m mo = tag_word Jl_module_tag
     \<and> object_type rt m mo \<noteq> JULIA_BUFF_TAG rt
     \<and> dt_name m (object_type rt m mo) \<noteq> rt_genericmemory_typename rt
     \<and> 8 \<le> unat mo \<and> unat mo + 392 < 2 ^ 64
     \<and> (span (mo - 8) 400 \<union> span (object_type rt m mo) 8)
        \<inter> (span (alloc_copy cc m mo 400 16 8) 400 \<union> meta) = {}"

text \<open>The list is in the module itself: at most 29 words.\<close>

definition inline_usings :: "memory \<Rightarrow> addr \<Rightarrow> bool" where
  "inline_usings m mo \<longleftrightarrow> mod_items m mo = mo + 88 \<and> unat (mod_nusings m mo) \<le> 29"

lemma movable_module_copy:
  assumes "movable_module rt cc meta m mo"
  shows "object_copy rt cc m mo = Inr (alloc_copy cc m mo 400 16 8 + 8, copied cc m mo 400)"
proof -
  have t: "mmtk_jl_typetagof m mo = 128"
    using assms by (simp add: movable_module_def)
  have "object_ok rt m mo"
    using assms t by (simp add: movable_module_def object_ok_def not_special_def)
  moreover have "get_so_object_size rt m mo = Inr 400"
    using assms t by (simp add: movable_module_def get_so_object_size_def small_tag_size_def Let_def
        plain_small_tags_eq not_special_def llt_align_def)
  moreover have "(span (mo - 8) 8 \<union> span (object_type rt m mo) 8)
      \<inter> (span (alloc_copy cc m mo 400 16 8) (unat (400 :: usize)) \<union> meta) = {}"
    using assms span_within [of 0 8 400 "mo - 8"] by (auto simp: movable_module_def)
  ultimately show ?thesis
    using assms object_copy_eq [of cc meta mo rt m 400] by (simp add: movable_module_def)
qed

lemma moved_module_word:
  assumes "movable_module rt cc meta m mo" and "k \<le> 384"
  shows "load64 (copied cc m mo 400) (alloc_copy cc m mo 400 16 8 + 8 + of_nat k) = load64 m (mo + of_nat k)"
proof -
  have "unat (of_nat (k + 8) :: addr) = k + 8"
    using assms(2) by (intro unat_of_nat_64) simp
  moreover have "mo + of_nat k - (mo - 8) = of_nat (k + 8)" "unat (400 :: usize) = 400"
    by simp_all
  ultimately have "unat (mo + of_nat k - (mo - 8)) + 8 \<le> unat (400 :: usize)"
    using assms(2) by presburger
  from copied_load [OF _ this, of cc m] show ?thesis
    using assms(1) by (simp add: movable_module_def algebra_simps)
qed

lemma moved_module_scan:
  assumes "movable_module rt cc meta m mo" and "inline_usings m mo"
  defines "to_obj \<equiv> alloc_copy cc m mo 400 16 8 + 8"
  shows "scan_julia_object rt (copied cc m mo 400) to_obj = Inr (module_field_slots to_obj
    @ (if object_is_managed_by_mmtk rt (mo + 88) then [inlined_slot to_obj] else [])
    @ slots_at (mo + 88) ((unat (mod_nusings m mo) + 3) div 4) 32)"
proof -
  let ?m = "copied cc m mo 400"
  have h: "mmtk_jl_typetagof ?m to_obj = tag_word Jl_module_tag"
    using assms(1) copied_header [of cc 400 m mo] by (simp add: movable_module_def to_obj_def)
  have w: "load64 ?m (to_obj + of_nat k) = load64 m (mo + of_nat k)" if "k \<le> 384" for k
    using moved_module_word [OF assms(1) that] by (simp add: to_obj_def)
  have i: "mod_items ?m to_obj = mo + 88" and n: "mod_nusings ?m to_obj = mod_nusings m mo"
    using w [of 80] w [of 64] assms(2) by (simp_all add: mod_items_def mod_nusings_def inline_usings_def)
  have "unat (mo + 88) = unat mo + 88"
    using assms(1) by (simp add: unat_add_no_wrap movable_module_def)
  then have "unat (mod_items ?m to_obj) + 8 * unat (mod_nusings ?m to_obj) + 32 < 2 ^ 64"
    using assms(1,2) by (simp add: i n inline_usings_def movable_module_def)
  from module_slots_eq [OF this, of rt] show ?thesis
    using h assms(1) by (simp add: i n scan_simps movable_module_def)
qed

text \<open>The slots of the copy and of the old list, apart from each other.\<close>

lemma old_list_apart:
  assumes "movable_module rt cc meta m mo" and "inline_usings m mo" and "k \<le> 384"
    and "s \<in> set (slots_at (mo + 88) ((unat (mod_nusings m mo) + 3) div 4) 32)"
  shows "apart 8 (alloc_copy cc m mo 400 16 8 + 8 + of_nat k) 8 (slot_place s)"
proof -
  let ?dst = "alloc_copy cc m mo 400 16 8"
  obtain j where j: "j < (unat (mod_nusings m mo) + 3) div 4" "s = Simple (mo + 88 + of_nat j * 32)"
    using assms(4) by (auto simp: slots_at_def)
  moreover have "(unat (mod_nusings m mo) + 3) div 4 \<le> 8"
    using assms(2) div_le_mono [of "unat (mod_nusings m mo) + 3" 32 4] by (simp add: inline_usings_def)
  ultimately have "96 + j * 32 + 8 \<le> 400"
    by simp
  then have "span (mo - 8 + of_nat (96 + j * 32)) 8 \<subseteq> span (mo - 8) 400"
    by (intro span_within) simp_all
  then have "span (slot_place s) 8 \<subseteq> span (mo - 8) 400"
    by (simp add: j(2) algebra_simps)
  moreover have "span (?dst + of_nat (8 + k)) 8 \<subseteq> span ?dst 400"
    using assms(3) by (intro span_within) simp_all
  ultimately show ?thesis
    using assms(1) by (intro apart_spans [of "span ?dst 400" "span (mo - 8) 400"])
      (auto simp: movable_module_def algebra_simps)
qed

lemma copy_fields_apart:
  assumes "s \<in> set (module_field_slots to_obj)" and "80 \<le> k" and "k \<le> 384"
  shows "apart 8 (to_obj + of_nat k) 8 (slot_place s)"
proof -
  have "\<exists>j \<le> 56. slot_place s = to_obj + of_nat j"
    using assms(1) by (auto simp: module_field_slots_def intro: exI [of _ 16] exI [of _ 24] exI [of _ 8]
        exI [of _ 48] exI [of _ 56])
  then show ?thesis
    using apart_offsets assms(2,3) by auto
qed

section \<open>The stale list\<close>

text \<open>
  C34: a module that moves while its \<open>usings\<close> list is inline keeps a list nobody forwards. The copy
  still points to the list of the old module when it is scanned, and the slots the scan visits for
  the list are those of the old module. When the visited slots have been forwarded the copy points
  to its own list if the module is in the heap, but every entry of that list still holds what it
  held before the collection.
\<close>

theorem moved_module_stale_usings:
  assumes "movable_module rt cc meta m mo" and "inline_usings m mo" and "\<And>a. f a \<noteq> 0"
  shows "\<exists>to_obj m' ss. object_copy rt cc m mo = Inr (to_obj, m')
    \<and> scan_julia_object rt m' to_obj = Inr ss
    \<and> ss = map Simple [to_obj + 16, to_obj + 24, to_obj + 8, to_obj + 48, to_obj + 56]
         @ (if object_is_managed_by_mmtk rt (mo + 88) then [Offset (new_with_offset (to_obj + 80) 88)] else [])
         @ map (\<lambda>i. Simple (mo + 88 + of_nat i * 32)) [0..<(unat (mod_nusings m mo) + 3) div 4]
    \<and> (object_is_managed_by_mmtk rt (mo + 88) \<longrightarrow>
         mod_items (forward_slots word_slot f m' ss) to_obj = f mo + 88)
    \<and> (\<forall>i < 29. load64 (forward_slots word_slot f m' ss) (to_obj + 88 + of_nat i * 8)
         = load64 m (mo + 88 + of_nat i * 8))"
proof -
  let ?to = "alloc_copy cc m mo 400 16 8 + 8" and ?m = "copied cc m mo 400"
  let ?pre = "module_field_slots ?to" and ?old = "slots_at (mo + 88) ((unat (mod_nusings m mo) + 3) div 4) 32"
  let ?managed = "object_is_managed_by_mmtk rt (mo + 88)"
  let ?ss = "?pre @ (if ?managed then [inlined_slot ?to] else []) @ ?old"
  have word: "load64 ?m (?to + of_nat k) = load64 m (mo + of_nat k)" if "k \<le> 384" for k
    by (rule moved_module_word [OF assms(1) that])
  have items: "mod_items (forward_slots word_slot f ?m ?ss) ?to = f mo + 88" if "?managed"
  proof -
    have "apart 8 (?to + of_nat 80) 8 (slot_place s)" if "s \<in> set ?pre \<union> set ?old" for s
      using that copy_fields_apart [of s ?to 80] old_list_apart [OF assms(1,2), of 80 s] by auto
    then have "slot_load word_slot (forward_slots word_slot f ?m (?pre @ inlined_slot ?to # ?old)) (inlined_slot ?to)
        = map_option f (slot_load word_slot ?m (inlined_slot ?to))"
      using assms(3) by (intro forward_one) (simp_all add: slots_apart_def inlined_slot_def new_with_offset_def)
    moreover have "slot_load word_slot ?m (inlined_slot ?to) = Some mo"
      using word [of 80] assms(1,2)
      by (auto simp: inlined_slot_def offset_load_def new_with_offset_def objref_def inline_usings_def
          mod_items_def movable_module_def)
    ultimately show ?thesis
      using that
      by (simp add: inlined_slot_def offset_load_def new_with_offset_def objref_def mod_items_def
          diff_eq_eq Let_def split: if_splits)
  qed
  have entry: "load64 (forward_slots word_slot f ?m ?ss) (?to + 88 + of_nat i * 8)
      = load64 m (mo + 88 + of_nat i * 8)" if "i < 29" for i
  proof -
    have k: "of_nat (88 + i * 8) = (88 + of_nat i * 8 :: addr)" "88 + i * 8 \<le> 384"
      using that by simp_all
    have "apart 8 (?to + of_nat (88 + i * 8)) 8 (slot_place s)" if "s \<in> set ?ss" for s
    proof -
      have "apart 8 (?to + of_nat (88 + i * 8)) 8 (?to + of_nat 80)"
        using k(2) by (intro apart_offsets) simp_all
      then show ?thesis
        using that k(2) copy_fields_apart [of s ?to "88 + i * 8"] old_list_apart [OF assms(1,2) k(2), of s]
        by (auto simp: inlined_slot_def new_with_offset_def split: if_splits)
    qed
    then show ?thesis
      using forward_others [of ?ss "?to + of_nat (88 + i * 8)" f ?m] word [OF k(2)]
      by (simp only: k(1) add.assoc)
  qed
  have "?ss = map Simple [?to + 16, ?to + 24, ?to + 8, ?to + 48, ?to + 56]
      @ (if ?managed then [Offset (new_with_offset (?to + 80) 88)] else [])
      @ map (\<lambda>i. Simple (mo + 88 + of_nat i * 32)) [0..<(unat (mod_nusings m mo) + 3) div 4]"
    by (simp add: module_field_slots_def inlined_slot_def slots_at_def)
  with items entry show ?thesis
    using movable_module_copy [OF assms(1)] moved_module_scan [OF assms(1,2)]
    by (intro exI [of _ ?to] exI [of _ ?m] exI [of _ ?ss] conjI allI impI)
qed

text \<open>A module with one entry in its list, a reference to \<open>0x30000009000\<close>.\<close>

definition using_module :: memory where
  "using_module = poke [(0x30000003000, 128), (0x30000003058, 0x30000003060), (0x30000003048, 4),
     (0x30000003060, 0x30000009000), (3072, 0x9999)]"

lemma using_module_loads:
  "mmtk_jl_typetagof using_module 0x30000003008 = 128" "mod_items using_module 0x30000003008 = 0x30000003060"
  "mod_nusings using_module 0x30000003008 = 4" "load64 using_module 0x30000003060 = 0x30000009000"
  "dt_name using_module 3072 = 0x9999"
  by (simp_all add: using_module_def mmtk_jl_typetagof_def mod_items_def mod_nusings_def dt_name_def
      apart_def mem_simps)

lemma using_module_movable:
  "movable_module sample_runtime sample_copy_context {} using_module 0x30000003008"
proof -
  have t: "object_type sample_runtime using_module 0x30000003008 = 3072"
    by (simp add: object_type_def using_module_loads)
  have "(span (0x30000003008 - 8) 400 \<union> span 3072 8)
      \<inter> (span (alloc_copy sample_copy_context using_module 0x30000003008 400 16 8) 400 \<union> {}) = {}"
    by (simp add: sample_copy_context_def Int_Un_distrib2 span_disjoint apart_def)
  moreover have "copy_context_ok sample_copy_context" "side_metadata sample_copy_context {}"
    "\<not> debug_assertions sample_copy_context" "JULIA_HEADER_SIZE sample_runtime = 8"
    using sample_pair_copyable by (simp_all add: copyable_def)
  ultimately show ?thesis
    by (simp add: movable_module_def t using_module_loads not_special_def is_object_in_los_def)
qed

theorem moved_module_stale_usings_witness:
  "\<exists>to_obj m' ss. object_copy sample_runtime sample_copy_context using_module 0x30000003008 = Inr (to_obj, m')
    \<and> scan_julia_object sample_runtime m' to_obj = Inr ss \<and> Simple 0x30000003060 \<in> set ss
    \<and> mod_items (forward_slots word_slot (\<lambda>_. 0x30000010008) m' ss) to_obj = 0x30000010060
    \<and> load64 (forward_slots word_slot (\<lambda>_. 0x30000010008) m' ss) (to_obj + 88) = 0x30000009000"
proof -
  have "inline_usings using_module 0x30000003008"
    by (simp add: inline_usings_def using_module_loads)
  from moved_module_stale_usings [OF using_module_movable this, of "\<lambda>_. 0x30000010008"]
  obtain to_obj m' ss where c: "object_copy sample_runtime sample_copy_context using_module 0x30000003008 = Inr (to_obj, m')"
    "scan_julia_object sample_runtime m' to_obj = Inr ss"
    and ss: "ss = map Simple [to_obj + 16, to_obj + 24, to_obj + 8, to_obj + 48, to_obj + 56]
      @ (if object_is_managed_by_mmtk sample_runtime (0x30000003008 + 88)
         then [Offset (new_with_offset (to_obj + 80) 88)] else [])
      @ map (\<lambda>i. Simple (0x30000003008 + 88 + of_nat i * 32)) [0..<(unat (mod_nusings using_module 0x30000003008) + 3) div 4]"
    and it: "object_is_managed_by_mmtk sample_runtime (0x30000003008 + 88) \<longrightarrow>
      mod_items (forward_slots word_slot (\<lambda>_. 0x30000010008) m' ss) to_obj = 0x30000010008 + 88"
    and en: "\<forall>i < 29. load64 (forward_slots word_slot (\<lambda>_. 0x30000010008) m' ss) (to_obj + 88 + of_nat i * 8)
      = load64 using_module (0x30000003008 + 88 + of_nat i * 8)"
    by auto
  have "object_is_managed_by_mmtk sample_runtime (0x30000003008 + 88)"
    by (simp add: object_is_managed_by_mmtk_def sample_runtime_def)
  then show ?thesis
    using c it en [rule_format, of 0] by (intro exI [of _ to_obj] exI [of _ m'] exI [of _ ss])
      (simp add: ss using_module_loads)
qed

end
