(* ===== verification/Root_Scanning.thy ===== *)
theory Root_Scanning
  imports Object_Model
begin

text \<open>
  \<^verbatim>\<open>scanning.rs\<close>: the roots of a mutator thread (the shadow stacks of its tasks, the tasks themselves,
  the pending exception and the backtrace buffer), the roots C reports through the root buffers of
  \<^verbatim>\<open>slots.rs\<close>, and the packets they are handed to mmtk-core in.

  The locale \<open>packet_sink\<close> is the interface of a \<^verbatim>\<open>RootsWorkFactory\<close> towards the code that fills it;
  it is interpreted on the log of packets of \<open>Slots\<close>.
\<close>

section \<open>Packets\<close>

function chunks :: "nat \<Rightarrow> 'a list \<Rightarrow> 'a list list" where
  "chunks n xs = (if xs = [] \<or> n = 0 then [] else take n xs # chunks n (drop n xs))"
  by pat_completeness auto
termination
  by (relation "measure (\<lambda>(n, xs). length xs)") auto

declare chunks.simps [simp del]

lemma concat_chunks: "0 < n \<Longrightarrow> concat (chunks n xs) = xs"
  by (induction n xs rule: chunks.induct) (subst chunks.simps, simp)

lemma chunks_length: "c \<in> set (chunks n xs) \<Longrightarrow> 0 < length c \<and> length c \<le> n"
proof (induction n xs rule: chunks.induct)
  case (1 n xs)
  show ?case
  proof (cases "xs = [] \<or> n = 0")
    case True
    with 1 show ?thesis
      by (simp add: chunks.simps)
  next
    case False
    with 1(2) have "c = take n xs \<or> c \<in> set (chunks n (drop n xs))"
      by (subst (asm) chunks.simps) simp
    with 1(1) False show ?thesis
      by auto
  qed
qed

locale packet_sink =
  fixes put :: "'s \<Rightarrow> 'a list \<Rightarrow> 's"
    and packets :: "'s \<Rightarrow> 'a list list"
  assumes packets_put: "packets (put s c) = packets s @ [c]"
begin

lemma packets_put_all: "packets (foldl put s cs) = packets s @ cs"
  by (induction cs arbitrary: s) (simp_all add: packets_put)

lemma packets_put_chunks:
  "0 < n \<Longrightarrow> \<exists>new. packets (foldl put s (chunks n xs)) = packets s @ new \<and> concat new = xs
    \<and> (\<forall>c\<in>set new. 0 < length c \<and> length c \<le> n)"
  using packets_put_all [of s "chunks n xs"] concat_chunks [of n xs] chunks_length [of _ n xs] by blast

end

definition create_process_roots_work :: "work_log \<Rightarrow> vm_slot list \<Rightarrow> work_log" where
  "create_process_roots_work fac c = fac\<lparr>roots_work := roots_work fac @ [c]\<rparr>"

definition create_process_pinning_roots_work :: "work_log \<Rightarrow> addr list \<Rightarrow> work_log" where
  "create_process_pinning_roots_work fac c = fac\<lparr>pinning_work := pinning_work fac @ [c]\<rparr>"

definition create_process_tpinning_roots_work :: "work_log \<Rightarrow> addr list \<Rightarrow> work_log" where
  "create_process_tpinning_roots_work fac c = fac\<lparr>tpinning_work := tpinning_work fac @ [c]\<rparr>"

interpretation roots_sink: packet_sink create_process_roots_work roots_work
  by unfold_locales (simp add: create_process_roots_work_def)

interpretation pinning_sink: packet_sink create_process_pinning_roots_work pinning_work
  by unfold_locales (simp add: create_process_pinning_roots_work_def)

interpretation tpinning_sink: packet_sink create_process_tpinning_roots_work tpinning_work
  by unfold_locales (simp add: create_process_tpinning_roots_work_def)

section \<open>The roots of a mutator thread\<close>

definition slot_buffer :: "simple_slot \<Rightarrow> memory \<Rightarrow> vm_slot list \<Rightarrow> addr list" where
  "slot_buffer ops m slots = List.map_filter (slot_load ops m) slots"

text \<open>The closure \<^verbatim>\<open>root_scan_task\<close>: what it adds to \<^verbatim>\<open>slot_buffer\<close> and to \<^verbatim>\<open>node_buffer\<close>.\<close>

definition root_scan_task ::
    "simple_slot \<Rightarrow> runtime \<Rightarrow> memory \<Rightarrow> addr \<Rightarrow> bool \<Rightarrow> (addr list \<times> addr list) res" where
  "root_scan_task ops rt m task task_is_root =
     (if task \<noteq> 0
      then rbind (mmtk_scan_gcstack rt m task) (\<lambda>slots.
             Inr (slot_buffer ops m slots, if task_is_root then [task] else []))
      else Inr ([], []))"

fun root_scan_tasks ::
    "simple_slot \<Rightarrow> runtime \<Rightarrow> memory \<Rightarrow> (addr \<times> bool) list \<Rightarrow> (addr list \<times> addr list) res" where
  "root_scan_tasks ops rt m [] = Inr ([], [])"
| "root_scan_tasks ops rt m ((task, is_root) # ts) =
     rbind (root_scan_task ops rt m task is_root) (\<lambda>(slots, nodes).
     rbind (root_scan_tasks ops rt m ts) (\<lambda>(slots', nodes').
       Inr (slots @ slots', nodes @ nodes')))"

definition ptls_word :: "memory \<Rightarrow> addr \<Rightarrow> string \<Rightarrow> u64" where
  "ptls_word m ptls f = load64 m (ptls + offset_of jl_tls_states_fields f)"

definition live_tasks :: "memory \<Rightarrow> addr \<Rightarrow> addr list" where
  "live_tasks m ptls =
     (let al = ptls + offset_of jl_tls_states_fields ''gc_tls_common''
                 + offset_of jl_gc_tls_states_common_fields ''heap''
                 + offset_of jl_thread_heap_common_fields ''live_tasks'';
          len = load64 m (al + offset_of small_arraylist_fields ''len'');
          items = load64 m (al + offset_of small_arraylist_fields ''items'')
      in map (\<lambda>i. load64 m (items + of_nat i * 8)) [0..<unat len])"

definition thread_tasks :: "memory \<Rightarrow> addr \<Rightarrow> (addr \<times> bool) list" where
  "thread_tasks m ptls =
     [(ptls_word m ptls ''root_task'', True)]
     @ map (\<lambda>t. (t, False)) (live_tasks m ptls)
     @ [(ptls_word m ptls ''current_task'', True), (ptls_word m ptls ''next_task'', True),
        (ptls_word m ptls ''previous_task'', True)]"

text \<open>The loop over the backtrace buffer; \<open>None\<close> if it does not end.\<close>

partial_function (option) bt_roots :: "memory \<Rightarrow> addr \<Rightarrow> usize \<Rightarrow> usize \<Rightarrow> addr list option" where
  "bt_roots m bt_data bt_size i =
     (if i < bt_size then
        let bt_entry = bt_data + i * size_of jl_bt_element_t;
            bt_entry_size = mmtk_jl_bt_entry_size m bt_entry
        in if mmtk_jl_bt_is_native m bt_entry then bt_roots m bt_data bt_size (i + bt_entry_size)
           else let njlvals = mmtk_jl_bt_num_jlvals m bt_entry
                in Option.bind (bt_roots m bt_data bt_size (i + bt_entry_size)) (\<lambda>r.
                     Some (map (\<lambda>j. mmtk_jl_bt_entry_jlvalue m bt_entry (of_nat j)) [0..<unat njlvals]
                           @ r))
      else Some [])"

definition CAPACITY_PER_PACKET :: nat where
  "CAPACITY_PER_PACKET = 4096"

definition scan_roots_in_mutator_thread ::
    "simple_slot \<Rightarrow> runtime \<Rightarrow> memory \<Rightarrow> addr \<Rightarrow> work_log \<Rightarrow> work_log res" where
  "scan_roots_in_mutator_thread ops rt m ptls factory =
     rbind (root_scan_tasks ops rt m (thread_tasks m ptls)) (\<lambda>(slot_buf, task_nodes).
       let exc = ptls_word m ptls ''previous_exception'';
           exc_nodes = (if exc \<noteq> 0 then [exc] else [])
       in rbind (returns (bt_roots m (ptls_word m ptls ''bt_data'') (ptls_word m ptls ''bt_size'') 0))
            (\<lambda>bt_nodes.
              let node_buffer = task_nodes @ exc_nodes @ bt_nodes;
                  f1 = foldl create_process_tpinning_roots_work factory
                         (chunks CAPACITY_PER_PACKET slot_buf);
                  f2 = foldl create_process_pinning_roots_work f1
                         (chunks CAPACITY_PER_PACKET node_buffer)
              in Inr f2))"

section \<open>Roots reported by C\<close>

text \<open>
  \<^verbatim>\<open>jl_gc_scan_vm_specific_roots\<close> is C code: all it does to the factory is call the three functions
  of the closure, and the sequence of its calls is the parameter. C fills a buffer before each call,
  so a call comes with the memory it finds.
\<close>

datatype root_kind = Slot_roots | Node_roots | Tpinned_roots

record report_call =
  rc_kind :: root_kind
  rc_mem :: memory
  rc_buf :: addr
  rc_size :: usize
  rc_cap :: usize
  rc_renew :: bool

definition closure_func :: "roots_work_closure \<Rightarrow> root_kind \<Rightarrow> report_fn" where
  "closure_func c k = (case k of Slot_roots \<Rightarrow> report_slots_func c | Node_roots \<Rightarrow> report_nodes_func c
     | Tpinned_roots \<Rightarrow> report_tpinned_nodes_func c)"

definition scan_vm_specific_roots ::
    "(usize \<Rightarrow> addr \<times> usize) \<Rightarrow> report_call list \<Rightarrow> work_log \<Rightarrow> work_log" where
  "scan_vm_specific_roots vec calls factory =
     (let roots_closure = from_roots_work_factory
      in foldl (\<lambda>fac c. fst (closure_func roots_closure (rc_kind c) vec (rc_mem c) (rc_buf c)
                               (rc_size c) (rc_cap c) fac (rc_renew c))) factory calls)"

definition supports_return_barrier :: "bool res" where
  "supports_return_barrier = Inl Unimplemented"

definition prepare_for_roots_re_scanning :: "unit res" where
  "prepare_for_roots_re_scanning = Inl Unimplemented"

definition process_object :: "runtime \<Rightarrow> memory \<Rightarrow> addr \<Rightarrow> vm_slot list res" where
  "process_object rt m obj = scan_julia_object rt m obj"

definition vm_scan_object :: "runtime \<Rightarrow> memory \<Rightarrow> addr \<Rightarrow> vm_slot list res" where
  "vm_scan_object rt m obj = process_object rt m obj"

section \<open>No reported root is lost\<close>

definition calls_of :: "root_kind \<Rightarrow> report_call list \<Rightarrow> report_call list" where
  "calls_of k calls = filter (\<lambda>c. rc_kind c = k \<and> rc_buf c \<noteq> 0) calls"

lemma closure_func_eq:
  "closure_func from_roots_work_factory Slot_roots = report_simple_slots"
  "closure_func from_roots_work_factory Node_roots = report_nodes"
  "closure_func from_roots_work_factory Tpinned_roots = report_tpinned_nodes"
  by (simp_all add: closure_func_def from_roots_work_factory_def)

lemma report_log:
  "roots_work (fst (report_simple_slots vec m b n cap fac renew)) =
     roots_work fac @ (if b = 0 then [] else [map Simple (vec_words m b n)])"
  "pinning_work (fst (report_simple_slots vec m b n cap fac renew)) = pinning_work fac"
  "tpinning_work (fst (report_simple_slots vec m b n cap fac renew)) = tpinning_work fac"
  "pinning_work (fst (report_nodes vec m b n cap fac renew)) =
     pinning_work fac @ (if b = 0 then [] else [vec_words m b n])"
  "roots_work (fst (report_nodes vec m b n cap fac renew)) = roots_work fac"
  "tpinning_work (fst (report_nodes vec m b n cap fac renew)) = tpinning_work fac"
  "tpinning_work (fst (report_tpinned_nodes vec m b n cap fac renew)) =
     tpinning_work fac @ (if b = 0 then [] else [vec_words m b n])"
  "roots_work (fst (report_tpinned_nodes vec m b n cap fac renew)) = roots_work fac"
  "pinning_work (fst (report_tpinned_nodes vec m b n cap fac renew)) = pinning_work fac"
  by (simp_all add: report_simple_slots_def report_nodes_def report_tpinned_nodes_def)

text \<open>
  C35: every non-null buffer C reports becomes one work packet of the kind it was reported as, with
  exactly the words the buffer holds when it is reported, in the order of the reports; null buffers add nothing.
\<close>

theorem vm_roots_recorded:
  "roots_work (scan_vm_specific_roots vec calls fac) = roots_work fac @
      map (\<lambda>c. map Simple (vec_words (rc_mem c) (rc_buf c) (rc_size c))) (calls_of Slot_roots calls)
   \<and> pinning_work (scan_vm_specific_roots vec calls fac) = pinning_work fac @
      map (\<lambda>c. vec_words (rc_mem c) (rc_buf c) (rc_size c)) (calls_of Node_roots calls)
   \<and> tpinning_work (scan_vm_specific_roots vec calls fac) = tpinning_work fac @
      map (\<lambda>c. vec_words (rc_mem c) (rc_buf c) (rc_size c)) (calls_of Tpinned_roots calls)"
proof (induction calls arbitrary: fac)
  case Nil
  then show ?case
    by (simp add: scan_vm_specific_roots_def calls_of_def)
next
  case (Cons c calls)
  let ?fac = "fst (closure_func from_roots_work_factory (rc_kind c) vec (rc_mem c) (rc_buf c) (rc_size c)
    (rc_cap c) fac (rc_renew c))"
  have step: "scan_vm_specific_roots vec (c # calls) fac = scan_vm_specific_roots vec calls ?fac"
    by (simp add: scan_vm_specific_roots_def)
  show ?case
    unfolding step using Cons.IH [of ?fac]
    by (cases "rc_kind c") (simp_all add: calls_of_def closure_func_eq report_log)
qed

lemma mutator_roots_log:
  assumes "root_scan_tasks ops rt m (thread_tasks m ptls) = Inr (stack_refs, task_nodes)"
    and "bt_roots m (ptls_word m ptls ''bt_data'') (ptls_word m ptls ''bt_size'') 0 = Some bt_nodes"
  shows "\<exists>f tp pn. scan_roots_in_mutator_thread ops rt m ptls fac = Inr f
    \<and> tpinning_work f = tpinning_work fac @ tp \<and> concat tp = stack_refs
    \<and> pinning_work f = pinning_work fac @ pn
    \<and> concat pn = task_nodes @ (if ptls_word m ptls ''previous_exception'' \<noteq> 0
                                 then [ptls_word m ptls ''previous_exception''] else []) @ bt_nodes
    \<and> (\<forall>c \<in> set (tp @ pn). 0 < length c \<and> length c \<le> 4096)"
proof -
  let ?exc = "ptls_word m ptls ''previous_exception''"
  let ?nodes = "task_nodes @ (if ?exc \<noteq> 0 then [?exc] else []) @ bt_nodes"
  let ?f1 = "foldl create_process_tpinning_roots_work fac (chunks 4096 stack_refs)"
  let ?f2 = "foldl create_process_pinning_roots_work ?f1 (chunks 4096 ?nodes)"
  have frame: "pinning_work (foldl create_process_tpinning_roots_work f cs) = pinning_work f"
    "tpinning_work (foldl create_process_pinning_roots_work f cs) = tpinning_work f" for f cs
    by (induction cs arbitrary: f)
      (simp_all add: create_process_tpinning_roots_work_def create_process_pinning_roots_work_def)
  obtain tp where tp: "tpinning_work ?f1 = tpinning_work fac @ tp" "concat tp = stack_refs"
    "\<forall>c\<in>set tp. 0 < length c \<and> length c \<le> 4096"
    using tpinning_sink.packets_put_chunks [of 4096 fac stack_refs] by auto
  obtain pn where pn: "pinning_work ?f2 = pinning_work ?f1 @ pn" "concat pn = ?nodes"
    "\<forall>c\<in>set pn. 0 < length c \<and> length c \<le> 4096"
    using pinning_sink.packets_put_chunks [of 4096 ?f1 ?nodes] by auto
  have "scan_roots_in_mutator_thread ops rt m ptls fac = Inr ?f2"
    using assms by (simp add: scan_roots_in_mutator_thread_def Let_def CAPACITY_PER_PACKET_def)
  moreover have "tpinning_work ?f2 = tpinning_work fac @ tp" "pinning_work ?f2 = pinning_work fac @ pn"
    using tp(1) pn(1) frame by simp_all
  moreover have "\<forall>c \<in> set (tp @ pn). 0 < length c \<and> length c \<le> 4096"
    using tp(3) pn(3) by (simp add: ball_Un)
  ultimately show ?thesis
    using tp(2) pn(2) by blast
qed

section \<open>The backtrace buffer\<close>

text \<open>
  The entries of a backtrace buffer, as words: a native instruction pointer, or the marker, a
  descriptor word with the two counts, the values and the other words.
\<close>

datatype bt_entry = Native usize | Extended usize "addr list" "usize list"

fun bt_encode :: "bt_entry \<Rightarrow> usize list" where
  "bt_encode (Native ip) = [ip]"
| "bt_encode (Extended d js us) = JL_BT_NON_PTR_ENTRY # d # js @ us"

fun bt_valid :: "bt_entry \<Rightarrow> bool" where
  "bt_valid (Native ip) \<longleftrightarrow> ip \<noteq> JL_BT_NON_PTR_ENTRY"
| "bt_valid (Extended d js us) \<longleftrightarrow>
     length js = unat (d AND 7) \<and> length us = unat (drop_bit 3 d AND 7)"

fun bt_jlvalues :: "bt_entry \<Rightarrow> addr list" where
  "bt_jlvalues (Native ip) = []"
| "bt_jlvalues (Extended d js us) = js"

definition words_at :: "memory \<Rightarrow> addr \<Rightarrow> usize list \<Rightarrow> bool" where
  "words_at m a ws \<longleftrightarrow> (\<forall>k < length ws. load64 m (a + of_nat k * 8) = ws ! k)"

lemma words_at_load:
  "words_at m a (pre @ w # ws) \<Longrightarrow> load64 m (a + of_nat (length pre) * 8) = w"
  by (auto simp: words_at_def dest!: spec [of _ "length pre"])

lemma words_at_map:
  assumes "words_at m a (pre @ xs @ post)"
  shows "map (\<lambda>j. load64 m (a + of_nat (length pre + j) * 8)) [0..<length xs] = xs"
proof (rule nth_equalityI)
  fix j
  assume j: "j < length (map (\<lambda>j. load64 m (a + of_nat (length pre + j) * 8)) [0..<length xs])"
  then have "load64 m (a + of_nat (length pre + j) * 8) = (pre @ xs @ post) ! (length pre + j)"
    using assms [unfolded words_at_def, rule_format, of "length pre + j"] by simp
  with j show "map (\<lambda>j. load64 m (a + of_nat (length pre + j) * 8)) [0..<length xs] ! j = xs ! j"
    by (simp add: nth_append)
qed simp

lemma bt_word_at:
  "bt_word m (a + of_nat n * size_of jl_bt_element_t) (of_nat k) = load64 m (a + of_nat (n + k) * 8)"
  by (simp add: bt_word_def algebra_simps)

lemma bt_roots_parse:
  assumes "words_at m a (pre @ concat (map bt_encode es))" and "\<forall>e \<in> set es. bt_valid e"
    and "length (pre @ concat (map bt_encode es)) < 2 ^ 60"
    and "unat n = length (pre @ concat (map bt_encode es))"
  shows "bt_roots m a n (of_nat (length pre)) = Some (concat (map bt_jlvalues es))"
  using assms
proof (induction es arbitrary: pre)
  case Nil
  then have "\<not> of_nat (length pre) < n"
    by (simp add: word_less_nat_alt unat_of_nat_64)
  then show ?case
    by (subst bt_roots.simps) simp
next
  case (Cons e es)
  let ?b = "a + of_nat (length pre) * size_of jl_bt_element_t"
  have less: "of_nat (length pre) < n"
    using Cons.prems(3,4) by (cases e) (simp_all add: word_less_nat_alt unat_of_nat_64)
  have IH: "bt_roots m a n (of_nat (length (pre @ bt_encode e))) = Some (concat (map bt_jlvalues es))"
    using Cons.prems by (intro Cons.IH) simp_all
  have w0: "bt_word m ?b 0 = hd (bt_encode e)"
    using bt_word_at [of m a "length pre" 0] words_at_load [of m a pre] Cons.prems(1)
    by (cases e) simp_all
  show ?case
  proof (cases e)
    case (Native ip)
    then have "mmtk_jl_bt_is_native m ?b" "mmtk_jl_bt_entry_size m ?b = 1"
      using w0 Cons.prems(2) by (simp_all add: mmtk_jl_bt_is_native_def mmtk_jl_bt_entry_size_def)
    with less IH Native show ?thesis
      by (subst bt_roots.simps) (simp add: Let_def add.commute)
  next
    case (Extended d js us)
    have w1: "bt_word m ?b 1 = d"
      using bt_word_at [of m a "length pre" 1] words_at_load [of m a "pre @ [JL_BT_NON_PTR_ENTRY]"]
        Cons.prems(1) Extended by simp
    have js: "length js = unat (d AND 7)" and us: "length us = unat (drop_bit 3 d AND 7)"
      using Cons.prems(2) Extended by simp_all
    have native: "\<not> mmtk_jl_bt_is_native m ?b"
      using w0 Extended by (simp add: mmtk_jl_bt_is_native_def)
    then have size: "mmtk_jl_bt_entry_size m ?b = of_nat (length (bt_encode e))"
      using w1 js us Extended by (simp add: mmtk_jl_bt_entry_size_def mmtk_jl_bt_num_jlvals_def
          mmtk_jl_bt_num_uintvals_def)
    have "map (\<lambda>j. mmtk_jl_bt_entry_jlvalue m ?b (of_nat j)) [0..<length js]
        = map (\<lambda>j. load64 m (a + of_nat (length (pre @ [JL_BT_NON_PTR_ENTRY, d]) + j) * 8)) [0..<length js]"
      by (simp add: mmtk_jl_bt_entry_jlvalue_def bt_word_def algebra_simps)
    also have "\<dots> = js"
      by (rule words_at_map) (use Cons.prems(1) Extended in simp)
    finally show ?thesis
      using less IH native size w1 js Extended
      by (subst bt_roots.simps) (simp add: Let_def mmtk_jl_bt_num_jlvals_def add.left_commute)
  qed
qed

text \<open>
  C36: on a buffer that holds the encoding of a sequence of backtrace entries, the loop returns, and
  yields exactly the values of the extended entries, in order; native entries contribute none.
\<close>

theorem bt_roots_roundtrip:
  assumes "words_at m bt_data (concat (map bt_encode es))" and "\<forall>e \<in> set es. bt_valid e"
    and "unat bt_size = length (concat (map bt_encode es))" and "unat bt_size < 2 ^ 60"
  shows "bt_roots m bt_data bt_size 0 = Some (concat (map bt_jlvalues es))"
  using bt_roots_parse [of m bt_data "[]" es bt_size] assms by simp

theorem bt_roots_roundtrip_witness:
  "bt_roots (poke [(0x5000, 0x77), (0x5008, - 1), (0x5010, 0x4a), (0x5018, 0x9000), (0x5020, 0xa000),
     (0x5028, 3)]) 0x5000 6 0 = Some [0x9000, 0xa000]"
proof -
  let ?m = "poke [(0x5000, 0x77), (0x5008, - 1), (0x5010, 0x4a), (0x5018, 0x9000), (0x5020, 0xa000),
     (0x5028, 3)]"
  let ?es = "[Native 0x77, Extended 0x4a [0x9000, 0xa000] [3]]"
  have e: "concat (map bt_encode ?es) = [0x77, - 1, 0x4a, 0x9000, 0xa000, 3]"
    by (simp add: JL_BT_NON_PTR_ENTRY_def)
  have "words_at ?m 0x5000 (concat (map bt_encode ?es))"
    unfolding words_at_def e
    by (simp add: less_Suc_eq numeral_eq_Suc imp_conjL all_conj_distrib) 
      (simp add: load64_poke apart_def)
  then show ?thesis
    using bt_roots_roundtrip [of ?m "0x5000" ?es 6] by (simp add: JL_BT_NON_PTR_ENTRY_def)
qed

end
