(* ===== verification/Reachability.thy ===== *)
theory Reachability
  imports Root_Scanning
begin

text \<open>
  What the scanner is for: every object a Julia program can reach is found. The references of an
  object are read off the layout of its type, without the cursor loops of the code; the slots
  \<^verbatim>\<open>scan_julia_object\<close> visits hold exactly these. So the objects mmtk-core finds by scanning what the
  roots of a thread lead to are the objects reachable from them.
\<close>

section \<open>The references of an object\<close>

definition word_refs :: "memory \<Rightarrow> addr \<Rightarrow> nat \<Rightarrow> addr \<Rightarrow> addr option list" where
  "word_refs m b n stride = map (\<lambda>i. objref (load64 m (b + of_nat i * stride))) [0..<n]"

text \<open>The words the pointer table of a layout names, the table having entries of \<open>w\<close> bytes.\<close>

definition field_refs :: "nat \<Rightarrow> memory \<Rightarrow> addr \<Rightarrow> addr \<Rightarrow> addr option list" where
  "field_refs w m base layout =
     map (\<lambda>j. objref (load64 m (base
            + load_entry w m (mmtk_jl_dt_layout_ptrs m layout + of_nat j * of_nat w) * 8)))
       [0..<unat (ly_npointers m layout)]"

definition boxed :: "memory \<Rightarrow> addr \<Rightarrow> bool" where
  "boxed m layout \<longleftrightarrow> arrayelem_isboxed (ly_flags m layout) \<noteq> Inr 0"

definition memory_refs :: "runtime \<Rightarrow> memory \<Rightarrow> addr \<Rightarrow> addr \<Rightarrow> addr option list" where
  "memory_refs rt m obj layout =
     (let n = unat (gm_length m obj); b = gm_ptr m obj
      in if rt_genericmemory_how rt m obj = 3 then [objref (load64 m (rt_owner_address rt m obj))]
         else if boxed m layout then word_refs m b n 8
         else if 0 \<le> sint (ly_first_ptr m layout)
              then concat (map (\<lambda>i. field_refs (entry_bytes m layout) m
                     (b + of_nat i * (element_words m layout * 8)) layout) [0..<n])
         else [])"

text \<open>An array refers to its memory object, also through its data pointer into it.\<close>

definition array_refs :: "runtime \<Rightarrow> memory \<Rightarrow> addr \<Rightarrow> addr option list" where
  "array_refs rt m a =
     (if object_is_managed_by_mmtk rt (load64 m a) \<and> load64 m (a + 8) < load64 m a
      then [objref (load64 m (a + 8))] else [])"

definition typed_refs :: "runtime \<Rightarrow> memory \<Rightarrow> addr \<Rightarrow> addr \<Rightarrow> addr option list" where
  "typed_refs rt m obj vt =
     (if dt_name m vt = rt_array_typename rt then array_refs rt m obj else [])
     @ (if dt_name m vt = rt_genericmemory_typename rt then memory_refs rt m obj (dt_layout m vt)
        else if vt = rt_weakref_type rt then []
        else field_refs (entry_bytes m (dt_layout m vt)) m obj (dt_layout m vt))"

text \<open>
  The \<open>usings\<close> list of a module has four words for each entry, of which the first is a reference;
  when it is stored in the module, the pointer to it is a pointer into the module.
\<close>

definition module_refs :: "runtime \<Rightarrow> memory \<Rightarrow> addr \<Rightarrow> addr option list" where
  "module_refs rt m mo =
     map (\<lambda>k. objref (load64 m (mo + k))) [16, 24, 8, 48, 56]
     @ (if object_is_managed_by_mmtk rt (mod_items m mo) then [objref (mod_items m mo - 88)] else [])
     @ word_refs m (mod_items m mo) ((unat (mod_nusings m mo) + 3) div 4) 32"

text \<open>What the shadow stack of a task refers to.\<close>

definition stack_ref :: "runtime \<Rightarrow> memory \<Rightarrow> addr \<Rightarrow> addr \<Rightarrow> bool" where
  "stack_ref rt m ta b \<longleftrightarrow>
     copied_stack rt m ta \<and> objref (load64 m (ta_stkbuf_slot ta)) = Some b
     \<or> (\<exists>w fs f. stack_window_of rt m ta = Inr w \<and> load64 m (ta + offset_of jl_task_fields ''gcstack'') \<noteq> 0
          \<and> gc_chain w m (load64 m (ta + offset_of jl_task_fields ''gcstack'')) fs
          \<and> f \<in> set fs \<and> Some b \<in> set (frame_refs w m f))
     \<or> load64 m (ta + offset_of jl_task_fields ''excstack'') \<noteq> 0
         \<and> (\<exists>a \<in> set (rt_exc_slots rt m ta). objref (load64 m a) = Some b)"

definition special_tag :: "runtime \<Rightarrow> usize \<Rightarrow> bool" where
  "special_tag rt vtag \<longleftrightarrow> vtag = rt_symbol_type rt \<or> vtag = JULIA_BUFF_TAG rt"

definition refers :: "runtime \<Rightarrow> memory \<Rightarrow> addr \<Rightarrow> addr \<Rightarrow> bool" where
  "refers rt m a b \<longleftrightarrow>
     (let vtag = mmtk_jl_typetagof m a
      in if special_tag rt vtag then False
         else if vtag \<in> set plain_small_tags
              then Some b \<in> set (typed_refs rt m a (rt_small_typeof rt (unat vtag div 8)))
         else if vtag = tag_word Jl_simplevector_tag
              then Some b \<in> set (word_refs m (a + 8) (unat (mmtk_jl_svec_len m a)) 8)
         else if vtag = tag_word Jl_module_tag then Some b \<in> set (module_refs rt m a)
         else if vtag = tag_word Jl_task_tag
              then stack_ref rt m a b \<or> Some b \<in> set (field_refs 1 m a (dt_layout m (rt_task_type rt)))
         else if vtag < max_tag_word then False
         else Some b \<in> set (typed_refs rt m a vtag))"

section \<open>Well-formed objects\<close>

text \<open>
  The objects the Julia runtime makes: everything an object is scanned through lies in the address
  space, its type is a type, the frames of a task end, and layouts are of the kinds the code
  supports.
\<close>

definition layout_ok :: "memory \<Rightarrow> addr \<Rightarrow> bool" where
  "layout_ok m layout \<longleftrightarrow> fielddesc_type_custom (ly_flags m layout) \<noteq> 3
     \<and> unat (mmtk_jl_dt_layout_ptrs m layout) + 4 * unat (ly_npointers m layout) + 4 < 2 ^ 64"

definition memory_ok :: "runtime \<Rightarrow> memory \<Rightarrow> addr \<Rightarrow> addr \<Rightarrow> bool" where
  "memory_ok rt m obj layout \<longleftrightarrow>
     rt_genericmemory_how rt m obj = 3 \<or> gm_length m obj = 0
     \<or> boxed m layout \<and> unat (gm_ptr m obj) + 8 * unat (gm_length m obj) + 8 < 2 ^ 64
     \<or> \<not> boxed m layout \<and> (sint (ly_first_ptr m layout) < 0
          \<or> element_layout_ok m layout
            \<and> unat (gm_ptr m obj) + (unat (gm_length m obj) + 1) * (8 * unat (element_words m layout)) < 2 ^ 64)"

definition typed_ok :: "runtime \<Rightarrow> memory \<Rightarrow> addr \<Rightarrow> addr \<Rightarrow> bool" where
  "typed_ok rt m obj vt \<longleftrightarrow>
     (if dt_name m vt = rt_genericmemory_typename rt then memory_ok rt m obj (dt_layout m vt)
      else vt = rt_weakref_type rt \<or> layout_ok m (dt_layout m vt))"

definition stack_ok :: "runtime \<Rightarrow> memory \<Rightarrow> addr \<Rightarrow> bool" where
  "stack_ok rt m ta \<longleftrightarrow>
     (\<exists>w. stack_window_of rt m ta = Inr w
        \<and> (load64 m (ta + offset_of jl_task_fields ''gcstack'') = 0
           \<or> (\<exists>fs. gc_chain w m (load64 m (ta + offset_of jl_task_fields ''gcstack'')) fs)))"

definition task_ok :: "runtime \<Rightarrow> memory \<Rightarrow> addr \<Rightarrow> bool" where
  "task_ok rt m ta \<longleftrightarrow> stack_ok rt m ta \<and> layout_ok m (dt_layout m (rt_task_type rt))"

definition object_wf :: "runtime \<Rightarrow> memory \<Rightarrow> addr \<Rightarrow> bool" where
  "object_wf rt m a \<longleftrightarrow>
     (let vtag = mmtk_jl_typetagof m a
      in if special_tag rt vtag then True
         else if vtag \<in> set plain_small_tags then typed_ok rt m a (rt_small_typeof rt (unat vtag div 8))
         else if vtag = tag_word Jl_simplevector_tag
              then unat a + 8 * unat (mmtk_jl_svec_len m a) + 16 < 2 ^ 64
         else if vtag = tag_word Jl_module_tag
              then unat (mod_items m a) + 8 * unat (mod_nusings m a) + 32 < 2 ^ 64
         else if vtag = tag_word Jl_task_tag then task_ok rt m a
         else if vtag < max_tag_word then True
         else is_datatype m vtag \<and> typed_ok rt m a vtag)"

section \<open>The scanner visits the references\<close>

abbreviation visits :: "memory \<Rightarrow> vm_slot list res \<Rightarrow> addr option list \<Rightarrow> bool" where
  "visits m r refs \<equiv> \<exists>ss. r = Inr ss \<and> map (slot_load word_slot m) ss = refs"

lemma visits_slots_at: "map (slot_load word_slot m) (slots_at b n st) = word_refs m b n st"
  by (simp add: slots_at_def word_refs_def word_slot_def)

lemma visits_table:
  "0 < w \<Longrightarrow> w \<le> 4 \<Longrightarrow>
    unat (mmtk_jl_dt_layout_ptrs m l) + 4 * unat (ly_npointers m l) + 4 < 2 ^ 64 \<Longrightarrow>
    visits m (table_slots w m base (mmtk_jl_dt_layout_ptrs m l) (ly_npointers m l)) (field_refs w m base l)"
proof -
  assume w: "0 < w" "w \<le> 4" and b: "unat (mmtk_jl_dt_layout_ptrs m l) + 4 * unat (ly_npointers m l) + 4 < 2 ^ 64"
  have "unat (ly_npointers m l) * w \<le> 4 * unat (ly_npointers m l)"
    using w(2) by simp
  then have "table_slots w m base (mmtk_jl_dt_layout_ptrs m l) (ly_npointers m l)
      = Inr (pointer_slots w m base (mmtk_jl_dt_layout_ptrs m l) (unat (ly_npointers m l)))"
    using w b by (intro table_slots_eq) linarith+
  then show ?thesis
    by (simp add: pointer_slots_def field_refs_def word_slot_def comp_def del: load_entry.simps)
qed

lemma visits_pointer_slots:
  "map (slot_load word_slot m) (pointer_slots w m base (mmtk_jl_dt_layout_ptrs m l) (unat (ly_npointers m l)))
    = field_refs w m base l"
  by (simp add: pointer_slots_def field_refs_def word_slot_def comp_def del: load_entry.simps)

lemma visits_fields:
  "layout_ok m l \<Longrightarrow> visits m (scan_fields m obj l) (field_refs (entry_bytes m l) m obj l)"
  by (simp add: layout_ok_def fields_slots_eq visits_pointer_slots)

lemma visits_array: "map (slot_load word_slot m) (scan_array_ref rt m a) = array_refs rt m a"
  by (auto simp: scan_array_ref_def array_refs_def Let_def word_gt_0)

lemma visits_memory:
  assumes "memory_ok rt m obj (dt_layout m vt)"
  shows "visits m (scan_genericmemory rt m obj vt) (memory_refs rt m obj (dt_layout m vt))"
proof -
  let ?l = "dt_layout m vt" and ?n = "gm_length m obj" and ?b = "gm_ptr m obj"
  obtain v where v: "arrayelem_isboxed (ly_flags m ?l) = Inr v"
    using bits_in_bounds(1) [of "ly_flags m ?l"] by (auto simp: ly_flags_def)
  then have bx: "boxed m ?l \<longleftrightarrow> v \<noteq> 0"
    by (simp add: boxed_def)
  consider (owner) "rt_genericmemory_how rt m obj = 3"
    | (empty) "rt_genericmemory_how rt m obj \<noteq> 3" "?n = 0"
    | (words) "rt_genericmemory_how rt m obj \<noteq> 3" "?n \<noteq> 0" "boxed m ?l"
        "unat ?b + 8 * unat ?n + 8 < 2 ^ 64"
    | (none) "rt_genericmemory_how rt m obj \<noteq> 3" "?n \<noteq> 0" "\<not> boxed m ?l"
        "sint (ly_first_ptr m ?l) < 0"
    | (inline) "rt_genericmemory_how rt m obj \<noteq> 3" "?n \<noteq> 0" "\<not> boxed m ?l"
        "\<not> sint (ly_first_ptr m ?l) < 0" "element_layout_ok m ?l"
        "unat ?b + (unat ?n + 1) * (8 * unat (element_words m ?l)) < 2 ^ 64"
    using assms unfolding memory_ok_def by blast
  then show ?thesis
  proof cases
    case owner
    then show ?thesis
      by (simp add: scan_genericmemory_def memory_refs_def)
  next
    case empty
    then show ?thesis
      by (simp add: scan_genericmemory_def memory_refs_def word_refs_def Let_def)
  next
    case words
    then show ?thesis
      using bx v range_slots_words [of ?b ?n]
      by (simp add: scan_genericmemory_def memory_refs_def visits_slots_at)
  next
    case none
    then show ?thesis
      using bx v by (simp add: scan_genericmemory_def memory_refs_def)
  next
    case inline
    then show ?thesis
      using bx v inline_elements_eq [OF inline(5,6)]
      by (simp add: scan_genericmemory_def memory_refs_def map_concat comp_def visits_pointer_slots Let_def)
  qed
qed

lemma visits_typed:
  assumes "typed_ok rt m obj vt"
  shows "visits m (scan_with_type rt m obj vt) (typed_refs rt m obj vt)"
proof -
  have arr: "map (slot_load word_slot m) (if dt_name m vt = rt_array_typename rt
      then scan_array_ref rt m obj else []) = (if dt_name m vt = rt_array_typename rt
      then array_refs rt m obj else [])"
    by (simp add: visits_array)
  have "visits m (if dt_name m vt = rt_genericmemory_typename rt then scan_genericmemory rt m obj vt
        else if vt = rt_weakref_type rt then Inr [] else scan_fields m obj (dt_layout m vt))
      (if dt_name m vt = rt_genericmemory_typename rt then memory_refs rt m obj (dt_layout m vt)
        else if vt = rt_weakref_type rt then []
        else field_refs (entry_bytes m (dt_layout m vt)) m obj (dt_layout m vt))"
    using assms visits_memory visits_fields by (auto simp: typed_ok_def split: if_splits)
  then show ?thesis
    using arr by (auto simp: scan_with_type_def typed_refs_def Let_def)
qed

lemma visits_module:
  assumes "unat (mod_items m mo) + 8 * unat (mod_nusings m mo) + 32 < 2 ^ 64"
  shows "visits m (scan_module rt m mo) (module_refs rt m mo)"
proof -
  have "slot_load word_slot m (inlined_slot mo) = objref (mod_items m mo - 88)"
    by (simp add: inlined_slot_def offset_load_def new_with_offset_def mod_items_def)
  moreover have "map (slot_load word_slot m) (module_field_slots mo)
      = map (\<lambda>k. objref (load64 m (mo + k))) [16, 24, 8, 48, 56]"
    by (simp add: module_field_slots_def word_slot_def)
  ultimately show ?thesis
    using module_slots_eq [OF assms] by (simp add: module_refs_def visits_slots_at)
qed

text \<open>The stack of a task, as a set: its order is that of the frames.\<close>

definition slot_refs :: "memory \<Rightarrow> vm_slot list \<Rightarrow> addr set" where
  "slot_refs m ss = {b. \<exists>s \<in> set ss. slot_load word_slot m s = Some b}"

lemma slot_refs_map: "slot_refs m ss = {b. Some b \<in> set (map (slot_load word_slot m) ss)}"
  by (auto simp: slot_refs_def image_iff) metis+

lemma slot_refs_append [simp]: "slot_refs m (ss @ ts) = slot_refs m ss \<union> slot_refs m ts"
  by (auto simp: slot_refs_def)

lemma gc_chain_unique: "gc_chain w m s fs \<Longrightarrow> gc_chain w m s fs' \<Longrightarrow> fs = fs'"
proof (induction fs arbitrary: s fs')
  case (Cons f fs)
  then obtain f' fs'' where fs': "fs' = f' # fs''"
    by (cases fs') simp_all
  show ?case
    using Cons by (cases "gf_prev w m s = 0") (auto simp: fs')
qed simp

lemma gcstack_refs:
  assumes "stack_ok rt m ta"
  shows "\<exists>ss. mmtk_scan_gcstack rt m ta = Inr ss \<and> slot_refs m ss = {b. stack_ref rt m ta b}"
proof -
  let ?s = "load64 m (ta + offset_of jl_task_fields ''gcstack'')"
  let ?stk = "if copied_stack rt m ta then [process_slot (ta_stkbuf_slot ta)] else []"
  let ?exc = "if load64 m (ta + offset_of jl_task_fields ''excstack'') \<noteq> 0
    then map process_slot (rt_exc_slots rt m ta) else []"
  obtain w where w: "stack_window_of rt m ta = Inr w"
    and chain: "?s = 0 \<or> (\<exists>fs. gc_chain w m ?s fs)"
    using assms by (auto simp: stack_ok_def)
  obtain fs where fs: "?s = 0 \<and> fs = [] \<or> ?s \<noteq> 0 \<and> gc_chain w m ?s fs"
    using chain by (cases "?s = 0") auto
  then have u: "?s \<noteq> 0 \<Longrightarrow> gc_chain w m ?s fs' \<longleftrightarrow> fs' = fs" for fs'
    using gc_chain_unique by auto
  let ?fr = "concat (map (gcframe_slots w m) fs)"
  have "mmtk_scan_gcstack rt m ta = Inr (?stk @ ?fr @ ?exc)"
    using w fs by (auto simp: mmtk_scan_gcstack_def Let_def gcstack_slots_chain)
  moreover have "slot_refs m ?fr = {b. \<exists>f \<in> set fs. Some b \<in> set (frame_refs w m f)}"
    by (auto simp: slot_refs_map gcframe_slots_refs [symmetric])
  moreover have "slot_refs m ?stk = {b. copied_stack rt m ta \<and> objref (load64 m (ta_stkbuf_slot ta)) = Some b}"
    by (simp add: slot_refs_def)
  moreover have "slot_refs m ?exc = {b. load64 m (ta + offset_of jl_task_fields ''excstack'') \<noteq> 0
      \<and> (\<exists>a \<in> set (rt_exc_slots rt m ta). objref (load64 m a) = Some b)}"
    by (simp add: slot_refs_def)
  moreover have "(\<exists>w' fs' f. stack_window_of rt m ta = Inr w' \<and> ?s \<noteq> 0 \<and> gc_chain w' m ?s fs'
      \<and> f \<in> set fs' \<and> Some b \<in> set (frame_refs w' m f)) \<longleftrightarrow> (\<exists>f \<in> set fs. Some b \<in> set (frame_refs w m f))" for b
    using w fs u by (cases "?s = 0") auto
  ultimately show ?thesis
    by (auto simp: stack_ref_def)
qed

lemma visits_slot_refs: "visits m r refs \<Longrightarrow> \<exists>ss. r = Inr ss \<and> slot_refs m ss = {b. Some b \<in> set refs}"
  by (auto simp: slot_refs_map)

lemma visits_task:
  assumes "task_ok rt m ta"
  shows "\<exists>ss. scan_task rt m ta = Inr ss \<and> slot_refs m ss
    = {b. stack_ref rt m ta b \<or> Some b \<in> set (field_refs 1 m ta (dt_layout m (rt_task_type rt)))}"
proof -
  obtain ss where ss: "mmtk_scan_gcstack rt m ta = Inr ss" "slot_refs m ss = {b. stack_ref rt m ta b}"
    using gcstack_refs [of rt m ta] assms by (auto simp: task_ok_def)
  let ?l = "dt_layout m (rt_task_type rt)"
  have "visits m (table_slots 1 m ta (mmtk_jl_dt_layout_ptrs m ?l) (ly_npointers m ?l)) (field_refs 1 m ta ?l)"
    using assms by (intro visits_table) (simp_all add: task_ok_def layout_ok_def)
  from visits_slot_refs [OF this] ss show ?thesis
    by (auto simp: scan_task_def)
qed

text \<open>Scanning a well-formed object returns, and the slots hold the references of the object.\<close>

lemma scan_refers:
  assumes "object_wf rt m a"
  shows "\<exists>ss. scan_julia_object rt m a = Inr ss \<and> slot_refs m ss = {b. refers rt m a b}"
proof -
  let ?t = "mmtk_jl_typetagof m a"
  consider (special) "special_tag rt ?t"
    | (plain) "\<not> special_tag rt ?t" "?t \<in> set plain_small_tags"
    | (svec) "\<not> special_tag rt ?t" "?t = tag_word Jl_simplevector_tag"
    | (module) "\<not> special_tag rt ?t" "?t = tag_word Jl_module_tag"
    | (task) "\<not> special_tag rt ?t" "?t = tag_word Jl_task_tag"
    | (small) "\<not> special_tag rt ?t" "?t < max_tag_word" "?t \<notin> set plain_small_tags"
        "?t \<notin> tag_word ` {Jl_simplevector_tag, Jl_module_tag, Jl_task_tag}"
    | (typed) "\<not> special_tag rt ?t" "\<not> ?t < max_tag_word"
    by fastforce
  then show ?thesis
  proof cases
    case special
    then show ?thesis
      by (auto simp: scan_julia_object_def refers_def special_tag_def slot_refs_def Let_def)
  next
    case plain
    let ?vt = "rt_small_typeof rt (unat ?t div 8)"
    have "typed_ok rt m a ?vt"
      using assms plain by (simp add: object_wf_def Let_def)
    moreover have "scan_julia_object rt m a = scan_with_type rt m a ?vt"
      using plain by (simp add: scan_julia_object_def special_tag_def Let_def small_typeof_plain)
    ultimately show ?thesis
      using visits_slot_refs [OF visits_typed] plain by (simp add: refers_def Let_def)
  next
    case svec
    then have "scan_julia_object rt m a = scan_simplevector m a"
      by (intro scan_svec_dispatch) (simp_all add: not_special_def special_tag_def)
    moreover have "unat a + 8 * unat (mmtk_jl_svec_len m a) + 16 < 2 ^ 64"
      using assms svec by (simp add: object_wf_def Let_def plain_small_tags_eq)
    then have "visits m (scan_simplevector m a) (word_refs m (a + 8) (unat (mmtk_jl_svec_len m a)) 8)"
      by (simp add: simplevector_slots visits_slots_at)
    from visits_slot_refs [OF this] show ?thesis
      using svec calculation by (simp add: refers_def Let_def plain_small_tags_eq)
  next
    case module
    then have "scan_julia_object rt m a = scan_module rt m a"
      by (intro scan_module_dispatch) (simp_all add: not_special_def special_tag_def)
    moreover have "visits m (scan_module rt m a) (module_refs rt m a)"
      using assms module by (intro visits_module) (simp add: object_wf_def Let_def plain_small_tags_eq)
    from visits_slot_refs [OF this] show ?thesis
      using module calculation by (simp add: refers_def Let_def plain_small_tags_eq)
  next
    case task
    then have "scan_julia_object rt m a = scan_task rt m a"
      by (intro scan_task_dispatch) (simp_all add: not_special_def special_tag_def)
    moreover have "task_ok rt m a"
      using assms task by (simp add: object_wf_def Let_def plain_small_tags_eq)
    ultimately show ?thesis
      using task visits_task by (simp add: refers_def Let_def plain_small_tags_eq)
  next
    case small
    then show ?thesis
      by (simp add: scan_julia_object_def scan_small_tag_def refers_def special_tag_def slot_refs_def Let_def)
  next
    case typed
    have n: "?t \<notin> set plain_small_tags" "?t \<noteq> tag_word Jl_simplevector_tag"
      "?t \<noteq> tag_word Jl_module_tag" "?t \<noteq> tag_word Jl_task_tag"
      using typed(2) plain_small_tags_below [of ?t] by auto
    have d: "is_datatype m ?t" "typed_ok rt m a ?t"
      using assms typed n unfolding object_wf_def Let_def by (simp_all only: if_False)
    have "scan_julia_object rt m a = scan_with_type rt m a ?t"
      using typed d(1) scan_typed_dispatch [of m a ?t rt]
      by (simp add: not_special_def special_tag_def check_datatype_ok not_less)
    moreover have "refers rt m a b \<longleftrightarrow> Some b \<in> set (typed_refs rt m a ?t)" for b
      using typed n unfolding refers_def Let_def by (simp only: if_False)
    ultimately show ?thesis
      using visits_slot_refs [OF visits_typed [OF d(2)]] by simp
  qed
qed

section \<open>Tracing\<close>

text \<open>
  What mmtk-core does with the binding: it marks the roots, scans what is marked and marks what the
  visited slots hold. Any set of marked objects closed under this is a \<open>tracer\<close>; the least one is
  \<open>traced\<close>.
\<close>

locale tracer =
  fixes marked :: "addr \<Rightarrow> bool" and roots :: "addr set" and rt :: runtime and m :: memory
  assumes root_marked: "r \<in> roots \<Longrightarrow> marked r"
    and scanned_marked: "marked a \<Longrightarrow> scan_julia_object rt m a = Inr ss \<Longrightarrow> s \<in> set ss \<Longrightarrow>
      slot_load word_slot m s = Some b \<Longrightarrow> marked b"
begin

lemma referent_marked: "marked a \<Longrightarrow> object_wf rt m a \<Longrightarrow> refers rt m a b \<Longrightarrow> marked b"
proof -
  assume a: "marked a" and wf: "object_wf rt m a" and r: "refers rt m a b"
  obtain ss where ss: "scan_julia_object rt m a = Inr ss" "slot_refs m ss = {b. refers rt m a b}"
    using scan_refers [OF wf] by blast
  then have "b \<in> slot_refs m ss"
    using r by simp
  then show "marked b"
    using scanned_marked [OF a ss(1)] by (auto simp: slot_refs_def)
qed

lemma reachable_marked:
  assumes "rtranclp (refers rt m) r b" and "marked r"
    and "\<And>a. rtranclp (refers rt m) r a \<Longrightarrow> object_wf rt m a"
  shows "marked b"
  using assms(1)
proof (induction rule: rtranclp_induct)
  case (step a b)
  then show ?case
    using assms(3) by (blast intro: referent_marked)
qed (rule assms(2))

end

inductive traced :: "runtime \<Rightarrow> memory \<Rightarrow> addr set \<Rightarrow> addr \<Rightarrow> bool" for rt m roots where
  root: "r \<in> roots \<Longrightarrow> traced rt m roots r"
| scan: "traced rt m roots a \<Longrightarrow> scan_julia_object rt m a = Inr ss \<Longrightarrow> s \<in> set ss \<Longrightarrow>
    slot_load word_slot m s = Some b \<Longrightarrow> traced rt m roots b"

interpretation least_tracer: tracer "traced rt m roots" roots rt m
  by unfold_locales (rule traced.intros, assumption+)+

lemma traced_iff_reachable:
  assumes "\<And>r a. r \<in> roots \<Longrightarrow> rtranclp (refers rt m) r a \<Longrightarrow> object_wf rt m a"
  shows "traced rt m roots b \<longleftrightarrow> (\<exists>r \<in> roots. rtranclp (refers rt m) r b)"
proof
  assume "traced rt m roots b"
  then show "\<exists>r \<in> roots. rtranclp (refers rt m) r b"
  proof (induction rule: traced.induct)
    case (scan a ss s b)
    then obtain r where r: "r \<in> roots" "rtranclp (refers rt m) r a"
      by blast
    then have "slot_refs m ss = {b. refers rt m a b}"
      using scan_refers [OF assms [OF r]] scan(2) by auto
    then have "refers rt m a b"
      using scan(3,4) by (auto simp: slot_refs_def)
    then show ?case
      using r by (blast intro: rtranclp.rtrancl_into_rtrancl)
  qed auto
next
  assume "\<exists>r \<in> roots. rtranclp (refers rt m) r b"
  then show "traced rt m roots b"
    using assms by (blast intro: least_tracer.reachable_marked traced.root)
qed

section \<open>From the stacks of a thread\<close>

lemma slot_buffer_refs: "set (slot_buffer word_slot m ss) = slot_refs m ss"
  by (induction ss) (auto simp: slot_buffer_def slot_refs_def map_filter_simps split: option.splits)

lemma scanned_stack_ok:
  assumes "mmtk_scan_gcstack rt m ta = Inr ss"
  shows "stack_ok rt m ta"
  using assms gcstack_slots_Some
  by (fastforce simp: mmtk_scan_gcstack_def Let_def rbind_eq_Inr returns_eq_Inr stack_ok_def split: if_splits)

lemma scan_gcstack_refs_set: "mmtk_scan_gcstack rt m ta = Inr ss \<Longrightarrow> slot_refs m ss = {b. stack_ref rt m ta b}"
  using gcstack_refs scanned_stack_ok by fastforce

lemma scan_task_roots:
  "root_scan_tasks word_slot rt m ts = Inr (slots, nodes) \<Longrightarrow>
    set slots = {b. \<exists>t r. (t, r) \<in> set ts \<and> t \<noteq> 0 \<and> stack_ref rt m t b}
    \<and> set nodes = {t. t \<noteq> 0 \<and> (t, True) \<in> set ts}"
proof (induction ts arbitrary: slots nodes)
  case (Cons u ts)
  obtain u1 u2 where u: "u = (u1, u2)"
    by (cases u)
  obtain s1 n1 s2 n2 where h: "root_scan_task word_slot rt m u1 u2 = Inr (s1, n1)"
    and t: "root_scan_tasks word_slot rt m ts = Inr (s2, n2)"
    and eq: "slots = s1 @ s2" "nodes = n1 @ n2"
    using Cons.prems by (auto simp: u rbind_eq_Inr)
  have "set s1 = {b. u1 \<noteq> 0 \<and> stack_ref rt m u1 b}" "set n1 = {t. t = u1 \<and> u1 \<noteq> 0 \<and> u2}"
    using h by (auto simp: root_scan_task_def rbind_eq_Inr slot_buffer_refs scan_gcstack_refs_set
        split: if_splits)
  then show ?case
    using Cons.IH [OF t] by (auto simp: eq u)
qed simp

text \<open>
  The roots of a thread, what the collector is to keep alive for it: what the stacks of its own and
  its live tasks refer to, its own tasks, its pending exception and the values in its backtrace.
\<close>

definition own_task :: "memory \<Rightarrow> addr \<Rightarrow> addr \<Rightarrow> bool" where
  "own_task m ptls t \<longleftrightarrow>
     t \<in> ptls_word m ptls ` {''root_task'', ''current_task'', ''next_task'', ''previous_task''}"

definition thread_root :: "runtime \<Rightarrow> memory \<Rightarrow> addr \<Rightarrow> addr \<Rightarrow> bool" where
  "thread_root rt m ptls r \<longleftrightarrow>
     (\<exists>t. t \<noteq> 0 \<and> (own_task m ptls t \<or> t \<in> set (live_tasks m ptls)) \<and> stack_ref rt m t r)
     \<or> r \<noteq> 0 \<and> own_task m ptls r
     \<or> r \<noteq> 0 \<and> r = ptls_word m ptls ''previous_exception''
     \<or> (\<exists>vs. bt_roots m (ptls_word m ptls ''bt_data'') (ptls_word m ptls ''bt_size'') 0 = Some vs
          \<and> r \<in> set vs)"

lemma thread_tasks_iff:
  "(t, is_root) \<in> set (thread_tasks m ptls) \<longleftrightarrow>
    own_task m ptls t \<and> is_root \<or> t \<in> set (live_tasks m ptls) \<and> \<not> is_root"
  by (auto simp: thread_tasks_def own_task_def)

definition reported_roots :: "work_log \<Rightarrow> addr set" where
  "reported_roots f = set (concat (pinning_work f @ tpinning_work f))"

lemma thread_roots_reported:
  assumes "scan_roots_in_mutator_thread word_slot rt m ptls fac = Inr f"
    and "pinning_work fac = []" and "tpinning_work fac = []"
  shows "reported_roots f = {r. thread_root rt m ptls r}"
proof -
  obtain stack_refs task_nodes bt_nodes where
    t: "root_scan_tasks word_slot rt m (thread_tasks m ptls) = Inr (stack_refs, task_nodes)"
    and b: "bt_roots m (ptls_word m ptls ''bt_data'') (ptls_word m ptls ''bt_size'') 0 = Some bt_nodes"
    using assms(1) by (auto simp: scan_roots_in_mutator_thread_def rbind_eq_Inr returns_eq_Inr Let_def)
  then have "concat (tpinning_work f) = stack_refs"
    and "concat (pinning_work f) = task_nodes
      @ (if ptls_word m ptls ''previous_exception'' \<noteq> 0
         then [ptls_word m ptls ''previous_exception''] else []) @ bt_nodes"
    using mutator_roots_log [OF t b, of fac] assms by auto
  then have "reported_roots f = set task_nodes \<union> set stack_refs \<union> set bt_nodes
      \<union> {r. r = ptls_word m ptls ''previous_exception'' \<and> r \<noteq> 0}"
    by (auto simp: reported_roots_def)
  then show ?thesis
    using scan_task_roots [OF t] b by (auto simp: thread_root_def thread_tasks_iff)
qed

text \<open>
  C2: no live object is lost. Tracing from the roots \<^verbatim>\<open>scan_roots_in_mutator_thread\<close> reports for a
  thread, by scanning every object found with \<^verbatim>\<open>scan_julia_object\<close> and following the slots it
  visits, finds exactly the objects a Julia program can reach from the thread: from the stacks of
  its live tasks, its root, current, next and previous task, its pending exception and its
  backtrace, along the references the types of the objects describe.
\<close>

theorem thread_objects_traced:
  assumes "scan_roots_in_mutator_thread word_slot rt m ptls fac = Inr f"
    and "pinning_work fac = []" and "tpinning_work fac = []"
    and "\<And>r a. thread_root rt m ptls r \<Longrightarrow> rtranclp (refers rt m) r a \<Longrightarrow> object_wf rt m a"
  shows "traced rt m (reported_roots f) b \<longleftrightarrow>
    (\<exists>r. thread_root rt m ptls r \<and> rtranclp (refers rt m) r b)"
  using traced_iff_reachable [of "reported_roots f" rt m b] thread_roots_reported [OF assms(1-3)] assms(4)
  by simp

text \<open>
  A thread whose root task has one frame on its stack, which refers to a vector of one string.
\<close>

definition live_memory :: memory where
  "live_memory = poke [(0x108a0, 0x9000), (0x8ff8, 176), (0x9098, 0x5000), (0x5000, 4), (0x5010, 0xb000),
     (0xaff8, 144), (0xb000, 1), (0xb008, 0xd000), (0xcff8, 160)]"

lemma live_loads:
  "mmtk_jl_typetagof live_memory 0x9000 = 176" "mmtk_jl_typetagof live_memory 0xb000 = 144"
  "mmtk_jl_typetagof live_memory 0xd000 = 160" "mmtk_jl_svec_len live_memory 0xb000 = 1"
  "load64 live_memory 0xb008 = 0xd000" "load64 live_memory 0x9098 = 0x5000"
  "load64 live_memory 0x90b0 = 0" "load64 live_memory 0x5000 = 4" "load64 live_memory 0x5008 = 0"
  "load64 live_memory 0x5010 = 0xb000" "load64 live_memory (ta_stkbuf_slot 0x9000) = 0"
  "dt_layout live_memory 5120 = 0"
  by (simp_all add: live_memory_def mmtk_jl_typetagof_def mmtk_jl_svec_len_def dt_layout_def
      ta_stkbuf_slot_def ta_ctx_def load64_poke apart_def)

lemma live_layout:
  "ly_npointers live_memory 0 = 0" "ly_nfields live_memory 0 = 0" "ly_flags live_memory 0 = [0, 0]"
  by (simp_all add: live_memory_def ly_npointers_def ly_nfields_def ly_flags_def bytes_at_2 poke_byte
      load32_bytes)

lemma live_thread:
  "thread_tasks live_memory 0x10000 = [(0x9000, True), (0, True), (0, True), (0, True)]"
  "ptls_word live_memory 0x10000 ''previous_exception'' = 0"
  "ptls_word live_memory 0x10000 ''bt_size'' = 0"
  by (simp_all add: thread_tasks_def ptls_word_def live_tasks_def live_memory_def load64_poke apart_def)

lemma live_stack:
  "\<exists>ss. mmtk_scan_gcstack sample_runtime live_memory 0x9000 = Inr ss \<and> slot_refs live_memory ss = {0xb000}"
proof -
  let ?w = "\<lparr>sw_offset = 0, sw_lb = 0, sw_ub = - 1\<rparr> :: stack_window"
  have rd: "read_stack ?w m a = load64 m a" for m a
    by (simp add: read_stack_def get_stack_addr_def)
  have nc: "\<not> copied_stack sample_runtime live_memory 0x9000"
    by (simp add: copied_stack_def live_loads)
  have "gcstack_slots ?w live_memory 0x5000 = Some (gcframe_slots ?w live_memory 0x5000)"
    by (subst gcstack_slots.simps) (simp add: gf_prev_def rd live_loads)
  then have "mmtk_scan_gcstack sample_runtime live_memory 0x9000 = Inr (gcframe_slots ?w live_memory 0x5000)"
    using nc by (simp add: mmtk_scan_gcstack_def stack_window_of_def live_loads)
  moreover have "frame_refs ?w live_memory 0x5000 = [Some 0xb000]"
    by (simp add: frame_refs_def gf_nroots_def frame_entries_def rd live_loads gc_ptr_tag_def objref_def)
  then have "slot_refs live_memory (gcframe_slots ?w live_memory 0x5000) = {0xb000}"
    unfolding slot_refs_map gcframe_slots_refs by simp
  ultimately show ?thesis
    by simp
qed

lemma live_stack_ref: "stack_ref sample_runtime live_memory 0x9000 b \<longleftrightarrow> b = 0xb000"
  using live_stack scan_gcstack_refs_set by fastforce

lemma live_refers:
  "refers sample_runtime live_memory 0x9000 b \<longleftrightarrow> b = 0xb000"
  "refers sample_runtime live_memory 0xb000 b \<longleftrightarrow> b = 0xd000"
  "\<not> refers sample_runtime live_memory 0xd000 b"
  by (simp_all add: refers_def special_tag_def plain_small_tags_eq live_loads live_stack_ref
      field_refs_def live_layout word_refs_def objref_def del: load_entry.simps)

lemma live_wf: "a \<in> {0x9000, 0xb000, 0xd000} \<Longrightarrow> object_wf sample_runtime live_memory a"
proof -
  have "mmtk_jl_dt_layout_ptrs live_memory 0 = 20"
    by (simp add: mmtk_jl_dt_layout_ptrs_def mmtk_jl_dt_layout_fields_def mmtk_jl_fielddesc_size_def
        live_layout)
  moreover have "stack_ok sample_runtime live_memory 0x9000"
    using live_stack scanned_stack_ok by blast
  moreover assume "a \<in> {0x9000, 0xb000, 0xd000}"
  ultimately show ?thesis
    by (auto simp: object_wf_def special_tag_def plain_small_tags_eq live_loads task_ok_def layout_ok_def
        live_layout)
qed

lemma live_reachable:
  "rtranclp (refers sample_runtime live_memory) r a \<Longrightarrow> r \<in> {0x9000, 0xb000} \<Longrightarrow>
    a \<in> {0x9000, 0xb000, 0xd000}"
  by (induction rule: rtranclp_induct) (auto simp: live_refers)

lemma live_backtrace: "bt_roots live_memory data 0 0 = Some []"
  by (subst bt_roots.simps) simp

lemma live_roots: "thread_root sample_runtime live_memory 0x10000 r \<longleftrightarrow> r \<in> {0x9000, 0xb000}"
proof -
  have own: "t \<noteq> 0 \<and> own_task live_memory 0x10000 t \<longleftrightarrow> t = 0x9000" for t
    using thread_tasks_iff [of t True live_memory "0x10000"] by (auto simp: live_thread)
  have none: "t \<notin> set (live_tasks live_memory 0x10000)" for t
    using thread_tasks_iff [of t False live_memory "0x10000"] by (auto simp: live_thread)
  have "(\<exists>t. t \<noteq> 0 \<and> (own_task live_memory 0x10000 t \<or> t \<in> set (live_tasks live_memory 0x10000))
      \<and> stack_ref sample_runtime live_memory t r) \<longleftrightarrow> r = 0xb000"
    using own none live_stack_ref by metis
  then show ?thesis
    using own unfolding thread_root_def live_thread(2,3) live_backtrace by auto
qed

theorem thread_objects_traced_witness:
  "\<exists>f. scan_roots_in_mutator_thread word_slot sample_runtime live_memory 0x10000
      \<lparr>roots_work = [], pinning_work = [], tpinning_work = []\<rparr> = Inr f
    \<and> traced sample_runtime live_memory (reported_roots f) 0xd000
    \<and> \<not> traced sample_runtime live_memory (reported_roots f) 0xe000"
proof -
  let ?fac = "\<lparr>roots_work = [], pinning_work = [], tpinning_work = []\<rparr> :: work_log"
  obtain ss where ss: "mmtk_scan_gcstack sample_runtime live_memory 0x9000 = Inr ss"
    using live_stack by blast
  obtain f where f: "scan_roots_in_mutator_thread word_slot sample_runtime live_memory 0x10000 ?fac = Inr f"
    by (auto simp: scan_roots_in_mutator_thread_def live_thread live_backtrace root_scan_task_def ss Let_def)
  have wf: "object_wf sample_runtime live_memory a"
    if "thread_root sample_runtime live_memory 0x10000 r" "rtranclp (refers sample_runtime live_memory) r a" for r a
    using that live_reachable live_roots live_wf by blast
  have t: "traced sample_runtime live_memory (reported_roots f) b \<longleftrightarrow>
      (\<exists>r. thread_root sample_runtime live_memory 0x10000 r
        \<and> rtranclp (refers sample_runtime live_memory) r b)" for b
    by (rule thread_objects_traced [OF f _ _ wf]) simp_all
  have "rtranclp (refers sample_runtime live_memory) 0xb000 0xd000"
    by (rule r_into_rtranclp) (simp add: live_refers)
  then have "traced sample_runtime live_memory (reported_roots f) 0xd000"
    unfolding t live_roots by blast
  moreover have "\<not> rtranclp (refers sample_runtime live_memory) r 0xe000" if "r \<in> {0x9000, 0xb000}" for r
    using live_reachable [OF _ that, of "0xe000"] by auto
  then have "\<not> traced sample_runtime live_memory (reported_roots f) 0xe000"
    unfolding t live_roots by blast
  ultimately show ?thesis
    using f by blast
qed

end
