(* ===== verification/Moved_Graph.thy ===== *)
theory Moved_Graph
  imports Reachability Evacuation
begin

text \<open>
  Moving an object keeps the object graph. Once an object of an ordinary type has been copied, the
  copy scanned and its slots forwarded, the copy refers to the new addresses of what the object
  referred to, and to nothing else: \<open>Evacuation\<close> speaks of the slots, this theory of the references,
  read off the type again in the memory the collector leaves behind.
\<close>

section \<open>What forwarding overwrites\<close>

lemma slot_store_same_on:
  "simple_slot_ok ops \<Longrightarrow> S \<inter> span (slot_place s) 8 = {} \<Longrightarrow> same_on S m (slot_store ops m s v)"
  by (cases s) (auto simp: simple_slot_ok_def offset_store_def Let_def intro: store64_same_on)

lemma forward_slots_same_on:
  assumes "simple_slot_ok ops" and "\<And>s. s \<in> set ss \<Longrightarrow> S \<inter> span (slot_place s) 8 = {}"
  shows "same_on S m (forward_slots ops f m ss)"
  using assms(2)
proof (induction ss arbitrary: m)
  case (Cons s ss)
  have "same_on S m (case slot_load ops m s of None \<Rightarrow> m | Some obj \<Rightarrow> slot_store ops m s (f obj))"
    using slot_store_same_on [OF assms(1), of S s] Cons.prems [of s]
    by (cases "slot_load ops m s") (simp_all add: same_on_def)
  then show ?case
    using Cons.IH Cons.prems by (auto simp: forward_slots_def intro: same_on_trans)
qed (simp add: forward_slots_def same_on_def)

text \<open>The slots of an object of an ordinary type start behind its header.\<close>

lemma load_entry_less: "unat (load_entry w m p) < 2 ^ 32"
proof -
  have "unat (load8 m p) < 2 ^ LENGTH(8)" "unat (load16 m p) < 2 ^ LENGTH(16)"
    "unat (load32 m p) < 2 ^ LENGTH(32)"
    by (rule unsigned_less)+
  then show ?thesis
    by (simp add: unsigned_ucast_eq take_bit_nat_eq_self)
qed

lemma field_slots_behind_header:
  assumes "s \<in> set (field_slots m vt obj)"
  shows "8 \<le> unat (slot_place s - (obj - 8))"
proof -
  obtain w p where s: "slot_place s = obj + load_entry w m p * 8"
    using assms by (auto simp: field_slots_def pointer_slots_def Let_def simp del: load_entry.simps)
  have "unat (load_entry w m p * 8 + 8) = unat (load_entry w m p) * 8 + 8"
    using load_entry_less [of w m p] by (simp add: unat_word_ariths del: load_entry.simps)
  then show ?thesis
    by (simp add: s algebra_simps del: load_entry.simps)
qed

lemma slot_span_in_copy:
  assumes "unat (p - (obj - 8)) + 8 \<le> n" and "8 \<le> unat (p - (obj - 8))" and "n < 2 ^ 64"
    and "x \<in> span (p + (a + 8 - obj)) 8"
  shows "x \<in> span a n" and "x \<notin> span a 8"
proof -
  let ?i = "x - (p + (a + 8 - obj))" and ?k = "p - (obj - 8)"
  have e: "x - a = ?i + ?k"
    by (simp add: algebra_simps)
  have "unat ?i < 8"
    using assms(4) by (simp add: span_def)
  then have "unat (x - a) = unat ?i + unat ?k"
    unfolding e using assms(1,3) by (intro unat_add_lem [THEN iffD1]) simp
  then show "x \<in> span a n" "x \<notin> span a 8"
    using assms(1,2) \<open>unat ?i < 8\<close> by (simp_all add: span_def)
qed

lemma plain_object_wf: "plain_object rt m obj \<Longrightarrow> object_wf rt m obj"
  using plain_small_tags_below [of "mmtk_jl_typetagof m obj"]
  by (auto simp: plain_object_def object_wf_def typed_ok_def layout_ok_def special_tag_def not_special_def
      Let_def)

text \<open>After the copy and the forwarding the new object still has the type, and its slots.\<close>

lemma evacuated_scan:
  fixes f :: "addr \<Rightarrow> addr"
  assumes "plain_object rt m obj" and "copyable rt cc meta m obj bytes"
    and "scan_julia_object rt m obj = Inr ss" and "slots_inside obj bytes ss" and "simple_slot_ok ops"
  defines "a \<equiv> alloc_copy cc m obj bytes 16 8"
  defines "ss' \<equiv> map (slot_shift (a + 8 - obj)) ss"
  defines "m2 \<equiv> forward_slots ops f (copied cc m obj bytes) ss'"
  shows "plain_object rt m2 (a + 8)" and "scan_julia_object rt m2 (a + 8) = Inr ss'"
proof -
  let ?vt = "mmtk_jl_typetagof m obj"
  have ss: "ss = field_slots m ?vt obj"
    using assms(3) plain_object_scan [OF assms(1)] by simp
  have inside: "x \<in> span a (unat bytes)" "x \<notin> span a 8"
    if s: "s \<in> set ss" and x: "x \<in> span (slot_place s + (a + 8 - obj)) 8" for s x
    using slot_span_in_copy [of "slot_place s" obj "unat bytes" x a] x s assms(4)
      field_slots_behind_header [of s m ?vt obj] word_max_64 [of bytes]
    by (auto simp: ss slots_inside_def)
  have "type_bytes m obj \<inter> span a (unat bytes) = {}"
    using assms(2) by (auto simp: copyable_def a_def)
  then have "same_on (type_bytes m obj) (copied cc m obj bytes) m2"
    unfolding m2_def using inside by (intro forward_slots_same_on [OF assms(5)]) (auto simp: ss'_def)
  then have same: "same_on (type_bytes m obj) m m2"
    using object_copy_plain(2) [OF assms(1,2)] by (rule same_on_trans [rotated])
  have "same_on (span a 8) (copied cc m obj bytes) m2"
    unfolding m2_def using inside by (intro forward_slots_same_on [OF assms(5)]) (auto simp: ss'_def)
  then have "mmtk_jl_typetagof m2 (a + 8) = mmtk_jl_typetagof (copied cc m obj bytes) (a + 8)"
    by (intro header_same_on [where n = 8]) simp_all
  also have "\<dots> = ?vt"
    using assms(2) unfolding a_def by (intro copied_header) (simp_all add: copyable_def)
  finally have h: "mmtk_jl_typetagof m2 (a + 8) = ?vt" .
  note p = plain_object_same [OF assms(1) same h]
  show "plain_object rt m2 (a + 8)"
    by (rule p(1))
  then show "scan_julia_object rt m2 (a + 8) = Inr ss'"
    using plain_object_scan field_slots_shift [of m ?vt "a + 8" obj] h by (simp add: p(2) ss'_def ss)
qed

section \<open>The references of an evacuated object\<close>

lemma forwarded_refs:
  "Some b \<in> set (map (map_option f) rs) \<longleftrightarrow> (\<exists>a. Some a \<in> set rs \<and> b = f a)"
  by (simp add: image_iff) (metis map_option_eq_Some)

lemma slot_refs_forwarded:
  assumes "map (slot_load word_slot m') ss' = map (map_option f) (map (slot_load word_slot m) ss)"
  shows "slot_refs m' ss' = f ` slot_refs m ss"
  by (auto simp only: slot_refs_map assms forwarded_refs)

text \<open>
  C6: moving an object keeps its references. When an object with pointer fields has been copied, the
  copy scanned and each of its slots loaded, forwarded and stored back, what the new object refers
  to by its type is exactly the new address of each object the old one referred to; scanning it
  again visits the same slots.
\<close>

theorem evacuated_object_refers:
  assumes "plain_object rt m obj" and "copyable rt cc meta m obj bytes"
    and "scan_julia_object rt m obj = Inr ss" and "slots_inside obj bytes ss"
    and "sorted_wrt slots_apart ss" and "\<And>a. f a \<noteq> 0"
  shows "\<exists>to_obj m' ss'. object_copy rt cc m obj = Inr (to_obj, m')
    \<and> scan_julia_object rt m' to_obj = Inr ss'
    \<and> scan_julia_object rt (forward_slots word_slot f m' ss') to_obj = Inr ss'
    \<and> (\<forall>b'. refers rt (forward_slots word_slot f m' ss') to_obj b' \<longleftrightarrow> (\<exists>b. refers rt m obj b \<and> b' = f b))"
proof -
  let ?m = "copied cc m obj bytes" and ?to = "alloc_copy cc m obj bytes 16 8 + 8"
  let ?ss = "map (slot_shift (?to - obj)) ss"
  let ?m2 = "forward_slots word_slot f ?m ?ss"
  have ok: "copy_context_ok cc"
    using assms(2) by (simp add: copyable_def)
  note e = evacuated_scan [OF assms(1-4) word_slot_ok, of f]
  have "slot_refs ?m2 ?ss = {b. refers rt ?m2 ?to b}"
    using scan_refers [OF plain_object_wf [OF e(1)]] e(2) by simp
  moreover have "slot_refs m ss = {b. refers rt m obj b}"
    using scan_refers [OF plain_object_wf [OF assms(1)]] assms(3) by simp
  moreover have "map (slot_load word_slot ?m2) ?ss = map (map_option f \<circ> slot_load word_slot ?m) ?ss"
    using assms(5,6) by (intro forward_slots_map) (simp_all add: sorted_wrt_map)
  then have "map (slot_load word_slot ?m2) ?ss = map (map_option f) (map (slot_load word_slot m) ss)"
    by (simp add: copied_slots_load [OF word_slot_ok ok assms(4)])
  then have "slot_refs ?m2 ?ss = f ` slot_refs m ss"
    by (rule slot_refs_forwarded)
  ultimately have "refers rt ?m2 ?to b' \<longleftrightarrow> (\<exists>b. refers rt m obj b \<and> b' = f b)" for b'
    by auto
  then show ?thesis
    using object_copy_plain(1) [OF assms(1,2)] copied_scan [OF assms(1-3)] e(2) by simp
qed

lemma sample_pair_apart: "sorted_wrt slots_apart [Simple 0x9000, Simple 0x9008]"
  by (simp add: slots_apart_def apart_def)

lemma sample_pair_refers: "refers sample_runtime sample_pair 0x9000 b \<longleftrightarrow> b = 0x5000"
  using scan_refers [OF plain_object_wf [OF sample_pair_plain]]
  by (auto simp: sample_pair_scan slot_refs_def sample_pair_loads)

theorem evacuated_object_refers_witness:
  "\<exists>to_obj m' ss'. object_copy sample_runtime sample_copy_context sample_pair 0x9000 = Inr (to_obj, m')
    \<and> scan_julia_object sample_runtime m' to_obj = Inr ss'
    \<and> scan_julia_object sample_runtime (forward_slots word_slot (\<lambda>_. 0x30000010000) m' ss') to_obj = Inr ss'
    \<and> (\<forall>b'. refers sample_runtime (forward_slots word_slot (\<lambda>_. 0x30000010000) m' ss') to_obj b'
          \<longleftrightarrow> b' = 0x30000010000)"
  using evacuated_object_refers [OF sample_pair_plain sample_pair_copyable sample_pair_scan
      sample_pair_slots sample_pair_apart, of "\<lambda>_. 0x30000010000"]
  by (simp add: sample_pair_refers)

end
