(* ===== verification/Moved_Vector.thy ===== *)
theory Moved_Vector
  imports Moved_Graph
begin

text \<open>
  The same as \<open>Moved_Graph\<close> for simple vectors, whose references are not listed by a type but follow
  their length.
\<close>

section \<open>A vector that moves\<close>

definition movable_vector ::
    "runtime \<Rightarrow> copy_context \<Rightarrow> addr set \<Rightarrow> memory \<Rightarrow> addr \<Rightarrow> usize \<Rightarrow> bool" where
  "movable_vector rt cc meta m v bytes \<longleftrightarrow>
     copy_context_ok cc \<and> side_metadata cc meta \<and> \<not> debug_assertions cc
     \<and> \<not> is_object_in_los v \<and> JULIA_HEADER_SIZE rt = 8 \<and> not_special rt 144
     \<and> mmtk_jl_typetagof m v = tag_word Jl_simplevector_tag
     \<and> object_type rt m v \<noteq> JULIA_BUFF_TAG rt
     \<and> dt_name m (object_type rt m v) \<noteq> rt_genericmemory_typename rt
     \<and> get_so_object_size rt m v = Inr bytes
     \<and> unat v + 8 * unat (mmtk_jl_svec_len m v) + 32 < 2 ^ 64
     \<and> unat (alloc_copy cc m v bytes 16 8) + 8 * unat (mmtk_jl_svec_len m v) + 32 < 2 ^ 64
     \<and> (span (v - 8) 8 \<union> span (object_type rt m v) 8)
        \<inter> (span (alloc_copy cc m v bytes 16 8) (unat bytes) \<union> meta) = {}"

lemma vector_bytes:
  assumes "movable_vector rt cc meta m v bytes"
  shows "16 + 8 * unat (mmtk_jl_svec_len m v) \<le> unat bytes"
proof -
  have "unat (JULIA_HEADER_SIZE rt) + (8 + 8 * unat (mmtk_jl_svec_len m v)) + 16 \<le> 2 ^ 64"
    using assms by (simp add: movable_vector_def)
  then have "unat bytes = round_up (8 + 8 * unat (mmtk_jl_svec_len m v) + 8) 16"
    using svec_object_size [of m v rt] assms by (simp add: movable_vector_def not_special_def)
  also have "\<dots> \<ge> 16 + 8 * unat (mmtk_jl_svec_len m v)"
    unfolding round_up_def by presburger
  finally show ?thesis .
qed

lemma movable_vector_copy:
  assumes "movable_vector rt cc meta m v bytes"
  shows "object_copy rt cc m v = Inr (alloc_copy cc m v bytes 16 8 + 8, copied cc m v bytes)"
proof -
  have "object_ok rt m v"
    using assms by (simp add: movable_vector_def object_ok_def not_special_def)
  then show ?thesis
    using assms object_copy_eq [of cc meta v rt m bytes] by (simp add: movable_vector_def)
qed

lemma moved_vector_word:
  assumes "movable_vector rt cc meta m v bytes" and "k \<le> unat (mmtk_jl_svec_len m v)"
  shows "load64 (copied cc m v bytes) (alloc_copy cc m v bytes 16 8 + 8 + of_nat k * 8) = load64 m (v + of_nat k * 8)"
proof -
  have b: "k * 8 + 8 + 8 \<le> unat bytes"
    using vector_bytes [OF assms(1)] assms(2) by simp
  then have "unat (of_nat (k * 8 + 8) :: addr) = k * 8 + 8"
    using word_max_64 [of bytes] by (intro unat_of_nat_64) simp
  moreover have "v + of_nat k * 8 - (v - 8) = of_nat (k * 8 + 8)"
    by simp
  ultimately have "unat (v + of_nat k * 8 - (v - 8)) + 8 \<le> unat bytes"
    using b by presburger
  from copied_load [OF _ this, of cc m] show ?thesis
    using assms(1) by (simp add: movable_vector_def algebra_simps)
qed

lemma slots_at_apart:
  assumes "8 * n + 8 < 2 ^ 64"
  shows "sorted_wrt slots_apart (slots_at b n 8)"
  unfolding slots_at_def sorted_wrt_map
proof (rule sorted_wrt_mono_rel [OF _ sorted_wrt_upt])
  fix i j assume "i \<in> set [0..<n]" "j \<in> set [0..<n]" "i < j"
  then have "i * 8 + 8 \<le> j * 8" "i * 8 + 8 < 2 ^ 64" "j * 8 + 8 < 2 ^ 64"
    using assms by simp_all
  then show "slots_apart (Simple (b + of_nat i * 8)) (Simple (b + of_nat j * 8))"
    using apart_offsets [of "i * 8" "j * 8" b] by (simp add: slots_apart_def)
qed

text \<open>The header and the length of the copy survive the forwarding of its elements.\<close>

lemma forwarded_vector_same_on:
  assumes "8 * n + 24 < 2 ^ 64"
  shows "same_on (span dst 16) m (forward_slots word_slot f m (slots_at (dst + 16) n 8))"
proof (rule forward_slots_same_on)
  fix s assume "s \<in> set (slots_at (dst + 16) n 8)"
  then obtain i where i: "i < n" "s = Simple (dst + 16 + of_nat i * 8)"
    by (auto simp: slots_at_def)
  have "unat (of_nat (16 + i * 8) :: addr) = 16 + i * 8"
    using i(1) assms by (intro unat_of_nat_64) simp
  then have "unat (x - (dst + 16 + of_nat i * 8) + of_nat (16 + i * 8)) = unat (x - (dst + 16 + of_nat i * 8)) + (16 + i * 8)"
    if "unat (x - (dst + 16 + of_nat i * 8)) < 8" for x
    using that i(1) assms by (subst unat_add_no_wrap) simp_all
  then show "span dst 16 \<inter> span (slot_place s) 8 = {}"
    by (auto simp: i(2) span_def)
qed simp

lemma evacuated_vector_state:
  fixes f :: "addr \<Rightarrow> addr"
  assumes "movable_vector rt cc meta m v bytes"
  defines "n \<equiv> unat (mmtk_jl_svec_len m v)" and "to_obj \<equiv> alloc_copy cc m v bytes 16 8 + 8"
  defines "m2 \<equiv> forward_slots word_slot f (copied cc m v bytes) (slots_at (to_obj + 8) n 8)"
  shows "mmtk_jl_typetagof m2 to_obj = tag_word Jl_simplevector_tag"
    and "mmtk_jl_svec_len m2 to_obj = mmtk_jl_svec_len m v"
    and "scan_julia_object rt (copied cc m v bytes) to_obj = Inr (slots_at (to_obj + 8) n 8)"
    and "unat to_obj + 8 * n + 16 < 2 ^ 64"
proof -
  let ?m = "copied cc m v bytes" and ?dst = "alloc_copy cc m v bytes 16 8"
  have h: "mmtk_jl_typetagof ?m to_obj = tag_word Jl_simplevector_tag"
    using assms(1) vector_bytes [OF assms(1)] copied_header [of cc bytes m v]
    by (simp add: movable_vector_def to_obj_def word_le_nat_alt)
  have l: "mmtk_jl_svec_len ?m to_obj = mmtk_jl_svec_len m v"
    using moved_vector_word [OF assms(1), of 0] by (simp add: mmtk_jl_svec_len_def to_obj_def)
  have "unat to_obj = unat ?dst + 8"
    using assms(1) unfolding to_obj_def by (subst unat_add_no_wrap) (simp_all add: movable_vector_def)
  then show b: "unat to_obj + 8 * n + 16 < 2 ^ 64"
    using assms(1) by (simp add: movable_vector_def n_def)
  have "8 * n + 24 < 2 ^ 64"
    using assms(1) by (simp add: movable_vector_def n_def)
  then have "same_on (span ?dst 16) ?m m2"
    using forwarded_vector_same_on [of n ?dst ?m f] by (simp add: m2_def to_obj_def add.assoc)
  then have s: "same_on (span (to_obj - 8) 16) ?m m2"
    by (simp add: to_obj_def)
  show "mmtk_jl_typetagof m2 to_obj = tag_word Jl_simplevector_tag"
    using header_same_on [OF s] h by simp
  show "mmtk_jl_svec_len m2 to_obj = mmtk_jl_svec_len m v"
    using load64_same_on [OF s, of 8] l by (simp add: mmtk_jl_svec_len_def)
  show "scan_julia_object rt ?m to_obj = Inr (slots_at (to_obj + 8) n 8)"
    using assms(1) b h by (simp add: scan_simps l movable_vector_def n_def)
qed

section \<open>Its elements\<close>

lemma vector_refers:
  assumes "mmtk_jl_typetagof m v = tag_word Jl_simplevector_tag" and "not_special rt 144"
  shows "refers rt m v b \<longleftrightarrow> Some b \<in> set (word_refs m (v + 8) (unat (mmtk_jl_svec_len m v)) 8)"
  using assms by (simp add: refers_def special_tag_def not_special_def plain_small_tags_eq Let_def)

text \<open>
  C7: evacuating a simple vector is correct as a whole. It is copied, the copy is scanned, and each
  slot the scan visits is loaded, forwarded and stored back; then the copy has the length of the old
  vector, each element refers to the new address of what the old element referred to, or is null
  if that was, and what the copy refers to is exactly the new address of each object the old vector
  referred to.
\<close>

theorem evacuated_vector_elements:
  assumes "movable_vector rt cc meta m v bytes" and "\<And>a. f a \<noteq> 0"
  shows "\<exists>to_obj m' ss. object_copy rt cc m v = Inr (to_obj, m') \<and> scan_julia_object rt m' to_obj = Inr ss
    \<and> mmtk_jl_svec_len (forward_slots word_slot f m' ss) to_obj = mmtk_jl_svec_len m v
    \<and> (\<forall>i < unat (mmtk_jl_svec_len m v).
         objref (load64 (forward_slots word_slot f m' ss) (to_obj + 8 + of_nat i * 8))
           = map_option f (objref (load64 m (v + 8 + of_nat i * 8))))
    \<and> (\<forall>b'. refers rt (forward_slots word_slot f m' ss) to_obj b' \<longleftrightarrow> (\<exists>b. refers rt m v b \<and> b' = f b))"
proof -
  let ?n = "unat (mmtk_jl_svec_len m v)" and ?m = "copied cc m v bytes"
  let ?to = "alloc_copy cc m v bytes 16 8 + 8"
  let ?ss = "slots_at (?to + 8) ?n 8"
  let ?m2 = "forward_slots word_slot f ?m ?ss"
  note e = evacuated_vector_state [OF assms(1)]
  have "sorted_wrt slots_apart ?ss"
    using e(4) by (intro slots_at_apart) simp
  then have "map (slot_load word_slot ?m2) ?ss = map (map_option f \<circ> slot_load word_slot ?m) ?ss"
    using assms(2) by (intro forward_slots_map) simp_all
  then have fwd: "word_refs ?m2 (?to + 8) ?n 8 = map (map_option f) (word_refs ?m (?to + 8) ?n 8)"
    by (simp add: visits_slots_at [symmetric] del: map_eq_conv)
  have "load64 ?m (?to + 8 + of_nat i * 8) = load64 m (v + 8 + of_nat i * 8)" if "i < ?n" for i
    using moved_vector_word [OF assms(1), of "Suc i"] that by (simp add: algebra_simps)
  then have refs: "word_refs ?m2 (?to + 8) ?n 8 = map (map_option f) (word_refs m (v + 8) ?n 8)"
    unfolding fwd by (simp add: word_refs_def)
  then have "objref (load64 ?m2 (?to + 8 + of_nat i * 8)) = map_option f (objref (load64 m (v + 8 + of_nat i * 8)))"
    if "i < ?n" for i
    using that arg_cong [OF refs, of "\<lambda>xs. xs ! i"] by (simp add: word_refs_def)
  moreover have "refers rt ?m2 ?to b' \<longleftrightarrow> (\<exists>b. refers rt m v b \<and> b' = f b)" for b'
  proof -
    have v: "not_special rt 144" "mmtk_jl_typetagof m v = tag_word Jl_simplevector_tag"
      using assms(1) by (simp_all add: movable_vector_def)
    show ?thesis
      unfolding vector_refers [OF e(1) v(1)] vector_refers [OF v(2,1)] e(2) refs forwarded_refs ..
  qed
  ultimately show ?thesis
    using movable_vector_copy [OF assms(1)] e(2,3)
    by (intro exI [of _ ?to] exI [of _ ?m] exI [of _ ?ss] conjI allI impI)
qed

text \<open>A vector of two elements, one of them null.\<close>

definition sample_vector :: memory where
  "sample_vector = poke [(0x8ff8, 144), (0x9000, 2), (0x9010, 0x5000), (3200, 0x9999)]"

lemma sample_vector_loads:
  "mmtk_jl_typetagof sample_vector 0x9000 = 144" "mmtk_jl_svec_len sample_vector 0x9000 = 2"
  "load64 sample_vector 0x9008 = 0" "load64 sample_vector 0x9010 = 0x5000" "dt_name sample_vector 3200 = 0x9999"
  by (simp_all add: sample_vector_def mmtk_jl_typetagof_def mmtk_jl_svec_len_def dt_name_def load64_poke apart_def)

lemma sample_vector_movable:
  "movable_vector sample_runtime sample_copy_context {} sample_vector 0x9000 32"
proof -
  have t: "object_type sample_runtime sample_vector 0x9000 = 3200"
    by (simp add: object_type_def sample_vector_loads)
  have "(span (0x9000 - 8) 8 \<union> span 3200 8)
      \<inter> (span (alloc_copy sample_copy_context sample_vector 0x9000 32 16 8) (unat (32 :: usize)) \<union> {}) = {}"
    by (simp add: sample_copy_context_def Int_Un_distrib2 span_disjoint apart_def)
  moreover have "copy_context_ok sample_copy_context" "side_metadata sample_copy_context {}"
    "\<not> debug_assertions sample_copy_context" "JULIA_HEADER_SIZE sample_runtime = 8"
    using sample_pair_copyable by (simp_all add: copyable_def)
  moreover have "get_so_object_size sample_runtime sample_vector 0x9000 = Inr 32"
    by (simp add: get_so_object_size_def small_tag_size_def plain_small_tags_eq Let_def sample_vector_loads
        llt_align_def)
  moreover have "unat (alloc_copy sample_copy_context sample_vector 0x9000 32 16 8) = 0x30000000008"
    by (simp add: sample_copy_context_def)
  ultimately show ?thesis
    by (simp add: movable_vector_def t sample_vector_loads not_special_def is_object_in_los_def)
qed

theorem evacuated_vector_elements_witness:
  "\<exists>to_obj m' ss. object_copy sample_runtime sample_copy_context sample_vector 0x9000 = Inr (to_obj, m')
    \<and> scan_julia_object sample_runtime m' to_obj = Inr ss
    \<and> load64 (forward_slots word_slot (\<lambda>_. 0x30000005000) m' ss) (to_obj + 16) = 0x30000005000"
proof -
  let ?f = "\<lambda>a :: addr. 0x30000005000 :: addr"
  have f: "?f a \<noteq> 0" for a
    by simp
  from evacuated_vector_elements [OF sample_vector_movable f] obtain to_obj m' ss where c:
    "object_copy sample_runtime sample_copy_context sample_vector 0x9000 = Inr (to_obj, m')"
    "scan_julia_object sample_runtime m' to_obj = Inr ss"
    and el: "\<forall>i < unat (mmtk_jl_svec_len sample_vector 0x9000).
      objref (load64 (forward_slots word_slot ?f m' ss) (to_obj + 8 + of_nat i * 8))
        = map_option ?f (objref (load64 sample_vector (0x9000 + 8 + of_nat i * 8)))"
    by blast
  have "objref (load64 (forward_slots word_slot ?f m' ss) (to_obj + 16)) = Some 0x30000005000"
    using el [rule_format, of 1] by (simp add: sample_vector_loads objref_def add.commute [of to_obj])
  then have "load64 (forward_slots word_slot ?f m' ss) (to_obj + 16) = 0x30000005000"
    unfolding objref_def by (metis option.distinct(1) option.inject)
  with c show ?thesis
    by blast
qed

end
