(* ===== verification/Stack_Walk.thy ===== *)
theory Stack_Walk
  imports Julia_Scanning
begin

text \<open>
  The walk of \<^verbatim>\<open>mmtk_scan_gcstack\<close> over the frames of a shadow stack: when it returns, and what it
  has visited then.
\<close>

section \<open>Following the frames\<close>

text \<open>
  The stack as Julia sees it: the word at an address, which lies in the saved copy when the address
  is within the bounds of a copied stack, and the frame reached after following \<open>k\<close> \<^verbatim>\<open>prev\<close> pointers.
\<close>

definition stack_word :: "stack_window \<Rightarrow> memory \<Rightarrow> addr \<Rightarrow> addr" where
  "stack_word w m a = load64 m (if a \<in> {sw_lb w..<sw_ub w} then a + sw_offset w else a)"

definition frame_at :: "stack_window \<Rightarrow> memory \<Rightarrow> addr \<Rightarrow> nat \<Rightarrow> addr" where
  "frame_at w m s k = ((\<lambda>f. stack_word w m (f + 8)) ^^ k) s"

lemma gf_prev_word: "gf_prev w m s = stack_word w m (s + 8)"
  by (auto simp: gf_prev_def stack_word_def read_stack_def get_stack_addr_def)

lemma frame_at_0 [simp]: "frame_at w m s 0 = s"
  by (simp add: frame_at_def)

lemma frame_at_Suc: "frame_at w m s (Suc k) = frame_at w m (gf_prev w m s) k"
  by (simp add: frame_at_def gf_prev_word funpow_Suc_right del: funpow.simps)

lemma frame_at_add: "frame_at w m s (i + k) = frame_at w m (frame_at w m s i) k"
  by (simp add: frame_at_def funpow_add add.commute [of i])

lemma gc_chain_frames:
  assumes "frame_at w m s (Suc n) = 0" and "\<And>k. k \<in> {1..n} \<Longrightarrow> frame_at w m s k \<noteq> 0"
  shows "gc_chain w m s (map (frame_at w m s) [0..<Suc n])"
  using assms
proof (induction n arbitrary: s)
  case 0
  then show ?case
    by (simp add: frame_at_Suc)
next
  case (Suc n)
  have "gf_prev w m s \<noteq> 0"
    using Suc.prems(2) [of 1] frame_at_Suc [of w m s 0] by simp
  moreover have "gc_chain w m (gf_prev w m s) (map (frame_at w m (gf_prev w m s)) [0..<Suc n])"
    using Suc.prems(1) Suc.prems(2) [of "Suc k" for k]
    by (intro Suc.IH) (auto simp: frame_at_Suc)
  moreover have "map (frame_at w m s) [0..<Suc (Suc n)]
      = s # map (frame_at w m (gf_prev w m s)) [0..<Suc n]"
    by (simp add: upt_conv_Cons map_Suc_upt [symmetric] frame_at_Suc comp_def del: upt_Suc)
  ultimately show ?case
    by (simp del: upt_Suc)
qed

lemma gc_chain_ends: "gc_chain w m s fs \<Longrightarrow> \<exists>n. frame_at w m s (Suc n) = 0"
proof (induction fs arbitrary: s)
  case (Cons f fs)
  show ?case
  proof (cases "gf_prev w m s = 0")
    case True
    then have "frame_at w m s (Suc 0) = 0"
      by (simp add: frame_at_Suc)
    then show ?thesis ..
  next
    case False
    then obtain n where "frame_at w m (gf_prev w m s) (Suc n) = 0"
      using Cons by auto
    then have "frame_at w m s (Suc (Suc n)) = 0"
      by (simp add: frame_at_Suc)
    then show ?thesis ..
  qed
qed simp

lemma frames_distinct:
  assumes "frame_at w m s (Suc n) = 0" and "\<And>k. k \<in> {1..n} \<Longrightarrow> frame_at w m s k \<noteq> 0"
  shows "distinct (map (frame_at w m s) [0..<Suc n])"
proof -
  have "frame_at w m s i \<noteq> frame_at w m s j" if "i < j" "j \<le> n" for i j
  proof
    assume "frame_at w m s i = frame_at w m s j"
    then have "frame_at w m s (i + (Suc n - j)) = frame_at w m s (j + (Suc n - j))"
      by (simp only: frame_at_add)
    also have "j + (Suc n - j) = Suc n"
      using that by simp
    finally have "frame_at w m s (i + (Suc n - j)) = 0"
      using assms(1) by simp
    moreover have "i + (Suc n - j) \<in> {1..n}"
      using that by auto
    ultimately show False
      using assms(2) by blast
  qed
  then show ?thesis
    by (auto simp: distinct_map inj_on_def less_Suc_eq_le simp del: upt_Suc) (metis linorder_neqE_nat)
qed

text \<open>
  C33: the walk over the frames of a stack returns unless the chain of \<^verbatim>\<open>prev\<close> pointers, read through
  the bounds of a copied stack, comes back to a frame without reaching null. When it returns it
  has visited every frame up to the null pointer, innermost first and none twice, and the slots
  hold what the frames refer to.
\<close>

theorem gcstack_walk:
  "case gcstack_slots w m s of
     Some ss \<Rightarrow> \<exists>n. frame_at w m s (Suc n) = 0 \<and> (\<forall>k \<in> {1..n}. frame_at w m s k \<noteq> 0)
       \<and> distinct (map (frame_at w m s) [0..<Suc n])
       \<and> map (slot_load word_slot m) ss = concat (map (\<lambda>k. frame_refs w m (frame_at w m s k)) [0..<Suc n])
   | None \<Rightarrow> (\<exists>i j. i < j \<and> frame_at w m s i = frame_at w m s j) \<and> (\<forall>k. frame_at w m s (Suc k) \<noteq> 0)"
proof (cases "\<exists>n. frame_at w m s (Suc n) = 0")
  case True
  define n where "n = (LEAST n. frame_at w m s (Suc n) = 0)"
  have n: "frame_at w m s (Suc n) = 0"
    unfolding n_def using True by (rule LeastI_ex)
  have k: "frame_at w m s k \<noteq> 0" if "k \<in> {1..n}" for k
  proof -
    have "k - 1 < n" "Suc (k - 1) = k"
      using that by auto
    then show ?thesis
      using not_less_Least [of "k - 1" "\<lambda>n. frame_at w m s (Suc n) = 0"] by (simp add: n_def)
  qed
  have "gcstack_slots w m s = Some (concat (map (gcframe_slots w m) (map (frame_at w m s) [0..<Suc n])))"
    using n k by (intro gcstack_slots_chain gc_chain_frames)
  moreover have "map (slot_load word_slot m) (concat (map (gcframe_slots w m) (map (frame_at w m s) [0..<Suc n])))
      = concat (map (\<lambda>k. frame_refs w m (frame_at w m s k)) [0..<Suc n])"
    using gcframes_refs [of m w "map (frame_at w m s) [0..<Suc n]"] by (simp add: comp_def del: upt_Suc)
  moreover have "distinct (map (frame_at w m s) [0..<Suc n])"
    by (rule frames_distinct [OF n k])
  ultimately show ?thesis
    using n k by (simp only: option.case) (intro exI [of _ n] conjI ballI refl; assumption)
next
  case False
  have "\<not> inj (frame_at w m s)"
    using finite_imageD [of "frame_at w m s" UNIV] by auto
  then obtain i j where "i < j" "frame_at w m s i = frame_at w m s j"
    by (auto simp: inj_def) (metis linorder_neqE_nat)
  moreover have "gcstack_slots w m s = None"
    using False gcstack_slots_Some gc_chain_ends by (cases "gcstack_slots w m s") blast+
  ultimately show ?thesis
    using False by auto
qed

definition cyclic_stack :: memory where
  "cyclic_stack = poke [(0x5008, 0x6000), (0x6008, 0x5000)]"

theorem gcstack_walk_witness:
  "gcstack_slots \<lparr>sw_offset = 0, sw_lb = 0, sw_ub = - 1\<rparr> cyclic_stack 0x5000 = None
    \<and> gcstack_slots \<lparr>sw_offset = 0, sw_lb = 0, sw_ub = - 1\<rparr> (poke []) 0x5000 \<noteq> None"
proof -
  let ?w = "\<lparr>sw_offset = 0, sw_lb = 0, sw_ub = - 1\<rparr> :: stack_window"
  have "gf_prev ?w cyclic_stack 0x5000 = 0x6000" "gf_prev ?w cyclic_stack 0x6000 = 0x5000"
    by (simp_all add: gf_prev_word stack_word_def cyclic_stack_def load64_poke apart_def)
  then have "frame_at ?w cyclic_stack 0x5000 k \<noteq> 0 \<and> frame_at ?w cyclic_stack 0x6000 k \<noteq> 0" for k
    by (induction k) (simp_all add: frame_at_Suc)
  then have "frame_at ?w cyclic_stack 0x5000 (Suc n) \<noteq> 0" for n
    by blast
  then have "gcstack_slots ?w cyclic_stack 0x5000 = None"
    using gcstack_walk [of ?w cyclic_stack "0x5000"]
    by (cases "gcstack_slots ?w cyclic_stack 0x5000") (simp_all del: upt_Suc)
  moreover have "frame_at ?w (poke []) 0x5000 (Suc 0) = 0"
    by (simp add: frame_at_Suc gf_prev_word stack_word_def load64_poke)
  then have "gcstack_slots ?w (poke []) 0x5000 \<noteq> None"
    using gcstack_walk [of ?w "poke []" "0x5000"]
    by (cases "gcstack_slots ?w (poke []) 0x5000") (auto simp del: upt_Suc)
  ultimately show ?thesis
    by blast
qed

end
