(* ===== verification/Thread_Roots.thy ===== *)
theory Thread_Roots
  imports Root_Scanning Stack_Walk
begin

text \<open>
  What \<^verbatim>\<open>scan_roots_in_mutator_thread\<close> reports for a thread, from the words of the thread's state: the
  references on the stack of each of its tasks, its own tasks, its exception and its backtrace.
\<close>

section \<open>The state of a thread\<close>

text \<open>
  The tasks whose stacks belong to the thread, in the order they are scanned (the root task, the
  live tasks, the current, the next and the previous task), and those it holds itself, as words of
  \<^verbatim>\<open>_jl_tls_states_t\<close>.
\<close>

definition thread_stacks :: "memory \<Rightarrow> addr \<Rightarrow> addr list" where
  "thread_stacks m ptls = [load64 m (ptls + 2208)]
     @ map (\<lambda>i. load64 m (load64 m (ptls + 912) + of_nat i * 8)) [0..<unat (load64 m (ptls + 896))]
     @ [load64 m (ptls + 2184), load64 m (ptls + 2192), load64 m (ptls + 2200)]"

definition held_tasks :: "memory \<Rightarrow> addr \<Rightarrow> addr list" where
  "held_tasks m ptls = map (\<lambda>k. load64 m (ptls + k)) [2208, 2184, 2192, 2200]"

lemma thread_tasks_stacks: "map fst (thread_tasks m ptls) = thread_stacks m ptls"
  by (simp add: thread_tasks_def thread_stacks_def ptls_word_def live_tasks_def Let_def comp_def add.commute [of _ ptls])

lemma thread_tasks_held: "map fst (filter snd (thread_tasks m ptls)) = held_tasks m ptls"
  by (simp add: thread_tasks_def held_tasks_def ptls_word_def filter_empty_conv)

section \<open>The references on the stack of a task\<close>

text \<open>
  The frames of a stack from \<open>s\<close> to the null pointer, and all a task's stack refers to: the saved
  stack, the frames, the exceptions being handled.
\<close>

definition stack_frames :: "stack_window \<Rightarrow> memory \<Rightarrow> addr \<Rightarrow> addr list \<Rightarrow> bool" where
  "stack_frames w m s fs \<longleftrightarrow> s = 0 \<and> fs = []
     \<or> s \<noteq> 0 \<and> (\<exists>n. frame_at w m s (Suc n) = 0 \<and> (\<forall>k \<in> {1..n}. frame_at w m s k \<noteq> 0)
          \<and> fs = map (frame_at w m s) [0..<Suc n])"

definition stack_refers :: "runtime \<Rightarrow> memory \<Rightarrow> addr \<Rightarrow> addr option list \<Rightarrow> bool" where
  "stack_refers rt m ta refs \<longleftrightarrow>
     (\<exists>w fs. stack_window_of rt m ta = Inr w \<and> stack_frames w m (load64 m (ta + 152)) fs
        \<and> refs = (if copied_stack rt m ta then [objref (load64 m (ta_stkbuf_slot ta))] else [])
           @ concat (map (frame_refs w m) fs)
           @ (if load64 m (ta + 176) \<noteq> 0 then map (\<lambda>a. objref (load64 m a)) (rt_exc_slots rt m ta) else []))"

lemma scan_stack_refers:
  assumes "stack_refers rt m ta refs"
  shows "\<exists>ss. mmtk_scan_gcstack rt m ta = Inr ss \<and> map (slot_load word_slot m) ss = refs"
proof -
  let ?s = "load64 m (ta + 152)"
  obtain w fs where w: "stack_window_of rt m ta = Inr w" and fs: "stack_frames w m ?s fs"
    and refs: "refs = (if copied_stack rt m ta then [objref (load64 m (ta_stkbuf_slot ta))] else [])
      @ concat (map (frame_refs w m) fs)
      @ (if load64 m (ta + 176) \<noteq> 0 then map (\<lambda>a. objref (load64 m a)) (rt_exc_slots rt m ta) else [])"
    using assms by (auto simp: stack_refers_def)
  have "(if ?s \<noteq> 0 then returns (gcstack_slots w m ?s) else Inr []) = Inr (concat (map (gcframe_slots w m) fs))"
    using fs gc_chain_frames gcstack_slots_chain by (fastforce simp: stack_frames_def simp del: upt_Suc)
  then show ?thesis
    using w gcframes_refs [of m w fs]
    by (simp add: mmtk_scan_gcstack_def Let_def refs split del: if_split) (simp add: comp_def)
qed

section \<open>What is reported\<close>

fun present :: "addr option list \<Rightarrow> addr list" where
  "present [] = []"
| "present (None # rs) = present rs"
| "present (Some b # rs) = b # present rs"

lemma present_append [simp]: "present (rs @ rs') = present rs @ present rs'"
  by (induction rs rule: present.induct) simp_all

lemma slot_buffer_present:
  assumes "simple_slot_ok ops"
  shows "slot_buffer ops m ss = present (map (slot_load word_slot m) ss)"
proof -
  have "slot_load ops m s = slot_load word_slot m s" for s
    using assms by (cases s) (simp_all add: simple_slot_ok_def word_slot_def)
  then show ?thesis
    by (induction ss) (auto simp: slot_buffer_def map_filter_simps split: option.split)
qed

lemma root_scan_tasks_refer:
  assumes "simple_slot_ok ops" and "list_all2 (stack_refers rt m) (filter (\<lambda>t. t \<noteq> 0) (map fst ts)) refss"
  shows "root_scan_tasks ops rt m ts
    = Inr (present (concat refss), filter (\<lambda>t. t \<noteq> 0) (map fst (filter snd ts)))"
  using assms(2)
proof (induction ts arbitrary: refss)
  case Nil
  then show ?case
    by simp
next
  case (Cons u ts)
  obtain ta is_root where u: "u = (ta, is_root)"
    by (cases u)
  show ?case
  proof (cases "ta = 0")
    case True
    then show ?thesis
      using Cons by (simp add: u root_scan_task_def)
  next
    case False
    then obtain refs refss' where r: "refss = refs # refss'" "stack_refers rt m ta refs"
      and rs: "list_all2 (stack_refers rt m) (filter (\<lambda>t. t \<noteq> 0) (map fst ts)) refss'"
      using Cons.prems by (auto simp: u list_all2_Cons1)
    obtain ss where "mmtk_scan_gcstack rt m ta = Inr ss" "map (slot_load word_slot m) ss = refs"
      using scan_stack_refers [OF r(2)] by blast
    then have "root_scan_task ops rt m ta is_root = Inr (present refs, if is_root then [ta] else [])"
      using False by (simp add: root_scan_task_def slot_buffer_present [OF assms(1)])
    then show ?thesis
      using False Cons.IH [OF rs] by (simp add: u r(1))
  qed
qed

text \<open>
  C10: scanning a mutator thread reports all its roots. Suppose that the stack of every task of the
  thread ends and the backtrace buffer holds the encoding of a sequence of entries. Then the scan
  returns; the transitively pinned roots are the references on the stacks of the root task, the
  live tasks, the current, the next and the previous task; the pinned roots are the four tasks the
  thread holds itself, where they are not null, the pending exception and the values of the
  backtrace. The live tasks are scanned and not pinned. The roots come in this order, as often as
  they occur, in packets of between 1 and 4096.
\<close>

theorem mutator_roots_packets:
  assumes "simple_slot_ok ops"
    and "list_all2 (stack_refers rt m) (filter (\<lambda>t. t \<noteq> 0) (thread_stacks m ptls)) refss"
    and "words_at m (load64 m (ptls + 2248)) (concat (map bt_encode es))" and "\<forall>e \<in> set es. bt_valid e"
    and "unat (load64 m (ptls + 2256)) = length (concat (map bt_encode es))"
    and "length (concat (map bt_encode es)) < 2 ^ 60"
  shows "\<exists>f tp pn. scan_roots_in_mutator_thread ops rt m ptls fac = Inr f
    \<and> tpinning_work f = tpinning_work fac @ tp \<and> concat tp = present (concat refss)
    \<and> pinning_work f = pinning_work fac @ pn
    \<and> concat pn = filter (\<lambda>r. r \<noteq> 0) (held_tasks m ptls @ [load64 m (ptls + 2600)])
        @ concat (map bt_jlvalues es)
    \<and> (\<forall>c \<in> set (tp @ pn). 0 < length c \<and> length c \<le> 4096)"
proof -
  have "root_scan_tasks ops rt m (thread_tasks m ptls)
      = Inr (present (concat refss), filter (\<lambda>t. t \<noteq> 0) (held_tasks m ptls))"
    using root_scan_tasks_refer [OF assms(1), of rt m "thread_tasks m ptls" refss] assms(2)
    by (simp add: thread_tasks_stacks thread_tasks_held)
  moreover have "bt_roots m (ptls_word m ptls ''bt_data'') (ptls_word m ptls ''bt_size'') 0
      = Some (concat (map bt_jlvalues es))"
    using bt_roots_parse [of m "load64 m (ptls + 2248)" "[]" es "load64 m (ptls + 2256)"] assms(3-6)
    by (simp add: ptls_word_def)
  ultimately show ?thesis
    using mutator_roots_log [of ops rt m ptls _ _ _ fac] by (auto simp: ptls_word_def)
qed

text \<open>
  A thread with a root task whose stack has one frame, one live task with an empty stack, a pending
  exception and a backtrace of one value.
\<close>

definition sample_thread :: memory where
  "sample_thread = poke [(0x108a0, 0x9000), (0x9098, 0x5000), (0x5000, 4), (0x5010, 0xb000),
     (0x10380, 1), (0x10390, 0x11000), (0x11000, 0xa000), (0x10a28, 0xc000),
     (0x108c8, 0x12000), (0x108d0, 3), (0x12000, - 1), (0x12008, 1), (0x12010, 0xd000)]"

lemma sample_thread_loads:
  "load64 sample_thread 0x108a0 = 0x9000" "load64 sample_thread 0x9098 = 0x5000"
  "load64 sample_thread 0x5000 = 4" "load64 sample_thread 0x5008 = 0" "load64 sample_thread 0x5010 = 0xb000"
  "load64 sample_thread 0x10380 = 1" "load64 sample_thread 0x10390 = 0x11000"
  "load64 sample_thread 0x11000 = 0xa000" "load64 sample_thread 0x10a28 = 0xc000"
  "load64 sample_thread 0x108c8 = 0x12000" "load64 sample_thread 0x108d0 = 3"
  "load64 sample_thread 0x12000 = - 1" "load64 sample_thread 0x12008 = 1" "load64 sample_thread 0x12010 = 0xd000"
  "load64 sample_thread 0x10888 = 0" "load64 sample_thread 0x10890 = 0" "load64 sample_thread 0x10898 = 0"
  "load64 sample_thread 0xa098 = 0" "load64 sample_thread 0x90b0 = 0" "load64 sample_thread 0xa0b0 = 0"
  "load64 sample_thread (ta_stkbuf_slot 0x9000) = 0" "load64 sample_thread (ta_stkbuf_slot 0xa000) = 0"
  by (simp_all add: sample_thread_def load64_poke apart_def ta_stkbuf_slot_def ta_ctx_def)

lemma sample_thread_tasks:
  "thread_stacks sample_thread 0x10000 = [0x9000, 0xa000, 0, 0, 0]"
  "held_tasks sample_thread 0x10000 = [0x9000, 0, 0, 0]"
  by (simp_all add: thread_stacks_def held_tasks_def sample_thread_loads)

lemma sample_thread_stacks:
  "stack_refers sample_runtime sample_thread 0x9000 [Some 0xb000]"
  "stack_refers sample_runtime sample_thread 0xa000 []"
proof -
  let ?w = "\<lparr>sw_offset = 0, sw_lb = 0, sw_ub = - 1\<rparr> :: stack_window"
  have nc: "\<not> copied_stack sample_runtime sample_thread 0x9000" "\<not> copied_stack sample_runtime sample_thread 0xa000"
    by (simp_all add: copied_stack_def sample_thread_loads)
  then have w: "stack_window_of sample_runtime sample_thread 0x9000 = Inr ?w"
    "stack_window_of sample_runtime sample_thread 0xa000 = Inr ?w"
    by (simp_all add: stack_window_of_def)
  have rd: "read_stack ?w m a = load64 m a" for m a
    by (simp add: read_stack_def get_stack_addr_def)
  have "frame_at ?w sample_thread 0x5000 (Suc 0) = 0"
    by (simp add: frame_at_Suc gf_prev_def rd sample_thread_loads)
  then have "stack_frames ?w sample_thread 0x5000 [0x5000]"
    by (auto simp: stack_frames_def intro!: exI [of _ 0])
  moreover have "frame_refs ?w sample_thread 0x5000 = [Some 0xb000]"
    by (simp add: frame_refs_def gf_nroots_def frame_entries_def rd sample_thread_loads gc_ptr_tag_def objref_def)
  ultimately show "stack_refers sample_runtime sample_thread 0x9000 [Some 0xb000]"
    unfolding stack_refers_def using nc w
    by (intro exI [of _ ?w] exI [of _ "[0x5000]"]) (simp add: sample_thread_loads)
  show "stack_refers sample_runtime sample_thread 0xa000 []"
    unfolding stack_refers_def using nc w
    by (intro exI [of _ ?w] exI [of _ "[]"]) (simp add: sample_thread_loads stack_frames_def)
qed

theorem mutator_roots_packets_witness:
  "\<exists>f. scan_roots_in_mutator_thread word_slot sample_runtime sample_thread 0x10000
      \<lparr>roots_work = [], pinning_work = [], tpinning_work = []\<rparr> = Inr f
    \<and> concat (tpinning_work f) = [0xb000] \<and> concat (pinning_work f) = [0x9000, 0xc000, 0xd000]"
proof -
  let ?es = "[Extended 1 [0xd000] []]"
  have e: "concat (map bt_encode ?es) = [- 1, 1, 0xd000]"
    by (simp add: JL_BT_NON_PTR_ENTRY_def)
  have "list_all2 (stack_refers sample_runtime sample_thread)
      (filter (\<lambda>t. t \<noteq> 0) (thread_stacks sample_thread 0x10000)) [[Some 0xb000], []]"
    by (simp add: sample_thread_tasks sample_thread_stacks)
  moreover have "words_at sample_thread 0x12000 (concat (map bt_encode ?es))"
    unfolding words_at_def e
    by (simp add: less_Suc_eq numeral_eq_Suc imp_conjL all_conj_distrib) (simp add: sample_thread_loads)
  ultimately show ?thesis
    using mutator_roots_packets [OF word_slot_ok, of sample_runtime sample_thread "0x10000"
        "[[Some 0xb000], []]" ?es "\<lparr>roots_work = [], pinning_work = [], tpinning_work = []\<rparr>"]
    by (auto simp: sample_thread_tasks sample_thread_loads JL_BT_NON_PTR_ENTRY_def)
qed

end
