(* ===== verification/Finalizers.thy ===== *)
theory Finalizers
  imports Julia_Scanning
begin

text \<open>
  \<^verbatim>\<open>julia_finalizer.rs\<close>: the finalizer lists. An entry is two words, an object (tagged with 1 for a
  native finalizer, with 2 for one that is to be freed) and its finalizer. Each collection sweeps
  the thread-local lists, moving the entries of dead objects to \<^verbatim>\<open>to_finalize\<close> and of live ones to
  the marked list, and then traces what is left.

  The locale \<open>growable_list\<close> is the interface of \<^verbatim>\<open>ArrayListT\<close>: the contents after a push and after a
  write. It holds for the model's lists for every C \<^verbatim>\<open>arraylist_grow\<close> that keeps the elements and
  makes room.
\<close>

section \<open>Array lists\<close>

text \<open>
  The list: its length and its cells; the capacity \<^verbatim>\<open>max\<close> is their number. An access outside the
  length, which the debug build rejects and which is undefined otherwise, is a fault.
\<close>

record array_list =
  al_len :: nat
  al_cells :: "addr list"

definition al_get :: "array_list \<Rightarrow> nat \<Rightarrow> addr res" where
  "al_get l i = (if i < al_len l \<and> i < length (al_cells l) then Inr (al_cells l ! i)
     else Inl IndexOutOfBounds)"

definition al_set :: "array_list \<Rightarrow> nat \<Rightarrow> addr \<Rightarrow> array_list res" where
  "al_set l i val = (if i < al_len l \<and> i < length (al_cells l)
     then Inr (l\<lparr>al_cells := (al_cells l)[i := val]\<rparr>) else Inl IndexOutOfBounds)"

type_synonym grow_fn = "array_list \<Rightarrow> nat \<Rightarrow> array_list"

definition al_grow :: "grow_fn \<Rightarrow> array_list \<Rightarrow> nat \<Rightarrow> array_list" where
  "al_grow arraylist_grow l n =
     (let newlen = al_len l + n;
          l' = (if length (al_cells l) < newlen then arraylist_grow l n else l)
      in l'\<lparr>al_len := newlen\<rparr>)"

definition al_push :: "grow_fn \<Rightarrow> array_list \<Rightarrow> addr \<Rightarrow> array_list res" where
  "al_push arraylist_grow l val =
     (let l' = al_grow arraylist_grow l 1 in al_set l' (al_len l' - 1) val)"

definition gc_ptr_clear_tag :: "bool \<Rightarrow> addr \<Rightarrow> usize \<Rightarrow> addr res" where
  "gc_ptr_clear_tag dbg a tag =
     (let cleared = a AND NOT tag in if dbg \<and> cleared = 0 then Inl DebugAssert else Inr cleared)"

section \<open>Sweeping\<close>

text \<open>
  The state of a sweep: the swept list, \<^verbatim>\<open>to_finalize\<close>, the marked list (\<open>None\<close> when it is the swept
  one) and the flag \<^verbatim>\<open>jl_gc_have_pending_finalizers\<close>.
\<close>

record fin_state =
  fs_list :: array_list
  fs_to_finalize :: array_list
  fs_marked :: "array_list option"
  fs_pending :: bool

definition push_pair :: "grow_fn \<Rightarrow> array_list \<Rightarrow> addr \<Rightarrow> addr \<Rightarrow> array_list res" where
  "push_pair g l a b = rbind (al_push g l a) (\<lambda>l'. al_push g l' b)"

definition move_pair :: "array_list \<Rightarrow> nat \<Rightarrow> nat \<Rightarrow> array_list res" where
  "move_pair l i j =
     rbind (al_get l i) (\<lambda>a. rbind (al_set l j a) (\<lambda>l'.
     rbind (al_get l' (i + 1)) (\<lambda>b. al_set l' (j + 1) b)))"

text \<open>One iteration of the loop, at index \<open>i\<close>; the result is the state and the index \<open>j\<close>.\<close>

definition sweep_step ::
    "grow_fn \<Rightarrow> bool \<Rightarrow> (addr \<Rightarrow> bool) \<Rightarrow> fin_state \<Rightarrow> nat \<Rightarrow> nat \<Rightarrow> (fin_state \<times> nat) res" where
  "sweep_step g dbg is_live_object s i j =
     rbind (al_get (fs_list s) i) (\<lambda>v0.
     rbind (gc_ptr_clear_tag dbg v0 3) (\<lambda>v.
       if v0 = 0 then Inr (s, j)
       else rbind (al_get (fs_list s) (i + 1)) (\<lambda>fin.
         let (isfreed, isold) =
               (if gc_ptr_tag v0 2 then (True, False)
                else let isfreed = (\<not> is_live_object v) in (isfreed, fs_marked s \<noteq> None \<and> \<not> isfreed))
         in rbind (if isfreed \<or> isold then Inr (fs_list s, j)
                   else rbind (if j < i then move_pair (fs_list s) i j else Inr (fs_list s))
                          (\<lambda>l. Inr (l, j + 2))) (\<lambda>(l, j').
            rbind (if isfreed then push_pair g (fs_to_finalize s) v0 fin else Inr (fs_to_finalize s)) (\<lambda>tf.
            rbind (if isold
                   then case fs_marked s of None \<Rightarrow> Inl UnwrapNone
                        | Some mk \<Rightarrow> rbind (push_pair g mk v0 fin) (\<lambda>mk'. Inr (Some mk'))
                   else Inr (fs_marked s)) (\<lambda>mk.
              Inr (\<lparr>fs_list = l, fs_to_finalize = tf, fs_marked = mk,
                     fs_pending = (fs_pending s \<or> isfreed)\<rparr>, j')))))))"

lemma al_set_len: "al_set l i v = Inr l' \<Longrightarrow> al_len l' = al_len l"
  by (auto simp: al_set_def split: if_splits)

lemma move_pair_len: "move_pair l i j = Inr l' \<Longrightarrow> al_len l' = al_len l"
  by (auto simp: move_pair_def rbind_eq_Inr dest!: al_set_len)

lemma sweep_step_len: "sweep_step g dbg live s i j = Inr (s', j') \<Longrightarrow> al_len (fs_list s') = al_len (fs_list s)"
  by (auto simp: sweep_step_def rbind_eq_Inr Let_def dest: move_pair_len split: if_splits prod.splits)

lemma rbind_cong [fundef_cong]:
  "m = m' \<Longrightarrow> (\<And>x. m' = Inr x \<Longrightarrow> f x = f' x) \<Longrightarrow> rbind m f = rbind m' f'"
  by (cases m') simp_all

function sweep_loop ::
    "grow_fn \<Rightarrow> bool \<Rightarrow> (addr \<Rightarrow> bool) \<Rightarrow> fin_state \<Rightarrow> nat \<Rightarrow> nat \<Rightarrow> (fin_state \<times> nat) res" where
  "sweep_loop g dbg live s i j =
     (if i < al_len (fs_list s)
      then rbind (sweep_step g dbg live s i j) (\<lambda>(s', j'). sweep_loop g dbg live s' (i + 2) j')
      else Inr (s, j))"
  by pat_completeness auto
termination
  by (relation "measure (\<lambda>(g, dbg, live, s, i, j). al_len (fs_list s) - i)")
    (auto dest: sweep_step_len)

declare sweep_loop.simps [simp del]

definition sweep_finalizer_list ::
    "grow_fn \<Rightarrow> bool \<Rightarrow> (addr \<Rightarrow> bool) \<Rightarrow> fin_state \<Rightarrow> fin_state res" where
  "sweep_finalizer_list g dbg live s =
     (if al_len (fs_list s) = 0 then Inr s
      else rbind (sweep_loop g dbg live s 0 0) (\<lambda>(s', j). Inr (s'\<lparr>fs_list := (fs_list s')\<lparr>al_len := j\<rparr>\<rparr>)))"

section \<open>Marking\<close>

text \<open>The tracer is stateful: \<open>trace st obj\<close> is the new address of the object and the next state.\<close>

type_synonym 't tracer = "'t \<Rightarrow> addr \<Rightarrow> addr \<times> 't"

function mark_loop :: "'t tracer \<Rightarrow> array_list \<Rightarrow> 't \<Rightarrow> nat \<Rightarrow> (array_list \<times> 't) res" where
  "mark_loop trace l st i =
     (if i < al_len l then
        rbind (al_get l i) (\<lambda>cur.
          if cur = 0 then mark_loop trace l st (i + 1)
          else let tagged = gc_ptr_tag cur 1;
                   cur_tag = (if tagged then 1 else 0);
                   i' = (if tagged then i + 1 else i);
                   new_obj_addr = (if tagged then cur AND NOT 1 else cur)
               in if gc_ptr_tag cur 2 then mark_loop trace l st (i' + 1)
                  else case trace st new_obj_addr of (traced, st') \<Rightarrow>
                       rbind (al_set l i (traced OR cur_tag)) (\<lambda>l'. mark_loop trace l' st' (i' + 1)))
      else Inr (l, st))"
  by pat_completeness auto
termination
  by (relation "measure (\<lambda>(trace, l, st, i). al_len l - i)") (auto dest!: al_set_len)

declare mark_loop.simps [simp del]

definition mark_finlist :: "'t tracer \<Rightarrow> array_list \<Rightarrow> nat \<Rightarrow> 't \<Rightarrow> (array_list \<times> 't) res" where
  "mark_finlist trace l start st = (if al_len l \<le> start then Inr (l, st) else mark_loop trace l st start)"

section \<open>The finalizer phase of a collection\<close>

record fin_lists =
  fl_threads :: "array_list list"
  fl_to_finalize :: array_list
  fl_marked :: array_list
  fl_pending :: bool

fun sweep_threads ::
    "grow_fn \<Rightarrow> bool \<Rightarrow> (addr \<Rightarrow> bool) \<Rightarrow> array_list list \<Rightarrow> fin_lists \<Rightarrow> fin_lists res" where
  "sweep_threads g dbg live [] fl = Inr fl"
| "sweep_threads g dbg live (l # ls) fl =
     rbind (sweep_finalizer_list g dbg live
              \<lparr>fs_list = l, fs_to_finalize = fl_to_finalize fl, fs_marked = Some (fl_marked fl),
               fs_pending = fl_pending fl\<rparr>) (\<lambda>s.
     case fs_marked s of None \<Rightarrow> Inl UnwrapNone | Some mk \<Rightarrow>
       sweep_threads g dbg live ls
         (fl\<lparr>fl_threads := fl_threads fl @ [fs_list s], fl_to_finalize := fs_to_finalize s,
             fl_marked := mk, fl_pending := fs_pending s\<rparr>))"

fun mark_threads :: "'t tracer \<Rightarrow> array_list list \<Rightarrow> 't \<Rightarrow> (array_list list \<times> 't) res" where
  "mark_threads trace [] st = Inr ([], st)"
| "mark_threads trace (l # ls) st =
     rbind (mark_finlist trace l 0 st) (\<lambda>(l', st').
     rbind (mark_threads trace ls st') (\<lambda>(ls', st''). Inr (l' # ls', st'')))"

definition scan_finalizers_in_rust ::
    "grow_fn \<Rightarrow> bool \<Rightarrow> (addr \<Rightarrow> bool) \<Rightarrow> bool \<Rightarrow> 't tracer \<Rightarrow> fin_lists \<Rightarrow> 't \<Rightarrow> (fin_lists \<times> 't) res" where
  "scan_finalizers_in_rust g dbg live is_nursery trace fl st =
     (let orig_marked_len = al_len (fl_marked fl)
      in rbind (sweep_threads g dbg live (fl_threads fl) (fl\<lparr>fl_threads := []\<rparr>)) (\<lambda>fl1.
         rbind (if \<not> is_nursery
                then rbind (sweep_finalizer_list g dbg live
                        \<lparr>fs_list = fl_marked fl1, fs_to_finalize = fl_to_finalize fl1,
                         fs_marked = None, fs_pending = fl_pending fl1\<rparr>) (\<lambda>s.
                      Inr (fl1\<lparr>fl_marked := fs_list s, fl_to_finalize := fs_to_finalize s,
                               fl_pending := fs_pending s\<rparr>, 0))
                else Inr (fl1, orig_marked_len)) (\<lambda>(fl2, orig_marked_len).
         rbind (mark_threads trace (fl_threads fl2) st) (\<lambda>(threads, st1).
         rbind (mark_finlist trace (fl_marked fl2) orig_marked_len st1) (\<lambda>(marked, st2).
         rbind (mark_finlist trace (fl_to_finalize fl2) 0 st2) (\<lambda>(to_fin, st3).
           Inr (fl2\<lparr>fl_threads := threads, fl_marked := marked, fl_to_finalize := to_fin\<rparr>, st3)))))))"

section \<open>The interface of an array list\<close>

locale growable_list =
  fixes contents :: "'l \<Rightarrow> 'a list"
    and wf :: "'l \<Rightarrow> bool"
    and get :: "'l \<Rightarrow> nat \<Rightarrow> 'a res"
    and put :: "'l \<Rightarrow> nat \<Rightarrow> 'a \<Rightarrow> 'l res"
    and push :: "'l \<Rightarrow> 'a \<Rightarrow> 'l res"
  assumes get_ok: "wf l \<Longrightarrow> i < length (contents l) \<Longrightarrow> get l i = Inr (contents l ! i)"
    and put_ok: "wf l \<Longrightarrow> i < length (contents l) \<Longrightarrow>
      \<exists>l'. put l i v = Inr l' \<and> wf l' \<and> contents l' = (contents l)[i := v]"
    and push_ok: "wf l \<Longrightarrow> \<exists>l'. push l v = Inr l' \<and> wf l' \<and> contents l' = contents l @ [v]"
begin

lemma push2_ok:
  assumes "wf l"
  shows "\<exists>l'. rbind (push l a) (\<lambda>l'. push l' b) = Inr l' \<and> wf l' \<and> contents l' = contents l @ [a, b]"
proof -
  obtain l1 where l1: "push l a = Inr l1" "wf l1" "contents l1 = contents l @ [a]"
    using push_ok [OF assms] by blast
  obtain l2 where "push l1 b = Inr l2" "wf l2" "contents l2 = contents l1 @ [b]"
    using push_ok [OF l1(2)] by blast
  with l1 show ?thesis
    by simp
qed

text \<open>Moving the pair at \<open>i\<close> down over a gap.\<close>

lemma move2_ok:
  assumes "wf l" and "contents l = pre @ x # y # junk @ a # b # post"
    and "i = length pre + 2 + length junk" and "j = length pre"
  shows "\<exists>l'. rbind (get l i) (\<lambda>a. rbind (put l j a) (\<lambda>l'.
      rbind (get l' (i + 1)) (\<lambda>b. put l' (j + 1) b))) = Inr l' \<and> wf l'
    \<and> contents l' = pre @ a # b # junk @ a # b # post"
proof -
  have "get l i = Inr a"
    using get_ok [OF assms(1), of i] assms(2,3) by (simp add: nth_append)
  moreover obtain l1 where l1: "put l j a = Inr l1" "wf l1"
    "contents l1 = pre @ a # y # junk @ a # b # post"
    using put_ok [OF assms(1), of j a] assms(2,4) by (auto simp: list_update_append)
  moreover have "get l1 (i + 1) = Inr b"
    using get_ok [OF l1(2), of "i + 1"] l1(3) assms(3) by (simp add: nth_append)
  moreover obtain l2 where "put l1 (j + 1) b = Inr l2" "wf l2"
    "contents l2 = pre @ a # b # junk @ a # b # post"
    using put_ok [OF l1(2), of "j + 1" b] l1(3) assms(4) by (auto simp: list_update_append)
  ultimately show ?thesis
    by simp
qed

end

definition al_contents :: "array_list \<Rightarrow> addr list" where
  "al_contents l = take (al_len l) (al_cells l)"

definition al_wf :: "array_list \<Rightarrow> bool" where
  "al_wf l \<longleftrightarrow> al_len l \<le> length (al_cells l)"

text \<open>What the C function promises: the elements stay, and there is room for \<open>n\<close> more.\<close>

definition grow_ok :: "grow_fn \<Rightarrow> bool" where
  "grow_ok g \<longleftrightarrow> (\<forall>l n. al_wf l \<longrightarrow>
     take (al_len l) (al_cells (g l n)) = al_contents l \<and> al_len l + n \<le> length (al_cells (g l n)))"

lemma length_contents [simp]: "al_wf l \<Longrightarrow> length (al_contents l) = al_len l"
  by (simp add: al_contents_def al_wf_def)

lemma grow_contents:
  assumes "grow_ok g" and "al_wf l"
  shows "al_wf (al_grow g l n) \<and> take (al_len l) (al_cells (al_grow g l n)) = al_contents l
    \<and> al_len (al_grow g l n) = al_len l + n"
  using assms by (auto simp: al_grow_def grow_ok_def al_wf_def al_contents_def Let_def)

lemma array_list_contract:
  assumes "grow_ok g"
  shows "growable_list al_contents al_wf al_get al_set (al_push g)"
proof
  fix l i v
  assume wf: "al_wf l" and i: "i < length (al_contents l)"
  then show "al_get l i = Inr (al_contents l ! i)"
    by (simp add: al_get_def al_wf_def al_contents_def)
  show "\<exists>l'. al_set l i v = Inr l' \<and> al_wf l' \<and> al_contents l' = (al_contents l)[i := v]"
    using wf i by (simp add: al_set_def al_wf_def al_contents_def take_update_swap)
next
  fix l v
  assume wf: "al_wf l"
  let ?g = "al_grow g l 1"
  have g: "al_wf ?g" "take (al_len l) (al_cells ?g) = al_contents l" "al_len ?g = al_len l + 1"
    using grow_contents [OF assms wf, of 1] by simp_all
  then have "take (al_len l + 1) ((al_cells ?g)[al_len l := v]) = al_contents l @ [v]"
    by (simp add: al_wf_def take_Suc_conv_app_nth)
  with g show "\<exists>l'. al_push g l v = Inr l' \<and> al_wf l' \<and> al_contents l' = al_contents l @ [v]"
    by (simp add: al_push_def Let_def al_set_def al_wf_def al_contents_def)
qed

definition doubling_grow :: grow_fn where
  "doubling_grow l n = l\<lparr>al_cells := al_cells l @ replicate (al_len l + n) 0\<rparr>"

lemma doubling_grow_ok: "grow_ok doubling_grow"
  by (simp add: grow_ok_def doubling_grow_def al_wf_def al_contents_def)

interpretation doubling: growable_list al_contents al_wf al_get al_set "al_push doubling_grow"
  by (rule array_list_contract) (rule doubling_grow_ok)

section \<open>The sweep as a partition\<close>

type_synonym fin_pair = "addr \<times> addr"

fun flat :: "fin_pair list \<Rightarrow> addr list" where
  "flat [] = []"
| "flat ((v, f) # ps) = v # f # flat ps"

lemma flat_append [simp]: "flat (ps @ qs) = flat ps @ flat qs"
  by (induction ps rule: flat.induct) simp_all

lemma length_flat [simp]: "length (flat ps) = 2 * length ps"
  by (induction ps rule: flat.induct) simp_all

definition freed :: "(addr \<Rightarrow> bool) \<Rightarrow> fin_pair \<Rightarrow> bool" where
  "freed live p \<longleftrightarrow> fst p \<noteq> 0 \<and> (gc_ptr_tag (fst p) 2 \<or> \<not> live (fst p AND NOT 3))"

definition surviving :: "(addr \<Rightarrow> bool) \<Rightarrow> fin_pair \<Rightarrow> bool" where
  "surviving live p \<longleftrightarrow> fst p \<noteq> 0 \<and> \<not> freed live p"

definition fin_state_wf :: "fin_state \<Rightarrow> bool" where
  "fin_state_wf s \<longleftrightarrow> al_wf (fs_list s) \<and> al_wf (fs_to_finalize s)
     \<and> (case fs_marked s of None \<Rightarrow> True | Some mk \<Rightarrow> al_wf mk)"

definition marked_contents :: "fin_state \<Rightarrow> addr list" where
  "marked_contents s = (case fs_marked s of None \<Rightarrow> [] | Some mk \<Rightarrow> al_contents mk)"

text \<open>The pairs that stay in the list: with a marked list to move them to, none of the live ones.\<close>

definition kept :: "bool \<Rightarrow> (addr \<Rightarrow> bool) \<Rightarrow> fin_pair \<Rightarrow> bool" where
  "kept has_marked live p \<longleftrightarrow> \<not> has_marked \<and> surviving live p"

lemma push_pair_ok:
  assumes "grow_ok g" and "al_wf l"
  shows "\<exists>l'. push_pair g l a b = Inr l' \<and> al_wf l' \<and> al_contents l' = al_contents l @ [a, b]"
  unfolding push_pair_def by (rule growable_list.push2_ok [OF array_list_contract [OF assms(1)] assms(2)])

lemma move_pair_ok:
  assumes "grow_ok g" and "al_wf l" and "al_contents l = pre @ junk @ a # b # post"
    and "i = length pre + length junk" and "j = length pre" and "even (length junk)"
  shows "\<exists>l' junk'. (if j < i then move_pair l i j else Inr l) = Inr l' \<and> al_wf l'
    \<and> al_contents l' = pre @ [a, b] @ junk' @ post \<and> length junk' = length junk"
proof (cases "junk = []")
  case True
  with assms show ?thesis
    by simp
next
  case False
  with assms(6) obtain x y r where junk: "junk = x # y # r"
    by (cases junk; cases "tl junk") auto
  have "\<exists>l'. move_pair l i j = Inr l' \<and> al_wf l' \<and> al_contents l' = pre @ a # b # r @ a # b # post"
    unfolding move_pair_def
    by (rule growable_list.move2_ok [OF array_list_contract [OF assms(1)] assms(2)])
      (use assms(3,4,5) junk in simp_all)
  then obtain l' where "move_pair l i j = Inr l'" "al_wf l'"
    "al_contents l' = pre @ a # b # r @ a # b # post"
    by blast
  then show ?thesis
    using assms(4,5) junk by (intro exI [of _ l'] exI [of _ "r @ [a, b]"]) simp
qed

text \<open>One iteration, on the pair \<open>(v, f)\<close> that follows the gap.\<close>

lemma sweep_step_ok:
  assumes g: "grow_ok g" and wf: "fin_state_wf s"
    and c: "al_contents (fs_list s) = pre @ junk @ v # f # post"
    and i: "i = length pre + length junk" "j = length pre" and ev: "even (length junk)"
  shows "\<exists>s' junk'. sweep_step g False live s i j
      = Inr (s', if kept (fs_marked s \<noteq> None) live (v, f) then j + 2 else j)
    \<and> fin_state_wf s' \<and> (fs_marked s' = None \<longleftrightarrow> fs_marked s = None)
    \<and> al_contents (fs_list s') = pre @ (if kept (fs_marked s \<noteq> None) live (v, f) then [v, f] else []) @ junk' @ post
    \<and> length junk' = length junk + (if kept (fs_marked s \<noteq> None) live (v, f) then 0 else 2)
    \<and> al_contents (fs_to_finalize s') = al_contents (fs_to_finalize s) @ (if freed live (v, f) then [v, f] else [])
    \<and> marked_contents s' = marked_contents s
        @ (if fs_marked s \<noteq> None \<and> surviving live (v, f) then [v, f] else [])
    \<and> fs_pending s' = (fs_pending s \<or> freed live (v, f))"
proof -
  have wl: "al_wf (fs_list s)" "al_wf (fs_to_finalize s)"
    using wf by (simp_all add: fin_state_wf_def)
  have gi: "al_get (fs_list s) i = Inr v" "al_get (fs_list s) (i + 1) = Inr f"
    using growable_list.get_ok [OF array_list_contract [OF g] wl(1), of i]
      growable_list.get_ok [OF array_list_contract [OF g] wl(1), of "i + 1"] c i
    by (simp_all add: nth_append)
  consider "v = 0" | "freed live (v, f)" | mk where "surviving live (v, f)" "fs_marked s = Some mk"
    | "surviving live (v, f)" "fs_marked s = None"
    by (cases "fs_marked s") (auto simp: surviving_def)
  then show ?thesis
  proof cases
    case 1
    then have "sweep_step g False live s i j = Inr (s, j)"
      using gi by (simp add: sweep_step_def gc_ptr_clear_tag_def)
    then show ?thesis
      using 1 c wf
      by (intro exI [of _ s] exI [of _ "junk @ [v, f]"]) (simp add: kept_def freed_def surviving_def)
  next
    case 2
    obtain tf where "push_pair g (fs_to_finalize s) v f = Inr tf" "al_wf tf"
      "al_contents tf = al_contents (fs_to_finalize s) @ [v, f]"
      using push_pair_ok [OF g wl(2)] by blast
    then show ?thesis
      using 2 c wf gi
      by (intro exI [of _ "s\<lparr>fs_to_finalize := tf, fs_pending := True\<rparr>"] exI [of _ "junk @ [v, f]"])
        (auto simp: sweep_step_def gc_ptr_clear_tag_def Let_def kept_def freed_def surviving_def
          fin_state_wf_def marked_contents_def)
  next
    case 3
    have "al_wf mk"
      using wf 3(2) by (simp add: fin_state_wf_def)
    then obtain mk' where "push_pair g mk v f = Inr mk'" "al_wf mk'" "al_contents mk' = al_contents mk @ [v, f]"
      using push_pair_ok [OF g] by blast
    then show ?thesis
      using 3 c wf gi
      by (intro exI [of _ "s\<lparr>fs_marked := Some mk'\<rparr>"] exI [of _ "junk @ [v, f]"])
        (auto simp: sweep_step_def gc_ptr_clear_tag_def Let_def kept_def freed_def surviving_def
          fin_state_wf_def marked_contents_def)
  next
    case 4
    obtain l junk' where "(if j < i then move_pair (fs_list s) i j else Inr (fs_list s)) = Inr l" "al_wf l"
      "al_contents l = pre @ [v, f] @ junk' @ post" "length junk' = length junk"
      using move_pair_ok [OF g wl(1) c i ev] by blast
    then show ?thesis
      using 4 wf gi
      by (intro exI [of _ "s\<lparr>fs_list := l\<rparr>"] exI [of _ junk'])
        (auto simp: sweep_step_def gc_ptr_clear_tag_def Let_def kept_def freed_def surviving_def
          fin_state_wf_def marked_contents_def)
  qed
qed

lemma sweep_loop_ok:
  assumes "grow_ok g" and "fin_state_wf s" and "al_contents (fs_list s) = pre @ junk @ flat ps"
    and "i = length pre + length junk" and "even (length junk)"
  shows "\<exists>s' rest. sweep_loop g False live s i (length pre)
      = Inr (s', length pre + 2 * length (filter (kept (fs_marked s \<noteq> None) live) ps))
    \<and> fin_state_wf s' \<and> (fs_marked s' = None \<longleftrightarrow> fs_marked s = None)
    \<and> al_contents (fs_list s') = pre @ flat (filter (kept (fs_marked s \<noteq> None) live) ps) @ rest
    \<and> al_contents (fs_to_finalize s') = al_contents (fs_to_finalize s) @ flat (filter (freed live) ps)
    \<and> marked_contents s' = marked_contents s
        @ (if fs_marked s \<noteq> None then flat (filter (surviving live) ps) else [])
    \<and> fs_pending s' = (fs_pending s \<or> (\<exists>p \<in> set ps. freed live p))"
  using assms
proof (induction ps arbitrary: s pre junk i)
  case Nil
  then have "al_len (fs_list s) = i"
    by (metis add.right_neutral append.right_neutral fin_state_wf_def flat.simps(1) length_append
        length_contents)
  then show ?case
    using Nil by (subst sweep_loop.simps) simp
next
  case (Cons p ps)
  obtain v f where p: "p = (v, f)"
    by (cases p)
  let ?m = "fs_marked s \<noteq> None"
  from Cons.prems(3) p have c: "al_contents (fs_list s) = pre @ junk @ v # f # flat ps"
    by simp
  have "al_len (fs_list s) = length (al_contents (fs_list s))"
    using Cons.prems(2) by (simp add: fin_state_wf_def)
  then have less: "i < al_len (fs_list s)"
    using c Cons.prems(4) by simp
  obtain s1 junk1 where s1: "sweep_step g False live s i (length pre)
      = Inr (s1, if kept ?m live (v, f) then length pre + 2 else length pre)"
    "fin_state_wf s1" "fs_marked s1 = None \<longleftrightarrow> fs_marked s = None"
    "al_contents (fs_list s1) = pre @ (if kept ?m live (v, f) then [v, f] else []) @ junk1 @ flat ps"
    "length junk1 = length junk + (if kept ?m live (v, f) then 0 else 2)"
    "al_contents (fs_to_finalize s1) = al_contents (fs_to_finalize s) @ (if freed live (v, f) then [v, f] else [])"
    "marked_contents s1 = marked_contents s @ (if ?m \<and> surviving live (v, f) then [v, f] else [])"
    "fs_pending s1 = (fs_pending s \<or> freed live (v, f))"
    using sweep_step_ok [OF Cons.prems(1,2) c Cons.prems(4) refl Cons.prems(5), of live]
    by (elim exE conjE) (rule that, assumption+)
  let ?pre = "pre @ (if kept ?m live (v, f) then [v, f] else [])"
  have c1: "al_contents (fs_list s1) = ?pre @ junk1 @ flat ps"
    using s1(4) by simp
  have i2: "i + 2 = length ?pre + length junk1" and ev: "even (length junk1)"
    using s1(5) Cons.prems(4,5) by simp_all
  have j: "(if kept ?m live (v, f) then length pre + 2 else length pre) = length ?pre"
    by simp
  have m: "(fs_marked s1 \<noteq> None) = ?m"
    using s1(3) by simp
  have loop: "sweep_loop g False live s i (length pre) = sweep_loop g False live s1 (i + 2) (length ?pre)"
    using s1(1) less by (subst sweep_loop.simps) (simp add: j)
  show ?case
    using Cons.IH [OF Cons.prems(1) s1(2) c1 i2 ev] unfolding loop m
    by (elim ex_forward)
      (cases ?m; cases "kept ?m live (v, f)"; cases "surviving live (v, f)"; cases "freed live (v, f)";
        simp add: p s1(3,6-8) del: not_None_eq)
qed

text \<open>
  Sweeping a list of finalizer pairs, in place, is a partition of it in order: the pairs of dead
  objects and those already marked for freeing move to the end of \<^verbatim>\<open>to_finalize\<close>; the pairs of live
  objects move to the end of the marked list, or stay when the marked list is the one swept; pairs
  of deleted objects are dropped. The pending flag is set exactly when a pair was freed.
\<close>

lemma sweep_list_ok:
  assumes "grow_ok g" and "fin_state_wf s" and "al_contents (fs_list s) = flat ps"
  shows "\<exists>s'. sweep_finalizer_list g False live s = Inr s' \<and> fin_state_wf s'
    \<and> (fs_marked s' = None \<longleftrightarrow> fs_marked s = None)
    \<and> al_contents (fs_list s') = (if fs_marked s = None then flat (filter (surviving live) ps) else [])
    \<and> al_contents (fs_to_finalize s') = al_contents (fs_to_finalize s) @ flat (filter (freed live) ps)
    \<and> marked_contents s' = marked_contents s
        @ (if fs_marked s = None then [] else flat (filter (surviving live) ps))
    \<and> fs_pending s' = (fs_pending s \<or> (\<exists>p \<in> set ps. freed live p))"
proof (cases "ps = []")
  case True
  have "al_len (fs_list s) = length (al_contents (fs_list s))"
    using assms(2) by (simp add: fin_state_wf_def)
  then have "sweep_finalizer_list g False live s = Inr s"
    using True assms(3) by (simp add: sweep_finalizer_list_def)
  then show ?thesis
    using True assms by simp
next
  case False
  have "al_len (fs_list s) = length (al_contents (fs_list s))"
    using assms(2) by (simp add: fin_state_wf_def)
  then have ne: "al_len (fs_list s) \<noteq> 0"
    using False assms(3) by (simp del: flat.simps)
  let ?kept = "filter (kept (fs_marked s \<noteq> None) live) ps"
  have "al_contents (fs_list s) = [] @ [] @ flat ps"
    using assms(3) by simp
  from sweep_loop_ok [OF assms(1,2) this, of 0 live]
  have "\<exists>s1 rest. sweep_loop g False live s 0 0 = Inr (s1, 2 * length ?kept)
    \<and> fin_state_wf s1 \<and> (fs_marked s1 = None \<longleftrightarrow> fs_marked s = None)
    \<and> al_contents (fs_list s1) = flat ?kept @ rest
    \<and> al_contents (fs_to_finalize s1) = al_contents (fs_to_finalize s) @ flat (filter (freed live) ps)
    \<and> marked_contents s1 = marked_contents s
        @ (if fs_marked s \<noteq> None then flat (filter (surviving live) ps) else [])
    \<and> fs_pending s1 = (fs_pending s \<or> (\<exists>p \<in> set ps. freed live p))"
    by (simp del: not_None_eq)
  then obtain s1 rest where s1: "sweep_loop g False live s 0 0 = Inr (s1, 2 * length ?kept)"
    "fin_state_wf s1" "al_contents (fs_list s1) = flat ?kept @ rest"
    "fs_marked s1 = None \<longleftrightarrow> fs_marked s = None"
    "al_contents (fs_to_finalize s1) = al_contents (fs_to_finalize s) @ flat (filter (freed live) ps)"
    "marked_contents s1 = marked_contents s
        @ (if fs_marked s \<noteq> None then flat (filter (surviving live) ps) else [])"
    "fs_pending s1 = (fs_pending s \<or> (\<exists>p \<in> set ps. freed live p))"
    by (elim exE conjE) (rule that, assumption+)
  let ?s = "s1\<lparr>fs_list := (fs_list s1)\<lparr>al_len := 2 * length ?kept\<rparr>\<rparr>"
  have k: "flat ?kept = (if fs_marked s = None then flat (filter (surviving live) ps) else [])"
    by (simp add: kept_def cong: filter_cong)
  have "2 * length ?kept \<le> al_len (fs_list s1)"
    using s1(2,3) length_contents [of "fs_list s1"] by (simp add: fin_state_wf_def)
  then have "al_contents (fs_list ?s) = take (2 * length ?kept) (al_contents (fs_list s1))"
    and "al_wf (fs_list ?s)"
    using s1(2) by (simp_all add: al_contents_def al_wf_def fin_state_wf_def min_absorb1)
  moreover have "take (2 * length ?kept) (al_contents (fs_list s1)) = flat ?kept"
    using s1(3) by simp
  ultimately have "al_contents (fs_list ?s) = flat ?kept" "al_wf (fs_list ?s)"
    by simp_all
  then show ?thesis
    using s1 ne k
    by (intro exI [of _ ?s])
      (auto simp: sweep_finalizer_list_def fin_state_wf_def marked_contents_def)
qed

text \<open>The thread lists of a collection, swept one after the other.\<close>

lemma sweep_threads_ok:
  assumes "grow_ok g" and "list_all2 (\<lambda>l ps. al_wf l \<and> al_contents l = flat ps) ls pss"
    and "al_wf (fl_to_finalize fl)" and "al_wf (fl_marked fl)"
  shows "\<exists>fl' new. sweep_threads g False live ls fl = Inr fl'
    \<and> al_wf (fl_to_finalize fl') \<and> al_wf (fl_marked fl')
    \<and> fl_threads fl' = fl_threads fl @ new \<and> length new = length ls
    \<and> (\<forall>l \<in> set new. al_wf l \<and> al_contents l = [])
    \<and> al_contents (fl_to_finalize fl') = al_contents (fl_to_finalize fl) @ flat (filter (freed live) (concat pss))
    \<and> al_contents (fl_marked fl') = al_contents (fl_marked fl) @ flat (filter (surviving live) (concat pss))
    \<and> fl_pending fl' = (fl_pending fl \<or> (\<exists>p \<in> set (concat pss). freed live p))"
  using assms(2-4)
proof (induction ls pss arbitrary: fl rule: list_all2_induct)
  case Nil
  then show ?case
    by simp
next
  case (Cons l ls ps pss)
  let ?s = "\<lparr>fs_list = l, fs_to_finalize = fl_to_finalize fl, fs_marked = Some (fl_marked fl),
    fs_pending = fl_pending fl\<rparr>"
  have "fin_state_wf ?s" "al_contents (fs_list ?s) = flat ps"
    using Cons by (simp_all add: fin_state_wf_def)
  from sweep_list_ok [OF assms(1) this, of live] obtain s' where r:
    "sweep_finalizer_list g False live ?s = Inr s'" "fin_state_wf s'" "fs_marked s' \<noteq> None"
    "al_contents (fs_list s') = []"
    "al_contents (fs_to_finalize s') = al_contents (fl_to_finalize fl) @ flat (filter (freed live) ps)"
    "marked_contents s' = al_contents (fl_marked fl) @ flat (filter (surviving live) ps)"
    "fs_pending s' = (fl_pending fl \<or> (\<exists>p \<in> set ps. freed live p))"
    by (elim exE conjE) (rule that; simp add: marked_contents_def)
  from r(3) obtain mk where mk: "fs_marked s' = Some mk"
    by blast
  with r have s': "al_wf mk" "al_wf (fs_list s')" "al_wf (fs_to_finalize s')"
    "al_contents mk = al_contents (fl_marked fl) @ flat (filter (surviving live) ps)"
    by (simp_all add: fin_state_wf_def marked_contents_def)
  let ?fl = "fl\<lparr>fl_threads := fl_threads fl @ [fs_list s'], fl_to_finalize := fs_to_finalize s',
    fl_marked := mk, fl_pending := fs_pending s'\<rparr>"
  have w: "al_wf (fl_to_finalize ?fl)" "al_wf (fl_marked ?fl)"
    using s' by simp_all
  from Cons.IH [OF w] obtain fl' new where "sweep_threads g False live ls ?fl = Inr fl'" "al_wf (fl_to_finalize fl')"
    "al_wf (fl_marked fl')" "fl_threads fl' = fl_threads ?fl @ new" "length new = length ls"
    "\<forall>l \<in> set new. al_wf l \<and> al_contents l = []"
    "al_contents (fl_to_finalize fl') = al_contents (fl_to_finalize ?fl) @ flat (filter (freed live) (concat pss))"
    "al_contents (fl_marked fl') = al_contents (fl_marked ?fl) @ flat (filter (surviving live) (concat pss))"
    "fl_pending fl' = (fl_pending ?fl \<or> (\<exists>p \<in> set (concat pss). freed live p))"
    by (elim exE conjE) (rule that, assumption+)
  then show ?case
    using r mk s' by (intro exI [of _ fl'] exI [of _ "fs_list s' # new"]) auto
qed

section \<open>Marking as a map\<close>

text \<open>
  What marking a list should do, with \<open>fwd\<close> the new address of each object: deleted entries stay, an
  entry tagged 1 keeps its tag and its native finalizer is skipped, an entry tagged 2 is not
  traced, and any other word is replaced by the new address.
\<close>

function mark_words :: "(addr \<Rightarrow> addr) \<Rightarrow> addr list \<Rightarrow> addr list" where
  "mark_words fwd [] = []"
| "mark_words fwd (e # es) =
     (if e = 0 then 0 # mark_words fwd es
      else let e' = (if gc_ptr_tag e 2 then e
                     else if gc_ptr_tag e 1 then fwd (e AND NOT 1) OR 1 else fwd e)
           in if gc_ptr_tag e 1 then e' # take 1 es @ mark_words fwd (drop 1 es)
              else e' # mark_words fwd es)"
  by pat_completeness auto
termination
  by (relation "measure (\<lambda>(fwd, es). length es)") auto

text \<open>A tracer that records what it is asked to trace.\<close>

definition recording :: "(addr \<Rightarrow> addr) \<Rightarrow> addr list tracer" where
  "recording fwd st obj = (fwd obj, st @ [obj])"

declare mark_words.simps(2) [simp del]

lemma mark_loop_ok:
  assumes "al_wf l" and "al_contents l = pre @ es" and "i = length pre"
  shows "\<exists>l' st'. mark_loop (recording fwd) l st i = Inr (l', st') \<and> al_wf l'
    \<and> al_contents l' = pre @ mark_words fwd es"
  using assms
proof (induction "length es" arbitrary: es l st i pre rule: less_induct)
  case less
  note len = length_contents [OF less.prems(1)]
  show ?case
  proof (cases es)
    case Nil
    then show ?thesis
      using len less.prems by (subst mark_loop.simps) simp
  next
    case (Cons e es')
    have get: "i < al_len l" "al_get l i = Inr e"
      using growable_list.get_ok [OF array_list_contract [OF doubling_grow_ok] less.prems(1), of i]
        less.prems(2,3) Cons len by (simp_all add: nth_append)
    have put: "\<exists>l'. al_set l i v = Inr l' \<and> al_wf l' \<and> al_contents l' = pre @ v # es'" for v
      using growable_list.put_ok [OF array_list_contract [OF doubling_grow_ok] less.prems(1), of i v]
        less.prems(2,3) Cons by (auto simp: list_update_append)
    have next1: "\<exists>l2 st2. mark_loop (recording fwd) l1 st1 (i + 1) = Inr (l2, st2) \<and> al_wf l2
        \<and> al_contents l2 = pre @ v # mark_words fwd es'"
      if "al_wf l1" "al_contents l1 = pre @ v # es'" for l1 st1 v
      using less.hyps [of es' l1 "pre @ [v]" "i + 1" st1] that Cons less.prems(3) by simp
    have next2: "\<exists>l2 st2. mark_loop (recording fwd) l1 st1 (i + 2) = Inr (l2, st2) \<and> al_wf l2
        \<and> al_contents l2 = pre @ v # take 1 es' @ mark_words fwd (drop 1 es')"
      if l1: "al_wf l1" "al_contents l1 = pre @ v # es'" for l1 st1 v
    proof (cases es')
      case Nil
      then show ?thesis
        using l1 length_contents [OF l1(1)] less.prems(3) by (subst mark_loop.simps) simp
    next
      case (Cons f fs)
      then show ?thesis
        using less.hyps [of fs l1 "pre @ [v, f]" "i + 2" st1] l1 \<open>es = e # es'\<close> less.prems(3) by simp
    qed
    have self: "al_contents l = pre @ e # es'"
      using less.prems(2) Cons by simp
    consider "e = 0" | "e \<noteq> 0" "gc_ptr_tag e 2" | "e \<noteq> 0" "\<not> gc_ptr_tag e 2"
      by blast
    then show ?thesis
    proof cases
      case 1
      then show ?thesis
        using get next1 [OF less.prems(1) self] Cons
        by (subst mark_loop.simps) (simp add: mark_words.simps(2))
    next
      case 2
      then show ?thesis
        using get next1 [OF less.prems(1) self] next2 [OF less.prems(1) self] Cons
        by (subst mark_loop.simps) (simp add: mark_words.simps(2) Let_def)
    next
      case 3
      let ?v = "if gc_ptr_tag e 1 then fwd (e AND NOT 1) OR 1 else fwd e"
      obtain l1 where l1: "al_set l i ?v = Inr l1" "al_wf l1" "al_contents l1 = pre @ ?v # es'"
        using put by blast
      then show ?thesis
        using 3 get next1 [OF l1(2,3)] next2 [OF l1(2,3)] Cons
        by (subst mark_loop.simps) (simp add: mark_words.simps(2) Let_def recording_def split: if_splits)
    qed
  qed
qed

lemma mark_finlist_ok:
  assumes "al_wf l" and "al_contents l = pre @ es" and "start = length pre"
  shows "\<exists>l' st'. mark_finlist (recording fwd) l start st = Inr (l', st') \<and> al_wf l'
    \<and> al_contents l' = pre @ mark_words fwd es"
proof (cases "es = []")
  case True
  then show ?thesis
    using assms length_contents [OF assms(1)] by (simp add: mark_finlist_def)
next
  case False
  then have "0 < length es"
    by simp
  moreover have "al_len l = length pre + length es"
    using assms(2) length_contents [OF assms(1)] by simp
  ultimately have "start < al_len l"
    using assms(3) by linarith
  then show ?thesis
    using mark_loop_ok [OF assms, of fwd st] by (simp add: mark_finlist_def)
qed

lemma mark_threads_empty:
  "\<forall>l \<in> set ls. al_wf l \<and> al_contents l = [] \<Longrightarrow> mark_threads trace ls st = Inr (ls, st)"
proof (induction ls)
  case (Cons l ls)
  then have "al_len l = 0"
    using length_contents [of l] by simp
  then show ?case
    using Cons by (simp add: mark_finlist_def)
qed simp

lemma filter_freed_surviving: "filter (\<lambda>p. surviving live p \<and> freed live p) ps = []"
  by (simp add: filter_empty_conv surviving_def)

lemma mark_whole_list:
  assumes "al_wf l"
  obtains l' st' where "mark_finlist (recording fwd) l 0 st = Inr (l', st')"
    and "al_contents l' = mark_words fwd (al_contents l)"
  using mark_finlist_ok [OF assms, of "[]" "al_contents l" 0 fwd st] by auto

text \<open>
  C9: in the finalizer phase of a collection every registered pair of a live object ends in the marked
  list and every pair of a dead object, or one already to be freed, in \<^verbatim>\<open>to_finalize\<close>, in order and
  once each; the thread lists end empty. The lists hold the new addresses of the objects that
  were traced: all of \<^verbatim>\<open>to_finalize\<close>, and of the marked list everything after a full collection,
  after a nursery one only what this collection added.
\<close>

theorem finalizer_phase:
  assumes "grow_ok g" and "list_all2 (\<lambda>l ps. al_wf l \<and> al_contents l = flat ps) (fl_threads fl) pss"
    and "al_wf (fl_to_finalize fl)" and "al_wf (fl_marked fl)" and "al_contents (fl_marked fl) = flat mps"
  shows "\<exists>fl' st'. scan_finalizers_in_rust g False live nursery (recording fwd) fl st = Inr (fl', st')
    \<and> (\<forall>l \<in> set (fl_threads fl'). al_contents l = [])
    \<and> al_contents (fl_to_finalize fl') = mark_words fwd (al_contents (fl_to_finalize fl)
        @ flat (filter (freed live) (concat pss)) @ (if nursery then [] else flat (filter (freed live) mps)))
    \<and> al_contents (fl_marked fl') =
        (if nursery then flat mps @ mark_words fwd (flat (filter (surviving live) (concat pss)))
         else mark_words fwd (flat (filter (surviving live) (mps @ concat pss))))"
proof -
  let ?fl = "fl\<lparr>fl_threads := []\<rparr>" and ?live = "filter (surviving live) (concat pss)"
  have w: "al_wf (fl_to_finalize ?fl)" "al_wf (fl_marked ?fl)"
    using assms by simp_all
  from sweep_threads_ok [OF assms(1,2) w, of live] obtain fl1 where fl1:
    "sweep_threads g False live (fl_threads fl) ?fl = Inr fl1" "al_wf (fl_to_finalize fl1)"
    "al_wf (fl_marked fl1)" "\<forall>l \<in> set (fl_threads fl1). al_wf l \<and> al_contents l = []"
    "al_contents (fl_to_finalize fl1) = al_contents (fl_to_finalize fl) @ flat (filter (freed live) (concat pss))"
    "al_contents (fl_marked fl1) = flat (mps @ ?live)"
    by (elim exE conjE) (rule that; simp add: assms(5))
  have len: "al_len (fl_marked fl) = length (flat mps)"
    using assms(5) length_contents [OF assms(4)] by simp
  show ?thesis
  proof (cases nursery)
    case True
    obtain mk st1 where "mark_finlist (recording fwd) (fl_marked fl1) (al_len (fl_marked fl)) st = Inr (mk, st1)"
      "al_contents mk = flat mps @ mark_words fwd (flat ?live)"
      using mark_finlist_ok [OF fl1(3), of "flat mps" "flat ?live" "al_len (fl_marked fl)" fwd st] fl1(6) len
      by auto
    moreover obtain tf st2 where "mark_finlist (recording fwd) (fl_to_finalize fl1) 0 st1 = Inr (tf, st2)"
      "al_contents tf = mark_words fwd (al_contents (fl_to_finalize fl1))"
      by (rule mark_whole_list [OF fl1(2)])
    ultimately show ?thesis
      using True fl1 mark_threads_empty [of "fl_threads fl1" "recording fwd" st]
      by (simp add: scan_finalizers_in_rust_def Let_def)
  next
    case False
    let ?s = "\<lparr>fs_list = fl_marked fl1, fs_to_finalize = fl_to_finalize fl1, fs_marked = None,
      fs_pending = fl_pending fl1\<rparr>"
    have "fin_state_wf ?s" "al_contents (fs_list ?s) = flat (mps @ ?live)"
      using fl1 by (simp_all add: fin_state_wf_def)
    from sweep_list_ok [OF assms(1) this, of live] obtain s where s:
      "sweep_finalizer_list g False live ?s = Inr s" "fin_state_wf s"
      "al_contents (fs_list s) = flat (filter (surviving live) (mps @ concat pss))"
      "al_contents (fs_to_finalize s) = al_contents (fl_to_finalize fl)
        @ flat (filter (freed live) (concat pss)) @ flat (filter (freed live) mps)"
      by (elim exE conjE) (rule that; simp add: fl1(5) filter_freed_surviving)
    have ws: "al_wf (fs_list s)" "al_wf (fs_to_finalize s)"
      using s(2) by (simp_all add: fin_state_wf_def)
    obtain mk st1 where "mark_finlist (recording fwd) (fs_list s) 0 st = Inr (mk, st1)"
      "al_contents mk = mark_words fwd (al_contents (fs_list s))"
      by (rule mark_whole_list [OF ws(1)])
    moreover obtain tf st2 where "mark_finlist (recording fwd) (fs_to_finalize s) 0 st1 = Inr (tf, st2)"
      "al_contents tf = mark_words fwd (al_contents (fs_to_finalize s))"
      by (rule mark_whole_list [OF ws(2)])
    ultimately show ?thesis
      using False fl1 s mark_threads_empty [of "fl_threads fl1" "recording fwd" st]
      by (simp add: scan_finalizers_in_rust_def Let_def)
  qed
qed

theorem finalizer_phase_witness:
  "\<exists>fl' st'. scan_finalizers_in_rust doubling_grow False (\<lambda>v. v = 0x9000) True (recording (\<lambda>v. v + 0x100))
      \<lparr>fl_threads = [\<lparr>al_len = 6, al_cells = [0x9001, 7, 0, 8, 0xa000, 0xc000]\<rparr>],
       fl_to_finalize = \<lparr>al_len = 0, al_cells = []\<rparr>, fl_marked = \<lparr>al_len = 0, al_cells = []\<rparr>,
       fl_pending = False\<rparr> [] = Inr (fl', st')
    \<and> al_contents (fl_to_finalize fl') = [0xa100, 0xc100] \<and> al_contents (fl_marked fl') = [0x9101, 7]"
proof -
  let ?fl = "\<lparr>fl_threads = [\<lparr>al_len = 6, al_cells = [0x9001, 7, 0, 8, 0xa000, 0xc000]\<rparr>],
     fl_to_finalize = \<lparr>al_len = 0, al_cells = []\<rparr>, fl_marked = \<lparr>al_len = 0, al_cells = []\<rparr>,
     fl_pending = False\<rparr>"
  have m: "mark_words (\<lambda>v. v + 0x100) [0xa000, 0xc000] = [0xa100, 0xc100]"
    "mark_words (\<lambda>v. v + 0x100) [0x9001, 7] = [0x9101, 7]"
    by (simp_all add: mark_words.simps(2) gc_ptr_tag_def)
  show ?thesis
    using finalizer_phase [OF doubling_grow_ok, of ?fl "[[(0x9001, 7), (0, 8), (0xa000, 0xc000)]]" "[]"
        "\<lambda>v. v = 0x9000" True "\<lambda>v. v + 0x100" "[]"]
    by (auto simp: al_wf_def al_contents_def freed_def surviving_def gc_ptr_tag_def m)
qed

text \<open>
  The debug build takes the same steps, after the assertion that an entry is not null under its
  tags, which it makes before the test that skips null entries.
\<close>

definition deleted :: "fin_pair \<Rightarrow> bool" where
  "deleted p \<longleftrightarrow> fst p AND NOT 3 = 0"

lemma sweep_step_debug:
  "al_get (fs_list s) i = Inr v \<Longrightarrow> sweep_step g True live s i j
    = (if deleted (v, f) then Inl DebugAssert else sweep_step g False live s i j)"
  by (simp add: sweep_step_def gc_ptr_clear_tag_def deleted_def)

lemma sweep_loop_debug:
  assumes "grow_ok g" and "fin_state_wf s" and "al_contents (fs_list s) = pre @ junk @ flat ps"
    and "i = length pre + length junk" and "even (length junk)"
  shows "sweep_loop g True live s i (length pre)
    = (if \<exists>p \<in> set ps. deleted p then Inl DebugAssert else sweep_loop g False live s i (length pre))"
  using assms
proof (induction ps arbitrary: s pre junk i)
  case Nil
  have "al_len (fs_list s) = length (al_contents (fs_list s))"
    using Nil.prems(2) by (simp add: fin_state_wf_def)
  then show ?case
    using Nil.prems(3,4) by (simp add: sweep_loop.simps)
next
  case (Cons p ps)
  obtain v f where p: "p = (v, f)"
    by (cases p)
  from Cons.prems(3) p have c: "al_contents (fs_list s) = pre @ junk @ v # f # flat ps"
    by simp
  have wf: "al_wf (fs_list s)"
    using Cons.prems(2) by (simp add: fin_state_wf_def)
  then have less: "i < al_len (fs_list s)"
    using c Cons.prems(4) length_contents [OF wf] by simp
  have get: "al_get (fs_list s) i = Inr v"
    using growable_list.get_ok [OF array_list_contract [OF Cons.prems(1)] wf, of i] c Cons.prems(4)
    by (simp add: nth_append)
  let ?k = "if kept (fs_marked s \<noteq> None) live (v, f) then [v, f] else []"
  obtain s1 junk1 where s1: "sweep_step g False live s i (length pre)
      = Inr (s1, if kept (fs_marked s \<noteq> None) live (v, f) then length pre + 2 else length pre)"
    "fin_state_wf s1" "al_contents (fs_list s1) = pre @ ?k @ junk1 @ flat ps"
    "length junk1 = length junk + (if kept (fs_marked s \<noteq> None) live (v, f) then 0 else 2)"
    using sweep_step_ok [OF Cons.prems(1,2) c Cons.prems(4) refl Cons.prems(5), of live] by blast
  have step: "sweep_step g False live s i (length pre) = Inr (s1, length (pre @ ?k))"
    using s1(1) by simp
  let ?j = "length (pre @ ?k)"
  have F: "sweep_loop g False live s i (length pre) = sweep_loop g False live s1 (i + 2) ?j"
    using less by (subst sweep_loop.simps) (simp only: step if_True rbind_simps case_prod_conv)
  have T: "sweep_loop g True live s i (length pre)
      = (if deleted (v, f) then Inl DebugAssert else sweep_loop g True live s1 (i + 2) ?j)"
    using less by (subst sweep_loop.simps, cases "deleted (v, f)")
      (simp_all only: sweep_step_debug [OF get, of g live _ f] step if_True if_False rbind_simps case_prod_conv)
  have "sweep_loop g True live s1 (i + 2) ?j
    = (if \<exists>p \<in> set ps. deleted p then Inl DebugAssert else sweep_loop g False live s1 (i + 2) ?j)"
    using s1(2-4) Cons.prems by (intro Cons.IH [of s1 "pre @ ?k" junk1]) simp_all
  then show ?case
    by (simp only: F T p list.set Set.insert_iff bex_simps) simp
qed

text \<open>
  C40: a debug build stops at a deleted entry anywhere in the list it sweeps, because the assertion
  that the untagged pointer is not null runs before the test that skips null entries; without such
  an entry it does what a release build does. A release build sweeps every list: the null entries
  are dropped, the pairs of dead objects move to \<^verbatim>\<open>to_finalize\<close>, those of live ones stay or move
  to the marked list.
\<close>

theorem deleted_entry_in_debug_build:
  assumes "grow_ok g" and "fin_state_wf s" and "al_contents (fs_list s) = flat ps"
  shows "sweep_finalizer_list g True live s
      = (if \<exists>p \<in> set ps. fst p AND NOT 3 = 0 then Inl DebugAssert else sweep_finalizer_list g False live s)
    \<and> (\<exists>s'. sweep_finalizer_list g False live s = Inr s'
        \<and> al_contents (fs_list s') = (if fs_marked s = None then flat (filter (surviving live) ps) else [])
        \<and> al_contents (fs_to_finalize s') = al_contents (fs_to_finalize s) @ flat (filter (freed live) ps)
        \<and> marked_contents s' = marked_contents s
            @ (if fs_marked s = None then [] else flat (filter (surviving live) ps)))"
proof -
  have "al_len (fs_list s) = length (flat ps)"
    using assms(2,3) length_contents [of "fs_list s"] by (simp add: fin_state_wf_def)
  moreover have "sweep_loop g True live s 0 0
      = (if \<exists>p \<in> set ps. deleted p then Inl DebugAssert else sweep_loop g False live s 0 0)"
    using sweep_loop_debug [OF assms(1,2), of "[]" "[]" ps 0 live] assms(3) by simp
  ultimately have "sweep_finalizer_list g True live s
      = (if \<exists>p \<in> set ps. deleted p then Inl DebugAssert else sweep_finalizer_list g False live s)"
    by (auto simp: sweep_finalizer_list_def)
  then show ?thesis
    using sweep_list_ok [OF assms, of live] by (auto simp: deleted_def)
qed

theorem deleted_entry_in_debug_build_witness:
  "sweep_finalizer_list doubling_grow True (\<lambda>v. True)
      \<lparr>fs_list = \<lparr>al_len = 4, al_cells = [0x9000, 7, 0, 8]\<rparr>, fs_to_finalize = \<lparr>al_len = 0, al_cells = []\<rparr>,
       fs_marked = None, fs_pending = False\<rparr> = Inl DebugAssert
    \<and> (\<exists>s'. sweep_finalizer_list doubling_grow False (\<lambda>v. True)
      \<lparr>fs_list = \<lparr>al_len = 4, al_cells = [0x9000, 7, 0, 8]\<rparr>, fs_to_finalize = \<lparr>al_len = 0, al_cells = []\<rparr>,
       fs_marked = None, fs_pending = False\<rparr> = Inr s' \<and> al_contents (fs_list s') = [0x9000, 7])"
  using deleted_entry_in_debug_build [OF doubling_grow_ok, of
      "\<lparr>fs_list = \<lparr>al_len = 4, al_cells = [0x9000, 7, 0, 8]\<rparr>, fs_to_finalize = \<lparr>al_len = 0, al_cells = []\<rparr>,
       fs_marked = None, fs_pending = False\<rparr>" "[(0x9000, 7), (0, 8)]" "\<lambda>v. True"]
  by (auto simp: fin_state_wf_def al_wf_def al_contents_def surviving_def freed_def gc_ptr_tag_def)

end
