(* ===== verification/Reference_Glue.thy ===== *)
theory Reference_Glue
  imports Slots "HOL-Library.Product_Lexorder"
begin

text \<open>
  \<^verbatim>\<open>reference_glue.rs\<close>: the referent of a weak reference, which mmtk-core reads, replaces and clears
  through the binding, and the finalizable objects of mmtk-core's own finalizer support.
  \<^verbatim>\<open>jl_nothing\<close>, which stands for a cleared referent, and the tracer are parameters.

  The locale \<open>weak_cell\<close> is the contract mmtk-core relies on; it is interpreted on the model's
  operations.
\<close>

section \<open>Weak references\<close>

definition load_referent_raw :: "memory \<Rightarrow> addr \<Rightarrow> addr" where
  "load_referent_raw m reff = load64 m (reff + offset_of jl_weakref_fields ''value'')"

definition set_referent_raw :: "memory \<Rightarrow> addr \<Rightarrow> addr \<Rightarrow> memory" where
  "set_referent_raw m reff referent_raw =
     store64 m (reff + offset_of jl_weakref_fields ''value'') referent_raw"

definition set_referent :: "memory \<Rightarrow> addr \<Rightarrow> addr \<Rightarrow> memory" where
  "set_referent m reff referent = set_referent_raw m reff referent"

definition clear_referent :: "addr \<Rightarrow> memory \<Rightarrow> addr \<Rightarrow> memory" where
  "clear_referent jl_nothing m new_reference = set_referent_raw m new_reference jl_nothing"

definition get_referent :: "addr \<Rightarrow> memory \<Rightarrow> addr \<Rightarrow> addr option" where
  "get_referent jl_nothing m obj =
     (let value = load_referent_raw m obj in if value = jl_nothing then None else Some value)"

locale weak_cell =
  fixes get :: "'m \<Rightarrow> 'r \<Rightarrow> addr option"
    and put :: "'m \<Rightarrow> 'r \<Rightarrow> addr \<Rightarrow> 'm"
    and clear :: "'m \<Rightarrow> 'r \<Rightarrow> 'm"
    and referent_ok :: "addr \<Rightarrow> bool"
    and sep :: "'r \<Rightarrow> 'r \<Rightarrow> bool"
  assumes get_put: "referent_ok v \<Longrightarrow> get (put m r v) r = Some v"
    and get_put_other: "sep r r' \<Longrightarrow> get (put m r' v) r = get m r"
    and get_clear: "get (clear m r) r = None"
    and get_clear_other: "sep r r' \<Longrightarrow> get (clear m r') r = get m r"
begin

text \<open>
  A collection decides for each reference whether its referent lives and where it has moved, and
  updates the cell.
\<close>

definition update_cell :: "(addr \<Rightarrow> addr option) \<Rightarrow> 'm \<Rightarrow> 'r \<Rightarrow> 'm" where
  "update_cell fate m r =
     (case get m r of None \<Rightarrow> m
      | Some v \<Rightarrow> (case fate v of None \<Rightarrow> clear m r | Some v' \<Rightarrow> put m r v'))"

lemma update_cell_other: "sep r r' \<Longrightarrow> get (update_cell fate m r') r = get m r"
  by (simp add: update_cell_def get_put_other get_clear_other split: option.split)

lemma update_cell_same:
  assumes "\<And>v v'. fate v = Some v' \<Longrightarrow> referent_ok v'"
  shows "get (update_cell fate m r) r = Option.bind (get m r) fate"
  using assms by (cases "get m r") (auto simp: update_cell_def get_put get_clear split: option.splits)

lemma update_cells_other:
  "(\<And>r'. r' \<in> set rs \<Longrightarrow> sep r r') \<Longrightarrow> get (foldl (update_cell fate) m rs) r = get m r"
  by (induction rs arbitrary: m) (simp_all add: update_cell_other)

lemma update_cells:
  assumes "\<And>v v'. fate v = Some v' \<Longrightarrow> referent_ok v'"
    and "sorted_wrt (\<lambda>r r'. sep r r' \<and> sep r' r) rs" and "r \<in> set rs"
  shows "get (foldl (update_cell fate) m rs) r = Option.bind (get m r) fate"
  using assms(2,3)
proof (induction rs arbitrary: m)
  case (Cons r' rs)
  show ?case
  proof (cases "r = r'")
    case True
    then show ?thesis
      using Cons.prems(1) update_cells_other [of rs r] update_cell_same [of fate, OF assms(1)]
      by simp
  next
    case False
    then show ?thesis
      using Cons by (auto simp: update_cell_other)
  qed
qed simp

end

definition refs_apart :: "addr \<Rightarrow> addr \<Rightarrow> bool" where
  "refs_apart r r' \<longleftrightarrow> apart 8 r 8 r'"

interpretation weak_refs: weak_cell "get_referent jl_nothing" set_referent
    "clear_referent jl_nothing" "\<lambda>v. v \<noteq> jl_nothing" refs_apart
  by unfold_locales
    (simp_all add: get_referent_def set_referent_def clear_referent_def load_referent_raw_def
      set_referent_raw_def refs_apart_def Let_def mem_simps)

text \<open>What a collection does with one weak reference, by the fate of the referent.\<close>

definition update_referent :: "addr \<Rightarrow> (addr \<Rightarrow> addr option) \<Rightarrow> memory \<Rightarrow> addr \<Rightarrow> memory" where
  "update_referent jl_nothing fate m r =
     (case get_referent jl_nothing m r of
        None \<Rightarrow> m
      | Some v \<Rightarrow> (case fate v of
          None \<Rightarrow> clear_referent jl_nothing m r
        | Some v' \<Rightarrow> set_referent m r v'))"

lemma update_referent_cell: "update_referent jl_nothing fate = weak_refs.update_cell jl_nothing fate"
  by (intro ext) (simp add: update_referent_def weak_refs.update_cell_def)

text \<open>
  C25: reading, replacing and clearing the referents of any number of separate weak references
  gives each exactly the fate of its own referent: a reference to a live object refers to the
  object's new address, one to a dead object and one that was cleared before read as cleared.
\<close>

theorem referents_updated:
  assumes "\<And>v v'. fate v = Some v' \<Longrightarrow> v' \<noteq> jl_nothing"
    and "sorted_wrt (\<lambda>r r'. refs_apart r r' \<and> refs_apart r' r) rs" and "r \<in> set rs"
  shows "get_referent jl_nothing (foldl (update_referent jl_nothing fate) m rs) r
    = Option.bind (get_referent jl_nothing m r) fate"
  unfolding update_referent_cell by (rule weak_refs.update_cells [OF assms])

theorem referents_updated_witness:
  "get_referent 0x4000 (foldl (update_referent 0x4000 (\<lambda>v. if v = 0x9000 then Some 0xb000 else None))
       (poke [(0x100, 0x9000), (0x200, 0xa000)]) [0x100, 0x200]) 0x100 = Some 0xb000"
proof -
  have "get_referent 0x4000 (poke [(0x100, 0x9000), (0x200, 0xa000)]) 0x100 = Some 0x9000"
    by (simp add: get_referent_def load_referent_raw_def apart_def mem_simps)
  then show ?thesis
    by (subst referents_updated) (auto simp: refs_apart_def apart_def split: if_splits)
qed

section \<open>Finalizable objects\<close>

text \<open>The object, its finalizer, and whether the finalizer is a plain C pointer.\<close>

datatype finalizable =
  JuliaFinalizableObject (fo_reference: addr) (fo_function: addr) (fo_is_void: bool)

text \<open>The derived order compares the fields from left to right.\<close>

instantiation finalizable :: linorder
begin

definition less_eq_finalizable :: "finalizable \<Rightarrow> finalizable \<Rightarrow> bool" where
  "less_eq_finalizable f g \<longleftrightarrow>
     (fo_reference f, fo_function f, fo_is_void f) \<le> (fo_reference g, fo_function g, fo_is_void g)"

definition less_finalizable :: "finalizable \<Rightarrow> finalizable \<Rightarrow> bool" where
  "less_finalizable f g \<longleftrightarrow>
     (fo_reference f, fo_function f, fo_is_void f) < (fo_reference g, fo_function g, fo_is_void g)"

instance
proof
  fix f g h :: finalizable
  show "(f < g) = (f \<le> g \<and> \<not> g \<le> f)" and "f \<le> f" and "f \<le> g \<or> g \<le> f"
    unfolding less_eq_finalizable_def less_finalizable_def
    by (rule less_le_not_le, rule order_refl, rule linear)
  show "f \<le> g \<Longrightarrow> g \<le> h \<Longrightarrow> f \<le> h"
    unfolding less_eq_finalizable_def by (rule order_trans)
  show "f \<le> g \<Longrightarrow> g \<le> f \<Longrightarrow> f = g"
    unfolding less_eq_finalizable_def by (drule (1) order.antisym) (simp add: finalizable.expand)
qed

end

definition get_reference :: "finalizable \<Rightarrow> addr" where
  "get_reference f = fo_reference f"

fun set_reference :: "finalizable \<Rightarrow> addr \<Rightarrow> finalizable" where
  "set_reference (JuliaFinalizableObject reference function is_void) obj =
     JuliaFinalizableObject obj function is_void"

definition keep_alive :: "('t \<Rightarrow> addr \<Rightarrow> addr \<times> 't) \<Rightarrow> finalizable \<Rightarrow> 't \<Rightarrow> finalizable \<times> 't" where
  "keep_alive trace_object f st =
     (let (obj, st1) = trace_object st (get_reference f); f1 = set_reference f obj
      in if \<not> fo_is_void f1 then (f1, snd (trace_object st1 (fo_function f1))) else (f1, st1))"

text \<open>
  Keeping a finalizable object alive traces the object and, unless it is a C pointer, its
  finalizer, once each and in this order. Only the object's address is updated: the address of the
  finalizer stays what it was, also when tracing has moved the finalizer.
\<close>

theorem keep_alive_keeps_function:
  "keep_alive (\<lambda>traced obj. (forward obj, traced @ [obj])) f [] =
     (JuliaFinalizableObject (forward (fo_reference f)) (fo_function f) (fo_is_void f),
      if fo_is_void f then [fo_reference f] else [fo_reference f, fo_function f])"
  by (cases f) (simp add: keep_alive_def get_reference_def Let_def)

end
