(* ===== verification/Weak_Processing.thy ===== *)
theory Weak_Processing
  imports Finalizers Collection Reference_Glue
begin

text \<open>
  The weak-reference part of \<^verbatim>\<open>scanning.rs\<close>: \<^verbatim>\<open>process_weak_refs\<close> adds one work packet that scans the
  finalizer lists and one, in a later bucket, that sweeps what C allocated for Julia objects.
\<close>

section \<open>Work packets\<close>

text \<open>
  The buckets of mmtk-core the packets go to, in the order mmtk-core opens them; a sweep packet
  records whether it ran.
\<close>

datatype work_bucket = VMRefClosure | Release

datatype work_packet = Scan_finalizers_single_threaded | Sweep_vm_specific bool

definition sweep_vm_specific_new :: work_packet where
  "sweep_vm_specific_new = Sweep_vm_specific False"

definition process_weak_refs ::
    "(work_bucket \<times> work_packet) list \<Rightarrow> bool \<times> (work_bucket \<times> work_packet) list" where
  "process_weak_refs packets =
     (False, packets @ [(VMRefClosure, Scan_finalizers_single_threaded),
                        (Release, sweep_vm_specific_new)])"

text \<open>The two functions of C a sweep packet calls.\<close>

datatype vm_sweep = Sweep_malloced_memory | Sweep_stack_pools_and_mtarraylist_buffers

record 't vm_state =
  vm_finalizers :: fin_lists
  vm_tracer :: 't
  vm_sweeps :: "vm_sweep list"

definition sweep_do_work :: "'t vm_state \<Rightarrow> work_packet \<times> 't vm_state" where
  "sweep_do_work vm =
     (Sweep_vm_specific True,
      vm\<lparr>vm_sweeps := vm_sweeps vm @ [Sweep_malloced_memory, Sweep_stack_pools_and_mtarraylist_buffers]\<rparr>)"

definition finalizers_do_work ::
    "grow_fn \<Rightarrow> bool \<Rightarrow> (addr \<Rightarrow> bool) \<Rightarrow> bool option \<Rightarrow> 't tracer \<Rightarrow> 't vm_state \<Rightarrow> 't vm_state res" where
  "finalizers_do_work g dbg live plan trace vm =
     rbind (scan_finalizers_in_rust g dbg live (is_current_gc_nursery plan) trace (vm_finalizers vm)
              (vm_tracer vm))
       (\<lambda>(fl, tr). Inr (vm\<lparr>vm_finalizers := fl, vm_tracer := tr\<rparr>))"

fun do_work ::
    "grow_fn \<Rightarrow> bool \<Rightarrow> (addr \<Rightarrow> bool) \<Rightarrow> bool option \<Rightarrow> 't tracer \<Rightarrow> work_packet \<Rightarrow> 't vm_state
      \<Rightarrow> 't vm_state res" where
  "do_work g dbg live plan trace Scan_finalizers_single_threaded vm =
     finalizers_do_work g dbg live plan trace vm"
| "do_work g dbg live plan trace (Sweep_vm_specific swept) vm = Inr (snd (sweep_do_work vm))"

fun run_packets ::
    "grow_fn \<Rightarrow> bool \<Rightarrow> (addr \<Rightarrow> bool) \<Rightarrow> bool option \<Rightarrow> 't tracer \<Rightarrow> work_packet list \<Rightarrow> 't vm_state
      \<Rightarrow> 't vm_state res" where
  "run_packets g dbg live plan trace [] vm = Inr vm"
| "run_packets g dbg live plan trace (w # ws) vm =
     rbind (do_work g dbg live plan trace w vm) (run_packets g dbg live plan trace ws)"

text \<open>The packets of one bucket after the other.\<close>

definition in_bucket :: "work_bucket \<Rightarrow> (work_bucket \<times> work_packet) list \<Rightarrow> work_packet list" where
  "in_bucket b packets = map snd (filter (\<lambda>p. fst p = b) packets)"

definition weak_ref_phases ::
    "grow_fn \<Rightarrow> bool \<Rightarrow> (addr \<Rightarrow> bool) \<Rightarrow> bool option \<Rightarrow> 't tracer \<Rightarrow> (work_bucket \<times> work_packet) list
      \<Rightarrow> 't vm_state \<Rightarrow> 't vm_state res" where
  "weak_ref_phases g dbg live plan trace packets vm =
     rbind (run_packets g dbg live plan trace (in_bucket VMRefClosure packets) vm)
       (run_packets g dbg live plan trace (in_bucket Release packets))"

text \<open>
  One call of \<open>process_weak_refs\<close> in a collection: the finalizers are scanned once, with the kind of
  the collection, and only if that returns are the malloc'ed buffers and stack pools swept, once.
\<close>

lemma weak_ref_phases_once:
  "weak_ref_phases g dbg live plan trace (snd (process_weak_refs [])) vm =
     rbind (finalizers_do_work g dbg live plan trace vm) (\<lambda>vm'. Inr (snd (sweep_do_work vm')))"
  by (simp add: weak_ref_phases_def process_weak_refs_def in_bucket_def sweep_vm_specific_new_def
      rbind_assoc)

end
