(* ===== verification/World_Monitor.thy ===== *)
theory World_Monitor
  imports Collection
begin

text \<open>
  What the handshake of \<^verbatim>\<open>collection.rs\<close> promises, without flags, mutex or condition variable: a world
  that runs, is asked to stop, is stopped, and runs again. The steps of \<open>Collection\<close> implement it:
  each of them is one step of the monitor or changes nothing the monitor sees.
\<close>

section \<open>The monitor\<close>

datatype phase = Running | Stop_requested | Stopped

text \<open>The phase, and the number of collections that have ended.\<close>

record monitor =
  world_phase :: phase
  rounds :: nat

inductive monitor_step :: "monitor \<Rightarrow> monitor \<Rightarrow> bool" where
  request: "world_phase w = Running \<Longrightarrow> monitor_step w (w\<lparr>world_phase := Stop_requested\<rparr>)"
| stop: "world_phase w = Stop_requested \<Longrightarrow> monitor_step w (w\<lparr>world_phase := Stopped\<rparr>)"
| resume: "world_phase w = Stopped \<Longrightarrow>
    monitor_step w (w\<lparr>world_phase := Running, rounds := Suc (rounds w)\<rparr>)"

inductive_simps monitor_step_simps: "monitor_step w w'"

definition initial_monitor :: monitor where
  "initial_monitor = \<lparr>world_phase = Running, rounds = 0\<rparr>"

section \<open>What the monitor sees of the handshake\<close>

text \<open>
  The time of a collection is reported just before \<^verbatim>\<open>BLOCK_FOR_GC\<close> is cleared; the collection ends
  with the latter.
\<close>

definition abs_world :: "handshake \<Rightarrow> monitor" where
  "abs_world s =
     \<lparr>world_phase = (if collecting (gc_at s) then Stopped
                     else if awaits_gc s then Stop_requested else Running),
      rounds = length (reported_times s) - (if gc_at s = G_unblock then 1 else 0)\<rparr>"

lemma abs_world_initial: "abs_world initial_handshake = initial_monitor"
  by (simp add: abs_world_def initial_handshake_def initial_monitor_def awaits_gc_def)

definition report_inv :: "handshake \<Rightarrow> bool" where
  "report_inv s \<longleftrightarrow> (gc_at s = G_unblock \<longrightarrow> reported_times s \<noteq> [])"

lemma report_inv_step:
  assumes "stw_fire ms e s = Some s'" and "report_inv s"
  shows "report_inv s'"
proof (cases e)
  case Block
  with assms show ?thesis
    by (cases "block_at s") (auto simp: report_inv_def block_thread_step_def split: if_splits)
next
  case (Gc now)
  with assms(1) have "stw_fire ms (Gc now) s = Some s'"
    by simp
  then show ?thesis
    using assms(2) by (cases rule: gc_step_cases) (auto simp: report_inv_def)
qed (use assms in \<open>auto simp: report_inv_def split: if_splits\<close>)

lemma report_inv_run: "stw_run ms s0 s \<Longrightarrow> report_inv s0 \<Longrightarrow> report_inv s"
  by (induction rule: stw_run.induct) (auto intro: report_inv_step)

lemma block_step_unseen:
  assumes "block_thread_step s = Some s'" and "world_inv s"
  shows "abs_world s' = abs_world s"
proof -
  have "entering (block_at s) \<Longrightarrow> block_at s \<noteq> B_called \<Longrightarrow> block_for_gc s"
    using assms(2) by (simp add: world_inv_def)
  with assms(1) have "awaits_gc s' = awaits_gc s" "gc_at s' = gc_at s"
    "reported_times s' = reported_times s"
    by (cases "block_at s"; auto simp: awaits_gc_def block_thread_step_def split: if_splits)+
  then show ?thesis
    by (simp add: abs_world_def)
qed

lemma gc_step_seen:
  assumes "stw_fire ms (Gc now) s = Some s'" and "world_inv s" and "request_inv s" and "report_inv s"
  shows "abs_world s' = abs_world s \<or> monitor_step (abs_world s) (abs_world s')"
  using assms(1)
proof (cases rule: gc_step_cases)
  case accept
  then show ?thesis
    by (simp add: abs_world_def)
next
  case stopped
  then have "awaits_gc s"
    using assms(3) by (simp add: request_inv_def)
  then show ?thesis
    using stopped by (simp add: abs_world_def monitor_step_simps)
next
  case visit
  then show ?thesis
    by (simp add: abs_world_def)
next
  case all_visited
  then show ?thesis
    by (simp add: abs_world_def)
next
  case report
  then show ?thesis
    by (simp add: abs_world_def)
next
  case unblock
  then have "parked (block_at s)" "reported_times s \<noteq> []"
    using assms(2,4) by (simp_all add: world_inv_def report_inv_def)
  then show ?thesis
    using unblock by (simp add: abs_world_def monitor_step_simps awaits_gc_unblocked)
next
  case clear
  then show ?thesis
    by (simp add: abs_world_def)
next
  case notify
  then show ?thesis
    by (simp add: abs_world_def awaits_gc_woken)
qed

lemma step_seen:
  assumes "stw_fire ms e s = Some s'" and "world_inv s" and "request_inv s" and "report_inv s"
  shows "abs_world s' = abs_world s \<or> monitor_step (abs_world s) (abs_world s')"
proof (cases e)
  case Poll
  with assms(1) have "block_at s = B_outside" "s' = s\<lparr>gc_requested := True, block_at := B_called\<rparr>"
    by (simp_all split: if_splits)
  moreover from this have "\<not> collecting (gc_at s)" "\<not> awaits_gc s"
    using assms(2) by (auto simp: world_inv_def awaits_gc_def)
  ultimately show ?thesis
    by (simp add: abs_world_def monitor_step_simps awaits_gc_def)
next
  case Block
  then show ?thesis
    using block_step_unseen [of s s'] assms by simp
next
  case (Gc now)
  then show ?thesis
    using gc_step_seen [of ms now s s'] assms by simp
next
  case Spurious
  then show ?thesis
    using assms(1) by (auto simp: abs_world_def awaits_gc_woken split: if_splits)
qed

section \<open>The handshake implements the monitor\<close>

lemma initial_report: "report_inv initial_handshake"
  by (simp add: report_inv_def initial_handshake_def)

lemma run_seen:
  "stw_run ms s0 s \<Longrightarrow> world_inv s0 \<and> request_inv s0 \<Longrightarrow> report_inv s0 \<Longrightarrow>
    rtranclp monitor_step (abs_world s0) (abs_world s)"
proof (induction rule: stw_run.induct)
  case (step s s' e s'')
  then have "abs_world s'' = abs_world s' \<or> monitor_step (abs_world s') (abs_world s'')"
    using stw_run_inv [OF step.hyps(1)] report_inv_run [OF step.hyps(1)] by (intro step_seen) simp_all
  then show ?case
    using step.IH step.prems by (auto intro: rtranclp.rtrancl_into_rtrancl)
qed simp

text \<open>
  C13: the handshake refines the monitor. Every run of the handshake is a run of the monitor, for any
  interleaving: each step of the blocking thread, the worker or the condition variable is one
  step of the monitor, that is a request, a stop or a resumption in this order, or is not seen by
  it. The elected thread is in Julia code only while the monitor's world runs, and in its loop
  while it is stopped; and one time has been reported to Julia for each collection that ended.
\<close>

theorem handshake_refines_monitor:
  assumes "stw_reach ms s" and "stw_fire ms e s = Some s'"
  shows "rtranclp monitor_step initial_monitor (abs_world s)
    \<and> (abs_world s' = abs_world s \<or> monitor_step (abs_world s) (abs_world s'))
    \<and> (block_at s = B_outside \<longrightarrow> world_phase (abs_world s) = Running)
    \<and> (world_phase (abs_world s) = Stopped \<longrightarrow> parked (block_at s))
    \<and> (gc_at s \<noteq> G_unblock \<longrightarrow> rounds (abs_world s) = length (reported_times s))"
proof -
  have w: "world_inv s" and r: "request_inv s" and p: "report_inv s"
    using stw_reach_inv [OF assms(1)] report_inv_run [OF assms(1) initial_report] by simp_all
  have "block_at s = B_outside \<longrightarrow> world_phase (abs_world s) = Running"
    using w by (auto simp: abs_world_def awaits_gc_def world_inv_def)
  moreover have "world_phase (abs_world s) = Stopped \<longrightarrow> parked (block_at s)"
    using w by (auto simp: abs_world_def world_inv_def split: if_splits)
  moreover have "gc_at s \<noteq> G_unblock \<longrightarrow> rounds (abs_world s) = length (reported_times s)"
    by (simp add: abs_world_def)
  ultimately show ?thesis
    using run_seen [OF assms(1) initial_inv initial_report, unfolded abs_world_initial]
      step_seen [OF assms(2) w r p] by blast
qed

text \<open>The state of \<open>blocked_schedule\<close>, in which the worker collects, and one step on.\<close>

theorem handshake_refines_monitor_witness:
  "\<exists>s s'. stw_schedule [0x900, 0xa00] blocked_schedule initial_handshake = Some s
    \<and> stw_fire [] (Gc 0) s = Some s' \<and> rtranclp monitor_step initial_monitor (abs_world s)
    \<and> world_phase (abs_world s) = Stopped \<and> parked (block_at s)"
proof -
  let ?s = "\<lparr>block_for_gc = True, world_has_stopped = True, user_triggered_gc = 0,
        gc_start_clock = 100, gc_requested = False, lock_free = True, block_at = B_asleep,
        gc_at = G_collect, visited_mutators = [0x900, 0xa00], reported_times = []\<rparr> :: handshake"
  have r: "stw_reach [0x900, 0xa00] ?s"
    using stw_schedule_run [OF stw_run.stop blocked_schedule_state] .
  obtain s' where s': "stw_fire [0x900, 0xa00] (Gc 0) ?s = Some s'" "stw_fire [] (Gc 0) ?s = Some s'"
    by (simp add: stw_defs)
  then show ?thesis
    using handshake_refines_monitor [OF r s'(1)] blocked_schedule_state
    by (intro exI [of _ ?s] exI [of _ s']) (simp add: abs_world_def)
qed

end
