(* ===== verification/Spec2Isabelle.thy ===== *)
theory Spec2Isabelle
  imports Bitfield_Accessors Build_Script Copied_Stacks Debug_Checks Host_Api Metadata_Specs
    Moved_Memory Moved_Module Moved_Vector Thread_Roots Weak_Processing World_Monitor
begin

text \<open>
  A verification library for the MMTk binding of the Julia language, the Rust crate \<^verbatim>\<open>src/mmtk\<close>.

  The program. The binding sits between the Julia runtime (C) and mmtk-core (Rust), neither of
  which is under \<^verbatim>\<open>src/\<close>. mmtk-core calls it to stop and resume the world, to find the roots, to
  visit the reference slots of an object, to learn an object's size, to copy it, to process the
  finalizers and to decide when to collect; Julia calls it through a C interface to initialise the
  collector, to bind its threads, to request collections and to pin objects. The binding reads
  Julia's objects, types, modules, tasks and stacks in memory through the structs bindgen
  generated from the headers of Julia.

  The model. Memory is a function from 64-bit addresses to bytes (\<open>Memory\<close>), the structs are the
  offsets and sizes the C layout rule computes from the generated declarations (\<open>Julia_Layout\<close>),
  and every function of the binding is a function on words and memory that returns its result or
  the fault it ends in (\<open>Prelude\<close>). Functions and statics of Julia and of mmtk-core are parameters:
  the fields of \<open>runtime\<close>, \<open>copy_context\<close>, \<open>plan_view\<close>, \<open>mmtk_core\<close> and \<open>core\<close>, or arguments. The build is
  the release profile on 64-bit little-endian Linux with the default features, unless a definition
  takes the build as an argument.

  The theories, in the order of their imports, and what they model.

    \<^item> \<open>Prelude\<close>, \<open>Memory\<close>: machine integers, faults, results, cursor loops; loads, stores and copies
      of bytes. The locale \<open>word_store\<close> is the interface of 64-bit loads and stores.
    \<^item> \<open>Bitfields\<close>: the bit-field unit of \<^verbatim>\<open>julia_types.rs\<close>, through the storage and through a
      pointer, both instances of the locale \<open>bit_unit\<close>; the loop-free accessors of \<^verbatim>\<open>util.rs\<close>, shown
      equal to the generated ones; the constructors, shown to be read back field by field.
    \<^item> \<open>Julia_Layout\<close>: every struct and union of \<^verbatim>\<open>julia_types.rs\<close> and its assertions, shown to hold;
      the small type tags.
    \<^item> \<open>Bitfield_Accessors\<close>: the generated accessors of all bit fields, unit by unit.
    \<^item> \<open>Slots\<close>: \<^verbatim>\<open>slots.rs\<close>. Simple and offset slots under the contract \<open>slot_contract\<close>; memory slices,
      their iterator, and their copy, which is shown to be \<^verbatim>\<open>memmove\<close>; the buffers C reports roots in.
    \<^item> \<open>Julia_Scanning\<close>: \<^verbatim>\<open>julia_scanning.rs\<close>. \<^verbatim>\<open>scan_julia_object\<close> on each branch, with the slots it
      visits for vectors, modules, tasks, arrays, generic memory and objects with a layout, and the
      faults it can end in; the walk over a task's shadow stack, also when the stack is copied.
    \<^item> \<open>Stack_Walk\<close>: the walk over the frames of a stack ends unless the chain is cyclic, and then it has
      visited every frame once.
    \<^item> \<open>Copied_Stacks\<close>: the walk over a stack that Julia has copied out finds what the walk over the
      restored stack finds.
    \<^item> \<open>Object_Model\<close>: \<^verbatim>\<open>object_model.rs\<close> and the size words of \<^verbatim>\<open>api.rs\<close>. Sizes refine the contents the
      types describe, scanned slots lie inside the object.
    \<^item> \<open>Evacuation\<close>: copies keep the object; what happens to one live object across \<open>Object_Model\<close>,
      \<open>Julia_Scanning\<close> and \<open>Slots\<close>. It is copied, the copy is scanned like the object, and its fields
      are forwarded.
    \<^item> \<open>Moved_Memory\<close>: the same for memory objects that hold their own data. The copy points into
      itself and its elements are those of the old object, also through an array that was forwarded.
    \<^item> \<open>Moved_Module\<close>: a module that moves with its \<^verbatim>\<open>usings\<close> list inline, whose list is not forwarded.
    \<^item> \<open>Metadata_Specs\<close>: the metadata specifications of \<^verbatim>\<open>object_model.rs\<close>. The side tables form one
      chain and do not overlap (locale \<open>side_tables\<close>); the forwarding pointer is the type word.
    \<^item> \<open>Root_Scanning\<close>: the roots of \<^verbatim>\<open>scanning.rs\<close>. The roots of a thread and those reported by C
      reach mmtk-core in packets (locale \<open>packet_sink\<close>), none lost; backtrace buffers are decoded.
    \<^item> \<open>Thread_Roots\<close>: which roots these are, from the words of the thread's state.
    \<^item> \<open>Reachability\<close>: the references an object has by the layout of its type, and the theorem that
      tracing from the roots of a thread through \<^verbatim>\<open>scan_julia_object\<close> finds the reachable objects and
      no others; the locale \<open>tracer\<close> is what mmtk-core does with the slots.
    \<^item> \<open>Moved_Graph\<close>: \<open>Evacuation\<close> in terms of \<open>Reachability\<close>. An evacuated object refers to the new
      addresses of what it referred to and to nothing else. \<open>Moved_Vector\<close>: the same for vectors.
    \<^item> \<open>Debug_Checks\<close>: the scan with its debug assertions, on slots and on layouts, and when they hold.
    \<^item> \<open>Float64\<close>, \<open>GC_Trigger\<close>: \<^verbatim>\<open>gc_trigger.rs\<close>. Doubles are rationals, rounded to 53 bits, ties to
      even, after every operation, the square root included; the heap target stays within the guardrails whatever the rounding.
    \<^item> \<open>Finalizers\<close>: \<^verbatim>\<open>julia_finalizer.rs\<close>. The lists are instances of the locale \<open>growable_list\<close>; the
      phase sends every pair to the list it belongs to.
    \<^item> \<open>Mutators\<close>: \<^verbatim>\<open>active_plan.rs\<close> and the binding of mutators in \<^verbatim>\<open>api.rs\<close>, over the interface
      \<open>hash_table\<close> of the table. Every mutator is visited once, every box is dropped once.
    \<^item> \<open>Collection\<close>: \<^verbatim>\<open>collection.rs\<close> and the panic hook of \<^verbatim>\<open>lib.rs\<close>. The handshake of the blocking
      thread and the GC worker is a transition system with one step for each access to a shared
      variable; its invariant holds in every reachable state, for any interleaving and any number of
      collections, so there is no bound or fuel.
    \<^item> \<open>World_Monitor\<close>: the monitor the handshake refines, with the phases running, requested, stopped.
    \<^item> \<open>Runtime_Api\<close>: initialisation, user requests, region copies, pinning of \<^verbatim>\<open>api.rs\<close>; \<^verbatim>\<open>util.rs\<close>.
    \<^item> \<open>C_Strings\<close>: the strings that cross the C interface, null-terminated and UTF-8; decoding is the
      inverse of encoding and accepts nothing else.
    \<^item> \<open>Host_Api\<close>: the functions of \<^verbatim>\<open>api.rs\<close> for allocation, queries, options and workers, over the
      operations of mmtk-core (record \<open>core\<close>).
    \<^item> \<open>Build_Info\<close>, \<open>Build_Script\<close>: \<^verbatim>\<open>build_info.rs\<close>, the version text as C reads it; \<^verbatim>\<open>build.rs\<close>, the
      steps of the build over an arbitrary host (record \<open>host\<close>).
    \<^item> \<open>Reference_Glue\<close>: \<^verbatim>\<open>reference_glue.rs\<close>, under the contract \<open>weak_cell\<close>.
    \<^item> \<open>Weak_Processing\<close>: the work packets \<^verbatim>\<open>process_weak_refs\<close> adds, over \<open>Finalizers\<close>.

  How the theories fit together. A collection starts when \<open>is_gc_required\<close> (\<open>GC_Trigger\<close>) says so
  or a user asks for it (\<open>Runtime_Api\<close>); the handshake of \<open>Collection\<close> stops the world and visits the
  mutators of \<open>Mutators\<close>; \<open>Root_Scanning\<close> scans each of them with \<open>mmtk_scan_gcstack\<close>; mmtk-core
  traces the objects with \<open>scan_julia_object\<close>, copies them with \<open>object_copy\<close> and writes their new
  addresses through the slots of \<open>Slots\<close>; \<open>Weak_Processing\<close> runs the phase of \<open>Finalizers\<close>; \<open>on_gc_end\<close>
  sets the next heap target and \<open>resume_mutators\<close> ends the round.

  Termination. Loops that may not end (cursor loops over ranges that wrap around, the frames of a
  cyclic shadow stack, a backtrace buffer whose entry sizes overflow) are partial functions into
  \<open>option\<close>, and the theorems show when they return; the other loops are total functions. No
  definition takes fuel.

  Where modelling showed that the code does not do what it means to, a theorem states what it
  does: \<open>handshake_races\<close>, \<open>thrashing_unreachable\<close>, \<open>pending_pages_kept\<close>, \<open>freed_diff_wraps\<close>,
  \<open>corruption_panic\<close>, \<open>moved_module_stale_usings\<close>, \<open>deleted_entry_in_debug_build\<close>,
  \<open>buffer_size_roundtrip\<close>, \<open>keep_alive_keeps_function\<close> and \<open>make_status_ignored\<close>.

  Not modelled: logging, printing and the formatting of values for it; the debug assertions, except
  those of \<open>Debug_Checks\<close> and where a definition takes the build as an argument, and the overflow
  checks a debug build adds to arithmetic. The functions of \<^verbatim>\<open>api.rs\<close> that pass their
  arguments to mmtk-core unchanged are definitions over its operations, about which nothing can be
  shown here. The weak memory of the hardware is not modelled either: the flags of
  the handshake are sequentially consistent in the code, and the relaxed atomics of the trigger
  and of slots are each written by one thread at a time.
\<close>

end
